theory Spec2Isabelle
  imports Main "HOL-Library.Word"
begin

unbundle bit_operations_syntax

section \<open>Data model of package rr\<close>

text \<open>
  Go's \<open>byte\<close>, \<open>uint16\<close>, \<open>uint32\<close> and \<open>int32\<close> are words of that width
  (an \<open>int32\<close> and the \<open>uint32\<close> it is converted to share their bits, so both are
  \<open>32 word\<close>); \<open>[]byte\<close> and \<open>net.IP\<close> are byte lists; a Go \<open>string\<close> is a
  \<open>string\<close>, one \<open>char\<close> per byte.
\<close>

type_synonym byte = "8 word"
type_synonym bytes = "byte list"

text \<open>
  What a call can end in besides its result: an \<open>os.Error\<close> that is returned, a
  \<open>panic\<close>, and \<open>log.Fatalf\<close>, which ends the process.
\<close>

datatype error = Error string | Panic string | Fatal string

definition byte_of_char :: "char \<Rightarrow> byte" where
  "byte_of_char c = of_nat (of_char c)"

definition char_of_byte :: "byte \<Rightarrow> char" where
  "char_of_byte w = char_of (unat w)"

text \<open>\<open>const asserts = false\<close> (rr.go, line 23).\<close>

definition asserts :: bool where
  "asserts = False"

subsection \<open>The RDATA variants\<close>

record DNSKEY =
  DNSKEY_Flags :: "16 word"
  DNSKEY_Protocol :: byte
  DNSKEY_Algorithm :: byte
  DNSKEY_Key :: bytes

record DS =
  DS_KeyTag :: "16 word"
  DS_AlgorithmType :: byte
  DS_DigestType :: byte
  DS_Digest :: bytes

record MX =
  MX_Preference :: "16 word"
  MX_Exchange :: string

record NSEC3PARAM =
  NSEC3PARAM_HashAlgorithm :: byte
  NSEC3PARAM_Flags :: byte
  NSEC3PARAM_Iterations :: "16 word"
  NSEC3PARAM_Salt :: bytes

text \<open>\<open>NSEC3\<close> embeds \<open>NSEC3PARAM\<close> and adds two fields.\<close>

record NSEC3 = NSEC3PARAM +
  NSEC3_NextHashedOwnerName :: bytes
  NSEC3_TypeBitMaps :: bytes

record RRSIG =
  RRSIG_Type :: "16 word"
  RRSIG_AlgorithmType :: byte
  RRSIG_Labels :: byte
  RRSIG_TTL :: "32 word"
  RRSIG_Expiration :: "32 word"
  RRSIG_Inception :: "32 word"
  RRSIG_KeyTag :: "16 word"
  RRSIG_Name :: string
  RRSIG_Signature :: bytes

record SOA =
  SOA_MName :: string
  SOA_RName :: string
  SOA_Serial :: "32 word"
  SOA_Refresh :: "32 word"
  SOA_Retry :: "32 word"
  SOA_Expire :: "32 word"
  SOA_Minimum :: "32 word"

text \<open>
  The field \<open>RData dns.Wirer\<close> holds a pointer to one of the sixteen variants of this
  package, or nothing: \<open>RD_nil\<close> is the nil interface value of an \<open>RR\<close> whose
  \<open>RData\<close> was never set.
\<close>

datatype rdata =
    RD_A bytes
  | RD_AAAA bytes
  | RD_CNAME string
  | RD_DNSKEY DNSKEY
  | RD_DS DS
  | RD_MX MX
  | RD_NODATA "16 word"
  | RD_NXDOMAIN
  | RD_NS string
  | RD_NSEC3 NSEC3
  | RD_NSEC3PARAM NSEC3PARAM
  | RD_PTR string
  | RD_RRSIG RRSIG
  | RD_SOA SOA
  | RD_TXT string
  | RD_RDATA bytes
  | RD_nil

record RR =
  RR_Name :: string
  RR_Type :: "16 word"
  RR_Class :: "16 word"
  RR_TTL :: "32 word"
  RR_RData :: rdata

subsection \<open>Type codes\<close>

definition TYPE_A :: "16 word" where "TYPE_A = 1"
definition TYPE_NS :: "16 word" where "TYPE_NS = 2"
definition TYPE_MD :: "16 word" where "TYPE_MD = 3"
definition TYPE_MF :: "16 word" where "TYPE_MF = 4"
definition TYPE_CNAME :: "16 word" where "TYPE_CNAME = 5"
definition TYPE_SOA :: "16 word" where "TYPE_SOA = 6"
definition TYPE_MB :: "16 word" where "TYPE_MB = 7"
definition TYPE_MG :: "16 word" where "TYPE_MG = 8"
definition TYPE_MR :: "16 word" where "TYPE_MR = 9"
definition TYPE_NULL :: "16 word" where "TYPE_NULL = 10"
definition TYPE_WKS :: "16 word" where "TYPE_WKS = 11"
definition TYPE_PTR :: "16 word" where "TYPE_PTR = 12"
definition TYPE_HINFO :: "16 word" where "TYPE_HINFO = 13"
definition TYPE_MINFO :: "16 word" where "TYPE_MINFO = 14"
definition TYPE_MX :: "16 word" where "TYPE_MX = 15"
definition TYPE_TXT :: "16 word" where "TYPE_TXT = 16"
definition TYPE_AAAA :: "16 word" where "TYPE_AAAA = 28"
definition TYPE_DS :: "16 word" where "TYPE_DS = 43"
definition TYPE_RRSIG :: "16 word" where "TYPE_RRSIG = 46"
definition TYPE_NSEC :: "16 word" where "TYPE_NSEC = 47"
definition TYPE_DNSKEY :: "16 word" where "TYPE_DNSKEY = 48"
definition TYPE_NSEC3 :: "16 word" where "TYPE_NSEC3 = 50"
definition TYPE_NSEC3PARAM :: "16 word" where "TYPE_NSEC3PARAM = 51"
definition TYPE_NODATA :: "16 word" where "TYPE_NODATA = 0xFF00"
definition TYPE_NXDOMAIN :: "16 word" where "TYPE_NXDOMAIN = 0xFF01"

definition HashAlgorithmReserved :: byte where "HashAlgorithmReserved = 0"
definition HashAlgorithmSHA1 :: byte where "HashAlgorithmSHA1 = 1"

section \<open>The wire primitives of package dns\<close>

text \<open>
  Modelled from the spec: package \<open>dns\<close> (\<open>Wirebuf\<close>, \<open>Octet\<close>, \<open>Octets2\<close>,
  \<open>Octets4\<close>, \<open>CharString\<close>, \<open>DomainName\<close>) is not among the sources. The spec
  describes it as the codec of fixed-width big-endian integers, length-prefixed character
  strings and (possibly compressed) domain names, over a byte buffer with a cursor; a decode
  fails when the buffer is shorter than the field and otherwise moves the cursor past it.
  The layout of a domain name is not described, so its encoder and decoder are the
  parameters \<open>dnEnc\<close> and \<open>dnDec\<close> of everything that handles a name. The buffer
  carries the switch that \<open>DisableCompression\<close> and \<open>EnableCompression\<close> set.
\<close>

record Wirebuf =
  Buf :: bytes
  Compression :: bool

type_synonym name_encoder = "Wirebuf \<Rightarrow> string \<Rightarrow> bytes"
type_synonym name_decoder = "bytes \<Rightarrow> nat \<Rightarrow> error + (string \<times> nat)"

definition append_Buf :: "bytes \<Rightarrow> Wirebuf \<Rightarrow> Wirebuf" where
  "append_Buf bs b = b\<lparr>Buf := Buf b @ bs\<rparr>"

definition DisableCompression :: "Wirebuf \<Rightarrow> Wirebuf" where
  "DisableCompression b = b\<lparr>Compression := False\<rparr>"

definition EnableCompression :: "Wirebuf \<Rightarrow> Wirebuf" where
  "EnableCompression b = b\<lparr>Compression := True\<rparr>"

definition Octet_Encode :: "byte \<Rightarrow> Wirebuf \<Rightarrow> Wirebuf" where
  "Octet_Encode v = append_Buf [v]"

definition Octets2_Encode :: "16 word \<Rightarrow> Wirebuf \<Rightarrow> Wirebuf" where
  "Octets2_Encode v = append_Buf [ucast (drop_bit 8 v), ucast v]"

definition Octets4_Encode :: "32 word \<Rightarrow> Wirebuf \<Rightarrow> Wirebuf" where
  "Octets4_Encode v =
     append_Buf [ucast (drop_bit 24 v), ucast (drop_bit 16 v), ucast (drop_bit 8 v), ucast v]"

definition CharString_Encode :: "string \<Rightarrow> Wirebuf \<Rightarrow> Wirebuf" where
  "CharString_Encode s = append_Buf (of_nat (length s) # map byte_of_char s)"

definition DomainName_Encode :: "name_encoder \<Rightarrow> string \<Rightarrow> Wirebuf \<Rightarrow> Wirebuf" where
  "DomainName_Encode dnEnc n b = append_Buf (dnEnc b n) b"

definition underflow :: "string \<Rightarrow> error + 'a" where
  "underflow who = Inl (Error (who @ '' - buffer underflow''))"

definition Octet_Decode :: "bytes \<Rightarrow> nat \<Rightarrow> error + (byte \<times> nat)" where
  "Octet_Decode b pos =
     (if pos + 1 > length b then underflow ''Octet.Decode()''
      else Inr (b ! pos, pos + 1))"

definition Octets2_Decode :: "bytes \<Rightarrow> nat \<Rightarrow> error + (16 word \<times> nat)" where
  "Octets2_Decode b pos =
     (if pos + 2 > length b then underflow ''Octets2.Decode()''
      else Inr (push_bit 8 (ucast (b ! pos)) OR ucast (b ! (pos + 1)), pos + 2))"

definition Octets4_Decode :: "bytes \<Rightarrow> nat \<Rightarrow> error + (32 word \<times> nat)" where
  "Octets4_Decode b pos =
     (if pos + 4 > length b then underflow ''Octets4.Decode()''
      else Inr (push_bit 24 (ucast (b ! pos)) OR push_bit 16 (ucast (b ! (pos + 1))) OR
                push_bit 8 (ucast (b ! (pos + 2))) OR ucast (b ! (pos + 3)), pos + 4))"

definition CharString_Decode :: "bytes \<Rightarrow> nat \<Rightarrow> error + (string \<times> nat)" where
  "CharString_Decode b pos =
     (if pos + 1 > length b then underflow ''CharString.Decode()''
      else let n = unat (b ! pos) in
        if pos + 1 + n > length b then underflow ''CharString.Decode()''
        else Inr (map char_of_byte (take n (drop (pos + 1) b)), pos + 1 + n))"

section \<open>Addresses\<close>

text \<open>
  \<open>net.IPv4\<close>, \<open>net.IP.To4\<close> and \<open>net.IP.To16\<close> of the Go library: an IPv4 address
  is four octets or the sixteen octets that start with ten zeros and two \<open>0xff\<close>;
  \<open>None\<close> is the nil slice.
\<close>

definition v4InV6Prefix :: bytes where
  "v4InV6Prefix = [0, 0, 0, 0, 0, 0, 0, 0, 0, 0, 0xff, 0xff]"

definition IPv4 :: "byte \<Rightarrow> byte \<Rightarrow> byte \<Rightarrow> byte \<Rightarrow> bytes" where
  "IPv4 a b c d = v4InV6Prefix @ [a, b, c, d]"

definition To4 :: "bytes \<Rightarrow> bytes option" where
  "To4 ip =
     (if length ip = 4 then Some ip
      else if length ip = 16 \<and> take 12 ip = v4InV6Prefix then Some (drop 12 ip)
      else None)"

definition To16 :: "bytes \<Rightarrow> bytes option" where
  "To16 ip =
     (if length ip = 4 then Some (IPv4 (ip ! 0) (ip ! 1) (ip ! 2) (ip ! 3))
      else if length ip = 16 then Some ip
      else None)"

definition slice_or_nil :: "bytes option \<Rightarrow> bytes" where
  "slice_or_nil x = (case x of None \<Rightarrow> [] | Some bs \<Rightarrow> bs)"

text \<open>
  \<open>ip4.Encode\<close> and \<open>ip6.Encode\<close> (lines 310-318 and 335-343). The check is under
  \<open>if asserts\<close>; \<open>ip4_Encode_checked\<close> is the body with the constant as an argument,
  \<open>ip4_Encode\<close> the body as it is compiled. (The panic's message also renders the
  address.)
\<close>

definition ip4_Encode_checked :: "bool \<Rightarrow> bytes \<Rightarrow> Wirebuf \<Rightarrow> error + Wirebuf" where
  "ip4_Encode_checked chk d b =
     (let b4 = To4 d in
      if chk \<and> b4 = None then Inl (Panic ''is not an IPv4 address'')
      else Inr (append_Buf (slice_or_nil b4) b))"

definition ip4_Encode :: "bytes \<Rightarrow> Wirebuf \<Rightarrow> error + Wirebuf" where
  "ip4_Encode = ip4_Encode_checked asserts"

definition ip4_Decode :: "bytes \<Rightarrow> nat \<Rightarrow> error + (bytes \<times> nat)" where
  "ip4_Decode b p =
     (if p + 4 > length b then underflow ''ip4.Decode()''
      else Inr (IPv4 (b ! p) (b ! (p + 1)) (b ! (p + 2)) (b ! (p + 3)), p + 4))"

definition ip6_Encode_checked :: "bool \<Rightarrow> bytes \<Rightarrow> Wirebuf \<Rightarrow> error + Wirebuf" where
  "ip6_Encode_checked chk d b =
     (let b16 = To16 d in
      if chk \<and> b16 = None then Inl (Panic ''is not an IPv6 address'')
      else Inr (append_Buf (slice_or_nil b16) b))"

definition ip6_Encode :: "bytes \<Rightarrow> Wirebuf \<Rightarrow> error + Wirebuf" where
  "ip6_Encode = ip6_Encode_checked asserts"

definition ip6_Decode :: "bytes \<Rightarrow> nat \<Rightarrow> error + (bytes \<times> nat)" where
  "ip6_Decode b p =
     (if p + 16 > length b then underflow ''ip6.Decode()''
      else Inr (take 16 (drop p b), p + 16))"

definition A_Encode :: "bytes \<Rightarrow> Wirebuf \<Rightarrow> error + Wirebuf" where
  "A_Encode address b = ip4_Encode address b"

definition A_Decode :: "bytes \<Rightarrow> nat \<Rightarrow> error + (bytes \<times> nat)" where
  "A_Decode b pos = ip4_Decode b pos"

definition AAAA_Encode :: "bytes \<Rightarrow> Wirebuf \<Rightarrow> error + Wirebuf" where
  "AAAA_Encode address b = ip6_Encode address b"

definition AAAA_Decode :: "bytes \<Rightarrow> nat \<Rightarrow> error + (bytes \<times> nat)" where
  "AAAA_Decode b pos = ip6_Decode b pos"

section \<open>The codecs of the other variants\<close>

definition DNSKEY_Encode :: "DNSKEY \<Rightarrow> Wirebuf \<Rightarrow> Wirebuf" where
  "DNSKEY_Encode d b =
     append_Buf (DNSKEY_Key d)
       (Octet_Encode (DNSKEY_Algorithm d)
         (Octet_Encode (DNSKEY_Protocol d)
           (Octets2_Encode (DNSKEY_Flags d) b)))"

definition DNSKEY_Decode :: "bytes \<Rightarrow> nat \<Rightarrow> error + (DNSKEY \<times> nat)" where
  "DNSKEY_Decode b pos =
     (case Octets2_Decode b pos of Inl e \<Rightarrow> Inl e | Inr (flags, p1) \<Rightarrow>
      case Octet_Decode b p1 of Inl e \<Rightarrow> Inl e | Inr (protocol, p2) \<Rightarrow>
      case Octet_Decode b p2 of Inl e \<Rightarrow> Inl e | Inr (algorithm, p3) \<Rightarrow>
      if length b \<le> p3 then Inl (Error ''(*DNSKEY).Decode: no key data'')
      else Inr (\<lparr>DNSKEY_Flags = flags, DNSKEY_Protocol = protocol,
                 DNSKEY_Algorithm = algorithm, DNSKEY_Key = drop p3 b\<rparr>, length b))"

definition DS_Encode :: "DS \<Rightarrow> Wirebuf \<Rightarrow> Wirebuf" where
  "DS_Encode d b =
     append_Buf (DS_Digest d)
       (Octet_Encode (DS_DigestType d)
         (Octet_Encode (DS_AlgorithmType d)
           (Octets2_Encode (DS_KeyTag d) b)))"

definition DS_Decode :: "bytes \<Rightarrow> nat \<Rightarrow> error + (DS \<times> nat)" where
  "DS_Decode b pos =
     (case Octets2_Decode b pos of Inl e \<Rightarrow> Inl e | Inr (keytag, p1) \<Rightarrow>
      case Octet_Decode b p1 of Inl e \<Rightarrow> Inl e | Inr (algorithm, p2) \<Rightarrow>
      case Octet_Decode b p2 of Inl e \<Rightarrow> Inl e | Inr (digesttype, p3) \<Rightarrow>
      if digesttype \<noteq> HashAlgorithmSHA1 then Inl (Error ''unsupported digest type'')
      else let n = 20; end = p3 + n in
        if end > length b then Inl (Error ''DS.Decode - buffer underflow'')
        else Inr (\<lparr>DS_KeyTag = keytag, DS_AlgorithmType = algorithm,
                   DS_DigestType = digesttype, DS_Digest = take n (drop p3 b)\<rparr>, end))"

definition CNAME_Encode :: "name_encoder \<Rightarrow> string \<Rightarrow> Wirebuf \<Rightarrow> Wirebuf" where
  "CNAME_Encode dnEnc n b = DomainName_Encode dnEnc n b"

definition CNAME_Decode :: "name_decoder \<Rightarrow> bytes \<Rightarrow> nat \<Rightarrow> error + (string \<times> nat)" where
  "CNAME_Decode dnDec b pos = dnDec b pos"

definition MX_Encode :: "name_encoder \<Rightarrow> MX \<Rightarrow> Wirebuf \<Rightarrow> Wirebuf" where
  "MX_Encode dnEnc d b =
     DomainName_Encode dnEnc (MX_Exchange d) (Octets2_Encode (MX_Preference d) b)"

definition MX_Decode :: "name_decoder \<Rightarrow> bytes \<Rightarrow> nat \<Rightarrow> error + (MX \<times> nat)" where
  "MX_Decode dnDec b pos =
     (case Octets2_Decode b pos of Inl e \<Rightarrow> Inl e | Inr (preference, p1) \<Rightarrow>
      case dnDec b p1 of Inl e \<Rightarrow> Inl e | Inr (exchange, p2) \<Rightarrow>
      Inr (\<lparr>MX_Preference = preference, MX_Exchange = exchange\<rparr>, p2))"

definition NODATA_Encode :: "16 word \<Rightarrow> Wirebuf \<Rightarrow> Wirebuf" where
  "NODATA_Encode t b = Octets2_Encode t b"

definition NODATA_Decode :: "bytes \<Rightarrow> nat \<Rightarrow> error + (16 word \<times> nat)" where
  "NODATA_Decode b pos = Octets2_Decode b pos"

definition NXDOMAIN_Encode :: "Wirebuf \<Rightarrow> Wirebuf" where
  "NXDOMAIN_Encode b = b"

definition NXDOMAIN_Decode :: "bytes \<Rightarrow> nat \<Rightarrow> error + nat" where
  "NXDOMAIN_Decode b pos = Inr pos"

definition NS_Encode :: "name_encoder \<Rightarrow> string \<Rightarrow> Wirebuf \<Rightarrow> Wirebuf" where
  "NS_Encode dnEnc n b = DomainName_Encode dnEnc n b"

definition NS_Decode :: "name_decoder \<Rightarrow> bytes \<Rightarrow> nat \<Rightarrow> error + (string \<times> nat)" where
  "NS_Decode dnDec b pos = dnDec b pos"

definition PTR_Encode :: "name_encoder \<Rightarrow> string \<Rightarrow> Wirebuf \<Rightarrow> Wirebuf" where
  "PTR_Encode dnEnc n b = DomainName_Encode dnEnc n b"

definition PTR_Decode :: "name_decoder \<Rightarrow> bytes \<Rightarrow> nat \<Rightarrow> error + (string \<times> nat)" where
  "PTR_Decode dnDec b pos = dnDec b pos"

text \<open>
  \<open>NSEC3PARAM.Encode\<close> (lines 533-542) writes \<open>len(d.Salt)\<close> converted to one octet;
  the check of the length is under \<open>if asserts\<close>.
\<close>

definition NSEC3PARAM_Encode_checked ::
    "bool \<Rightarrow> 'a NSEC3PARAM_scheme \<Rightarrow> Wirebuf \<Rightarrow> error + Wirebuf" where
  "NSEC3PARAM_Encode_checked chk d b =
     (let b3 = Octets2_Encode (NSEC3PARAM_Iterations d)
                 (Octet_Encode (NSEC3PARAM_Flags d)
                   (Octet_Encode (NSEC3PARAM_HashAlgorithm d) b)) in
      if chk \<and> length (NSEC3PARAM_Salt d) > 255 then Inl (Panic ''internal error'')
      else Inr (append_Buf (NSEC3PARAM_Salt d)
                  (Octet_Encode (of_nat (length (NSEC3PARAM_Salt d))) b3)))"

definition NSEC3PARAM_Encode :: "'a NSEC3PARAM_scheme \<Rightarrow> Wirebuf \<Rightarrow> error + Wirebuf" where
  "NSEC3PARAM_Encode = NSEC3PARAM_Encode_checked asserts"

definition NSEC3PARAM_Decode :: "bytes \<Rightarrow> nat \<Rightarrow> error + (NSEC3PARAM \<times> nat)" where
  "NSEC3PARAM_Decode b pos =
     (case Octet_Decode b pos of Inl e \<Rightarrow> Inl e | Inr (hash, p1) \<Rightarrow>
      case Octet_Decode b p1 of Inl e \<Rightarrow> Inl e | Inr (flags, p2) \<Rightarrow>
      case Octets2_Decode b p2 of Inl e \<Rightarrow> Inl e | Inr (iterations, p3) \<Rightarrow>
      case Octet_Decode b p3 of Inl e \<Rightarrow> Inl e | Inr (n, p) \<Rightarrow>
      let next = p + unat n in
      if next > length b then underflow ''NSEC3PARAM.Decode()''
      else Inr (\<lparr>NSEC3PARAM_HashAlgorithm = hash, NSEC3PARAM_Flags = flags,
                 NSEC3PARAM_Iterations = iterations,
                 NSEC3PARAM_Salt = take (unat n) (drop p b)\<rparr>, next))"

text \<open>
  \<open>NSEC3.Encode\<close> and \<open>NSEC3.Decode\<close> (lines 468-500): the length of the next hashed
  owner name goes out, and comes in, as an \<open>Octets2\<close>; the type bit maps are the rest
  of the buffer.
\<close>

definition NSEC3_Encode :: "NSEC3 \<Rightarrow> Wirebuf \<Rightarrow> error + Wirebuf" where
  "NSEC3_Encode d b =
     (case NSEC3PARAM_Encode d b of Inl e \<Rightarrow> Inl e | Inr b1 \<Rightarrow>
      Inr (append_Buf (NSEC3_TypeBitMaps d)
            (append_Buf (NSEC3_NextHashedOwnerName d)
              (Octets2_Encode (of_nat (length (NSEC3_NextHashedOwnerName d))) b1))))"

definition NSEC3_Decode :: "bytes \<Rightarrow> nat \<Rightarrow> error + (NSEC3 \<times> nat)" where
  "NSEC3_Decode b pos =
     (case NSEC3PARAM_Decode b pos of Inl e \<Rightarrow> Inl e | Inr (param, p1) \<Rightarrow>
      case Octets2_Decode b p1 of Inl e \<Rightarrow> Inl e | Inr (n, p2) \<Rightarrow>
      let in' = unat n in
      if p2 + in' > length b then Inl (Error ''rr.*NSEC3.Decode - buffer underflow'')
      else Inr (NSEC3PARAM.extend param
                  \<lparr>NSEC3_NextHashedOwnerName = take in' (drop p2 b),
                   NSEC3_TypeBitMaps = drop (p2 + in') b\<rparr>, length b))"

definition RDATA_Encode :: "bytes \<Rightarrow> Wirebuf \<Rightarrow> Wirebuf" where
  "RDATA_Encode d b = append_Buf d b"

text \<open>
  \<open>RDATA.Decode\<close> (lines 607-612) takes the rest of the buffer and cannot return an
  error; the slice expression \<open>b[*pos:]\<close> panics when the cursor is beyond the buffer.
\<close>

definition RDATA_Decode :: "bytes \<Rightarrow> nat \<Rightarrow> error + (bytes \<times> nat)" where
  "RDATA_Decode b pos =
     (if pos > length b then Inl (Panic ''slice bounds out of range'')
      else Inr (drop pos b, pos + (length b - pos)))"

text \<open>
  \<open>RRSIG.Encode\<close> (lines 939-951) switches the compression off around the signer's
  name.
\<close>

definition RRSIG_Encode :: "name_encoder \<Rightarrow> RRSIG \<Rightarrow> Wirebuf \<Rightarrow> Wirebuf" where
  "RRSIG_Encode dnEnc r b =
     append_Buf (RRSIG_Signature r)
       (EnableCompression
         (DomainName_Encode dnEnc (RRSIG_Name r)
           (DisableCompression
             (Octets2_Encode (RRSIG_KeyTag r)
               (Octets4_Encode (RRSIG_Inception r)
                 (Octets4_Encode (RRSIG_Expiration r)
                   (Octets4_Encode (RRSIG_TTL r)
                     (Octet_Encode (RRSIG_Labels r)
                       (Octet_Encode (RRSIG_AlgorithmType r)
                         (Octets2_Encode (RRSIG_Type r) b))))))))))"

definition RRSIG_Decode :: "name_decoder \<Rightarrow> bytes \<Rightarrow> nat \<Rightarrow> error + (RRSIG \<times> nat)" where
  "RRSIG_Decode dnDec b pos =
     (case Octets2_Decode b pos of Inl e \<Rightarrow> Inl e | Inr (t, p1) \<Rightarrow>
      case Octet_Decode b p1 of Inl e \<Rightarrow> Inl e | Inr (algorithm, p2) \<Rightarrow>
      case Octet_Decode b p2 of Inl e \<Rightarrow> Inl e | Inr (labels, p3) \<Rightarrow>
      case Octets4_Decode b p3 of Inl e \<Rightarrow> Inl e | Inr (ttl, p4) \<Rightarrow>
      case Octets4_Decode b p4 of Inl e \<Rightarrow> Inl e | Inr (expiration, p5) \<Rightarrow>
      case Octets4_Decode b p5 of Inl e \<Rightarrow> Inl e | Inr (inception, p6) \<Rightarrow>
      case Octets2_Decode b p6 of Inl e \<Rightarrow> Inl e | Inr (keytag, p7) \<Rightarrow>
      case dnDec b p7 of Inl e \<Rightarrow> Inl e | Inr (signer, p8) \<Rightarrow>
      if length b \<le> p8 then Inl (Error ''(*RRSIG).Decode: no signature data'')
      else Inr (\<lparr>RRSIG_Type = t, RRSIG_AlgorithmType = algorithm, RRSIG_Labels = labels,
                 RRSIG_TTL = ttl, RRSIG_Expiration = expiration,
                 RRSIG_Inception = inception, RRSIG_KeyTag = keytag, RRSIG_Name = signer,
                 RRSIG_Signature = drop p8 b\<rparr>, length b))"

definition SOA_Encode :: "name_encoder \<Rightarrow> SOA \<Rightarrow> Wirebuf \<Rightarrow> Wirebuf" where
  "SOA_Encode dnEnc d b =
     Octets4_Encode (SOA_Minimum d)
       (Octets4_Encode (SOA_Expire d)
         (Octets4_Encode (SOA_Retry d)
           (Octets4_Encode (SOA_Refresh d)
             (Octets4_Encode (SOA_Serial d)
               (DomainName_Encode dnEnc (SOA_RName d)
                 (DomainName_Encode dnEnc (SOA_MName d) b))))))"

text \<open>
  \<open>SOA.Decode\<close> (lines 1055-1075). The decodes of \<open>Serial\<close>, \<open>Refresh\<close>, \<open>Retry\<close>
  and \<open>Expire\<close> are written \<open>if (*dns.Octets4)(&d.Serial).Decode(b, pos); err != nil\<close>:
  the call is the statement of the \<open>if\<close> and its result is dropped, and the condition
  reads \<open>err\<close>, which is nil after the two names. So these four calls never end the
  function; where one fails, the field keeps the value the receiver \<open>d\<close> had and the
  cursor stays (a failing decode of the primitives writes neither). \<open>Octets4_step\<close> is
  one such call.
\<close>

definition Octets4_step :: "bytes \<Rightarrow> nat \<Rightarrow> 32 word \<Rightarrow> 32 word \<times> nat" where
  "Octets4_step b pos old =
     (case Octets4_Decode b pos of Inl e \<Rightarrow> (old, pos) | Inr (v, p) \<Rightarrow> (v, p))"

definition SOA_Decode :: "name_decoder \<Rightarrow> SOA \<Rightarrow> bytes \<Rightarrow> nat \<Rightarrow> error + (SOA \<times> nat)" where
  "SOA_Decode dnDec d b pos =
     (case dnDec b pos of Inl e \<Rightarrow> Inl e | Inr (mname, p1) \<Rightarrow>
      case dnDec b p1 of Inl e \<Rightarrow> Inl e | Inr (rname, p2) \<Rightarrow>
      let (serial, p3) = Octets4_step b p2 (SOA_Serial d);
          (refresh, p4) = Octets4_step b p3 (SOA_Refresh d);
          (retry, p5) = Octets4_step b p4 (SOA_Retry d);
          (expire, p6) = Octets4_step b p5 (SOA_Expire d)
      in case Octets4_Decode b p6 of Inl e \<Rightarrow> Inl e | Inr (minimum, p7) \<Rightarrow>
         Inr (\<lparr>SOA_MName = mname, SOA_RName = rname, SOA_Serial = serial,
               SOA_Refresh = refresh, SOA_Retry = retry, SOA_Expire = expire,
               SOA_Minimum = minimum\<rparr>, p7))"

text \<open>
  The results of the calls that \<open>SOA.Decode\<close> makes to the \<open>Decode\<close> of its fields,
  in the order of the calls: \<open>Some e\<close> where the call returned the error \<open>e\<close>.
\<close>

definition error_of :: "error + 'a \<Rightarrow> error option" where
  "error_of r = (case r of Inl e \<Rightarrow> Some e | Inr v \<Rightarrow> None)"

definition SOA_Decode_calls :: "name_decoder \<Rightarrow> bytes \<Rightarrow> nat \<Rightarrow> error option list" where
  "SOA_Decode_calls dnDec b pos =
     (case dnDec b pos of Inl e \<Rightarrow> [Some e] | Inr (mname, p1) \<Rightarrow>
      case dnDec b p1 of Inl e \<Rightarrow> [None, Some e] | Inr (rname, p2) \<Rightarrow>
      let p3 = snd (Octets4_step b p2 0);
          p4 = snd (Octets4_step b p3 0);
          p5 = snd (Octets4_step b p4 0);
          p6 = snd (Octets4_step b p5 0)
      in [None, None, error_of (Octets4_Decode b p2), error_of (Octets4_Decode b p3),
          error_of (Octets4_Decode b p4), error_of (Octets4_Decode b p5),
          error_of (Octets4_Decode b p6)])"

definition TXT_Encode :: "string \<Rightarrow> Wirebuf \<Rightarrow> Wirebuf" where
  "TXT_Encode s b = CharString_Encode s b"

text \<open>
  The loop of \<open>TXT.Decode\<close> (lines 1094-1101): every round decodes one character string,
  which moves the cursor by one octet at least.
\<close>

function TXT_loop :: "bytes \<Rightarrow> nat \<Rightarrow> string \<Rightarrow> error + (string \<times> nat)" where
  "TXT_loop b pos s =
     (if pos < length b then
        (case CharString_Decode b pos of
           Inl e \<Rightarrow> Inl e
         | Inr (part, p) \<Rightarrow> TXT_loop b p (s @ part))
      else Inr (s, pos))"
  by pat_completeness auto
termination
  by (relation "measure (\<lambda>(b, pos, s). length b - pos)")
     (auto simp: CharString_Decode_def underflow_def Let_def split: if_splits)

definition TXT_Decode :: "bytes \<Rightarrow> nat \<Rightarrow> error + (string \<times> nat)" where
  "TXT_Decode b pos = TXT_loop b pos []"

section \<open>Record equality and the record-set algebra\<close>

text \<open>
  \<open>strings.ToLower\<close> on the letters of ASCII, by table. (The library also maps the
  letters that UTF-8 sequences encode; bytes outside ASCII are left as they are here, so
  two strings with equal images here have equal images there.)
\<close>

definition upper_letters :: string where
  "upper_letters = ''ABCDEFGHIJKLMNOPQRSTUVWXYZ''"

definition lower_letters :: string where
  "lower_letters = ''abcdefghijklmnopqrstuvwxyz''"

definition lower_char :: "char \<Rightarrow> char" where
  "lower_char c = (case map_of (zip upper_letters lower_letters) c of
                     Some d \<Rightarrow> d | None \<Rightarrow> c)"

definition ToLower :: "string \<Rightarrow> string" where
  "ToLower s = map lower_char s"

text \<open>
  \<open>(a *RR) Equal(b *RR)\<close> (rr.go, lines 723-804). \<open>net.IP.String\<close> belongs to the Go
  library and is the parameter \<open>ipString\<close>. A type assertion \<open>b.RData.(*T)\<close> panics
  when \<open>b\<close> holds another variant; the \<open>default\<close> branch calls \<open>log.Fatalf\<close>.
\<close>

definition assertion_panic :: "error + bool" where
  "assertion_panic = Inl (Panic ''interface conversion'')"

definition Equal :: "(bytes \<Rightarrow> string) \<Rightarrow> RR \<Rightarrow> RR \<Rightarrow> error + bool" where
  "Equal ipString a b =
    (if RR_Type a \<noteq> RR_Type b \<or> RR_Class a \<noteq> RR_Class b
        \<or> ToLower (RR_Name a) \<noteq> ToLower (RR_Name b)
     then Inr False
     else case RR_RData a of
       RD_nil \<Rightarrow> Inl (Fatal ''rr.RR.Equal() - internal error'')
     | RD_RDATA x \<Rightarrow>
         (case RR_RData b of RD_RDATA y \<Rightarrow> Inr (x = y) | _ \<Rightarrow> assertion_panic)
     | RD_A x \<Rightarrow>
         (case RR_RData b of RD_A y \<Rightarrow> Inr (ipString x = ipString y)
          | _ \<Rightarrow> assertion_panic)
     | RD_AAAA x \<Rightarrow>
         (case RR_RData b of RD_AAAA y \<Rightarrow> Inr (ipString x = ipString y)
          | _ \<Rightarrow> assertion_panic)
     | RD_CNAME x \<Rightarrow>
         (case RR_RData b of RD_CNAME y \<Rightarrow> Inr (ToLower x = ToLower y)
          | _ \<Rightarrow> assertion_panic)
     | RD_DNSKEY x \<Rightarrow>
         (case RR_RData b of
            RD_DNSKEY y \<Rightarrow>
              Inr (DNSKEY_Flags x = DNSKEY_Flags y \<and>
                   DNSKEY_Protocol x = DNSKEY_Protocol y \<and>
                   DNSKEY_Algorithm x = DNSKEY_Algorithm y \<and>
                   DNSKEY_Key x = DNSKEY_Key y)
          | _ \<Rightarrow> assertion_panic)
     | RD_DS x \<Rightarrow>
         (case RR_RData b of
            RD_DS y \<Rightarrow>
              Inr (DS_KeyTag x = DS_KeyTag y \<and>
                   DS_AlgorithmType x = DS_AlgorithmType y \<and>
                   DS_DigestType x = DS_DigestType y \<and>
                   DS_Digest x = DS_Digest y)
          | _ \<Rightarrow> assertion_panic)
     | RD_MX x \<Rightarrow>
         (case RR_RData b of
            RD_MX y \<Rightarrow>
              Inr (MX_Preference x = MX_Preference y \<and>
                   ToLower (MX_Exchange x) = ToLower (MX_Exchange y))
          | _ \<Rightarrow> assertion_panic)
     | RD_NODATA x \<Rightarrow>
         (case RR_RData b of RD_NODATA y \<Rightarrow> Inr (x = y) | _ \<Rightarrow> assertion_panic)
     | RD_NXDOMAIN \<Rightarrow> Inr True
     | RD_NS x \<Rightarrow>
         (case RR_RData b of RD_NS y \<Rightarrow> Inr (ToLower x = ToLower y)
          | _ \<Rightarrow> assertion_panic)
     | RD_NSEC3 x \<Rightarrow>
         (case RR_RData b of
            RD_NSEC3 y \<Rightarrow>
              Inr (NSEC3PARAM_HashAlgorithm x = NSEC3PARAM_HashAlgorithm y \<and>
                   NSEC3PARAM_Flags x = NSEC3PARAM_Flags y \<and>
                   NSEC3PARAM_Iterations x = NSEC3PARAM_Iterations y \<and>
                   NSEC3PARAM_Salt x = NSEC3PARAM_Salt y \<and>
                   NSEC3_NextHashedOwnerName x = NSEC3_NextHashedOwnerName y \<and>
                   NSEC3_TypeBitMaps x = NSEC3_TypeBitMaps y)
          | _ \<Rightarrow> assertion_panic)
     | RD_NSEC3PARAM x \<Rightarrow>
         (case RR_RData b of
            RD_NSEC3PARAM y \<Rightarrow>
              Inr (NSEC3PARAM_HashAlgorithm x = NSEC3PARAM_HashAlgorithm y \<and>
                   NSEC3PARAM_Flags x = NSEC3PARAM_Flags y \<and>
                   NSEC3PARAM_Iterations x = NSEC3PARAM_Iterations y \<and>
                   NSEC3PARAM_Salt x = NSEC3PARAM_Salt y)
          | _ \<Rightarrow> assertion_panic)
     | RD_PTR x \<Rightarrow>
         (case RR_RData b of RD_PTR y \<Rightarrow> Inr (ToLower x = ToLower y)
          | _ \<Rightarrow> assertion_panic)
     | RD_RRSIG x \<Rightarrow>
         (case RR_RData b of
            RD_RRSIG y \<Rightarrow>
              Inr (RRSIG_Type x = RRSIG_Type y \<and>
                   RRSIG_AlgorithmType x = RRSIG_AlgorithmType y \<and>
                   RRSIG_Labels x = RRSIG_Labels y \<and>
                   RRSIG_TTL x = RRSIG_TTL y \<and>
                   RRSIG_Expiration x = RRSIG_Expiration y \<and>
                   RRSIG_KeyTag x = RRSIG_KeyTag y \<and>
                   ToLower (RRSIG_Name x) = ToLower (RRSIG_Name y) \<and>
                   RRSIG_Signature x = RRSIG_Signature y)
          | _ \<Rightarrow> assertion_panic)
     | RD_SOA x \<Rightarrow>
         (case RR_RData b of
            RD_SOA y \<Rightarrow>
              Inr (ToLower (SOA_MName x) = ToLower (SOA_MName y) \<and>
                   ToLower (SOA_RName x) = ToLower (SOA_RName y) \<and>
                   SOA_Serial x = SOA_Serial y \<and>
                   SOA_Refresh x = SOA_Refresh y \<and>
                   SOA_Retry x = SOA_Retry y \<and>
                   SOA_Expire x = SOA_Expire y \<and>
                   SOA_Minimum x = SOA_Minimum y)
          | _ \<Rightarrow> assertion_panic)
     | RD_TXT x \<Rightarrow>
         (case RR_RData b of RD_TXT y \<Rightarrow> Inr (x = y) | _ \<Rightarrow> assertion_panic))"

text \<open>
  \<open>(r *RRs) SetAdd(rrs RRs)\<close> (lines 832-846): the inner loop is \<open>isnew\<close>, which
  stops at the first old record that the new one equals; the outer loop is \<open>SetAdd\<close>.
  \<open>Unique\<close> (lines 849-853) adds the set to an empty one.
\<close>

fun isnew :: "(bytes \<Rightarrow> string) \<Rightarrow> RR \<Rightarrow> RR list \<Rightarrow> error + bool" where
  "isnew ipString newrec [] = Inr True"
| "isnew ipString newrec (oldrec # olds) =
     (case Equal ipString newrec oldrec of
        Inl e \<Rightarrow> Inl e
      | Inr True \<Rightarrow> Inr False
      | Inr False \<Rightarrow> isnew ipString newrec olds)"

fun SetAdd :: "(bytes \<Rightarrow> string) \<Rightarrow> RR list \<Rightarrow> RR list \<Rightarrow> error + RR list" where
  "SetAdd ipString r [] = Inr r"
| "SetAdd ipString r (newrec # rrs) =
     (case isnew ipString newrec r of
        Inl e \<Rightarrow> Inl e
      | Inr True \<Rightarrow> SetAdd ipString (r @ [newrec]) rrs
      | Inr False \<Rightarrow> SetAdd ipString r rrs)"

definition Unique :: "(bytes \<Rightarrow> string) \<Rightarrow> RR list \<Rightarrow> error + RR list" where
  "Unique ipString r = SetAdd ipString [] r"

subsection \<open>The variant that \<open>RR.Decode\<close> builds for a type code\<close>

text \<open>
  The \<open>switch rr.Type\<close> of \<open>RR.Decode\<close> (lines 683-716): the freshly allocated,
  zero-valued variant that the RDATA is then decoded into.
\<close>

definition zero_DNSKEY :: DNSKEY where
  "zero_DNSKEY = \<lparr>DNSKEY_Flags = 0, DNSKEY_Protocol = 0, DNSKEY_Algorithm = 0, DNSKEY_Key = []\<rparr>"

definition zero_DS :: DS where
  "zero_DS = \<lparr>DS_KeyTag = 0, DS_AlgorithmType = 0, DS_DigestType = 0, DS_Digest = []\<rparr>"

definition zero_MX :: MX where
  "zero_MX = \<lparr>MX_Preference = 0, MX_Exchange = []\<rparr>"

definition zero_NSEC3PARAM :: NSEC3PARAM where
  "zero_NSEC3PARAM = \<lparr>NSEC3PARAM_HashAlgorithm = 0, NSEC3PARAM_Flags = 0,
     NSEC3PARAM_Iterations = 0, NSEC3PARAM_Salt = []\<rparr>"

definition zero_NSEC3 :: NSEC3 where
  "zero_NSEC3 = \<lparr>NSEC3PARAM_HashAlgorithm = 0, NSEC3PARAM_Flags = 0,
     NSEC3PARAM_Iterations = 0, NSEC3PARAM_Salt = [],
     NSEC3_NextHashedOwnerName = [], NSEC3_TypeBitMaps = []\<rparr>"

definition zero_RRSIG :: RRSIG where
  "zero_RRSIG = \<lparr>RRSIG_Type = 0, RRSIG_AlgorithmType = 0, RRSIG_Labels = 0, RRSIG_TTL = 0,
     RRSIG_Expiration = 0, RRSIG_Inception = 0, RRSIG_KeyTag = 0, RRSIG_Name = [],
     RRSIG_Signature = []\<rparr>"

definition zero_SOA :: SOA where
  "zero_SOA = \<lparr>SOA_MName = [], SOA_RName = [], SOA_Serial = 0, SOA_Refresh = 0,
     SOA_Retry = 0, SOA_Expire = 0, SOA_Minimum = 0\<rparr>"

definition new_RData :: "16 word \<Rightarrow> rdata" where
  "new_RData t =
    (if t = TYPE_A then RD_A []
     else if t = TYPE_AAAA then RD_AAAA []
     else if t = TYPE_CNAME then RD_CNAME []
     else if t = TYPE_DNSKEY then RD_DNSKEY zero_DNSKEY
     else if t = TYPE_DS then RD_DS zero_DS
     else if t = TYPE_MX then RD_MX zero_MX
     else if t = TYPE_NODATA then RD_NODATA 0
     else if t = TYPE_NS then RD_NS []
     else if t = TYPE_NXDOMAIN then RD_NXDOMAIN
     else if t = TYPE_NSEC3 then RD_NSEC3 zero_NSEC3
     else if t = TYPE_NSEC3PARAM then RD_NSEC3PARAM zero_NSEC3PARAM
     else if t = TYPE_PTR then RD_PTR []
     else if t = TYPE_RRSIG then RD_RRSIG zero_RRSIG
     else if t = TYPE_SOA then RD_SOA zero_SOA
     else if t = TYPE_TXT then RD_TXT []
     else RD_RDATA [])"

text \<open>Which of the variants a value is: the dynamic type that a type switch reads.\<close>

definition variant_tag :: "rdata \<Rightarrow> nat" where
  "variant_tag d =
    (case d of
       RD_A _ \<Rightarrow> 1 | RD_AAAA _ \<Rightarrow> 2 | RD_CNAME _ \<Rightarrow> 3 | RD_DNSKEY _ \<Rightarrow> 4
     | RD_DS _ \<Rightarrow> 5 | RD_MX _ \<Rightarrow> 6 | RD_NODATA _ \<Rightarrow> 7 | RD_NXDOMAIN \<Rightarrow> 8
     | RD_NS _ \<Rightarrow> 9 | RD_NSEC3 _ \<Rightarrow> 10 | RD_NSEC3PARAM _ \<Rightarrow> 11 | RD_PTR _ \<Rightarrow> 12
     | RD_RRSIG _ \<Rightarrow> 13 | RD_SOA _ \<Rightarrow> 14 | RD_TXT _ \<Rightarrow> 15 | RD_RDATA _ \<Rightarrow> 16
     | RD_nil \<Rightarrow> 0)"

text \<open>
  The invariant of a resource record in the data model: the variant that \<open>RData\<close>
  holds is the one its \<open>Type\<close> selects.
\<close>

definition rr_invariant :: "RR \<Rightarrow> bool" where
  "rr_invariant r = (variant_tag (RR_RData r) = variant_tag (new_RData (RR_Type r)))"

section \<open>The dispatch over the variants and the record envelope\<close>

text \<open>
  \<open>rr.RData.Encode(b)\<close> and \<open>rr.RData.Decode(b, pos)\<close>: the method of the variant
  that the interface value holds. \<open>RData_Decode\<close> takes the receiver, whose variant
  selects the method and whose fields \<open>SOA.Decode\<close> can leave in the result. A call
  through the nil interface value panics.
\<close>

definition nil_panic :: "error + 'a" where
  "nil_panic = Inl (Panic ''invalid memory address or nil pointer dereference'')"

definition RData_Encode :: "name_encoder \<Rightarrow> rdata \<Rightarrow> Wirebuf \<Rightarrow> error + Wirebuf" where
  "RData_Encode dnEnc d b =
    (case d of
       RD_A x \<Rightarrow> A_Encode x b
     | RD_AAAA x \<Rightarrow> AAAA_Encode x b
     | RD_CNAME x \<Rightarrow> Inr (CNAME_Encode dnEnc x b)
     | RD_DNSKEY x \<Rightarrow> Inr (DNSKEY_Encode x b)
     | RD_DS x \<Rightarrow> Inr (DS_Encode x b)
     | RD_MX x \<Rightarrow> Inr (MX_Encode dnEnc x b)
     | RD_NODATA x \<Rightarrow> Inr (NODATA_Encode x b)
     | RD_NXDOMAIN \<Rightarrow> Inr (NXDOMAIN_Encode b)
     | RD_NS x \<Rightarrow> Inr (NS_Encode dnEnc x b)
     | RD_NSEC3 x \<Rightarrow> NSEC3_Encode x b
     | RD_NSEC3PARAM x \<Rightarrow> NSEC3PARAM_Encode x b
     | RD_PTR x \<Rightarrow> Inr (PTR_Encode dnEnc x b)
     | RD_RRSIG x \<Rightarrow> Inr (RRSIG_Encode dnEnc x b)
     | RD_SOA x \<Rightarrow> Inr (SOA_Encode dnEnc x b)
     | RD_TXT x \<Rightarrow> Inr (TXT_Encode x b)
     | RD_RDATA x \<Rightarrow> Inr (RDATA_Encode x b)
     | RD_nil \<Rightarrow> nil_panic)"

definition decoded :: "('a \<Rightarrow> rdata) \<Rightarrow> error + ('a \<times> nat) \<Rightarrow> error + (rdata \<times> nat)" where
  "decoded variant r = (case r of Inl e \<Rightarrow> Inl e | Inr (v, p) \<Rightarrow> Inr (variant v, p))"

definition RData_Decode :: "name_decoder \<Rightarrow> rdata \<Rightarrow> bytes \<Rightarrow> nat \<Rightarrow> error + (rdata \<times> nat)" where
  "RData_Decode dnDec d b pos =
    (case d of
       RD_A x \<Rightarrow> decoded RD_A (A_Decode b pos)
     | RD_AAAA x \<Rightarrow> decoded RD_AAAA (AAAA_Decode b pos)
     | RD_CNAME x \<Rightarrow> decoded RD_CNAME (CNAME_Decode dnDec b pos)
     | RD_DNSKEY x \<Rightarrow> decoded RD_DNSKEY (DNSKEY_Decode b pos)
     | RD_DS x \<Rightarrow> decoded RD_DS (DS_Decode b pos)
     | RD_MX x \<Rightarrow> decoded RD_MX (MX_Decode dnDec b pos)
     | RD_NODATA x \<Rightarrow> decoded RD_NODATA (NODATA_Decode b pos)
     | RD_NXDOMAIN \<Rightarrow>
         (case NXDOMAIN_Decode b pos of Inl e \<Rightarrow> Inl e | Inr p \<Rightarrow> Inr (RD_NXDOMAIN, p))
     | RD_NS x \<Rightarrow> decoded RD_NS (NS_Decode dnDec b pos)
     | RD_NSEC3 x \<Rightarrow> decoded RD_NSEC3 (NSEC3_Decode b pos)
     | RD_NSEC3PARAM x \<Rightarrow> decoded RD_NSEC3PARAM (NSEC3PARAM_Decode b pos)
     | RD_PTR x \<Rightarrow> decoded RD_PTR (PTR_Decode dnDec b pos)
     | RD_RRSIG x \<Rightarrow> decoded RD_RRSIG (RRSIG_Decode dnDec b pos)
     | RD_SOA x \<Rightarrow> decoded RD_SOA (SOA_Decode dnDec x b pos)
     | RD_TXT x \<Rightarrow> decoded RD_TXT (TXT_Decode b pos)
     | RD_RDATA x \<Rightarrow> decoded RD_RDATA (RDATA_Decode b pos)
     | RD_nil \<Rightarrow> nil_panic)"

text \<open>
  \<open>RR.Encode\<close> (lines 644-655): two octets are reserved for the length of the RDATA
  and written once the RDATA is encoded, \<open>byte(n >> 8)\<close> and \<open>byte(n)\<close>.
\<close>

definition RR_Encode :: "name_encoder \<Rightarrow> RR \<Rightarrow> Wirebuf \<Rightarrow> error + Wirebuf" where
  "RR_Encode dnEnc rr b =
    (let b4 = Octets4_Encode (RR_TTL rr)
                (Octets2_Encode (RR_Class rr)
                  (Octets2_Encode (RR_Type rr)
                    (DomainName_Encode dnEnc (RR_Name rr) b)));
         p0 = length (Buf b4)
     in case RData_Encode dnEnc (RR_RData rr) (append_Buf [0, 0] b4) of
          Inl e \<Rightarrow> Inl e
        | Inr b6 \<Rightarrow>
            let n = length (Buf b6) - (p0 + 2) in
            Inr (b6\<lparr>Buf := (Buf b6)[p0 := of_nat (n div 256), p0 + 1 := of_nat n]\<rparr>))"

text \<open>
  \<open>RR.Decode\<close> (lines 658-720). \<open>b\<close> is the slice as far as its length, \<open>spare\<close>
  the octets of its array between its length and its capacity. The decodes of the header
  read \<open>b\<close>. The RDATA is decoded from \<open>b[:*pos+int(rdlength)]\<close>: a slice expression
  may end anywhere up to the capacity, shows the spare octets up to that end, and panics
  when the end is beyond the capacity.
\<close>

definition RR_Decode ::
    "name_decoder \<Rightarrow> bytes \<Rightarrow> bytes \<Rightarrow> nat \<Rightarrow> error + (RR \<times> nat)" where
  "RR_Decode dnDec b spare pos =
    (case dnDec b pos of Inl e \<Rightarrow> Inl e | Inr (name, p1) \<Rightarrow>
     case Octets2_Decode b p1 of Inl e \<Rightarrow> Inl e | Inr (t, p2) \<Rightarrow>
     case Octets2_Decode b p2 of Inl e \<Rightarrow> Inl e | Inr (class, p3) \<Rightarrow>
     case Octets4_Decode b p3 of Inl e \<Rightarrow> Inl e | Inr (ttl, p4) \<Rightarrow>
     case Octets2_Decode b p4 of Inl e \<Rightarrow> Inl e | Inr (rdlength, p5) \<Rightarrow>
     if p5 + unat rdlength > length b + length spare
     then Inl (Panic ''slice bounds out of range'')
     else case RData_Decode dnDec (new_RData t) (take (p5 + unat rdlength) (b @ spare)) p5 of
            Inl e \<Rightarrow> Inl e
          | Inr (rdata, p6) \<Rightarrow>
              Inr (\<lparr>RR_Name = name, RR_Type = t, RR_Class = class, RR_TTL = ttl,
                    RR_RData = rdata\<rparr>, p6))"

subsection \<open>The mnemonics of the types\<close>

text \<open>The map \<open>typeStr\<close> (lines 1144-1170) and \<open>Type.String\<close> (lines 1172-1178).\<close>

definition typeStr :: "(16 word \<times> string) list" where
  "typeStr =
    [(TYPE_A, ''A''), (TYPE_AAAA, ''AAAA''), (TYPE_CNAME, ''CNAME''), (TYPE_DNSKEY, ''DNSKEY''),
     (TYPE_DS, ''DS''), (TYPE_HINFO, ''HINFO''), (TYPE_MB, ''MB''), (TYPE_MD, ''MD''),
     (TYPE_MF, ''MF''), (TYPE_MG, ''MG''), (TYPE_MINFO, ''MINFO''), (TYPE_MR, ''MR''),
     (TYPE_MX, ''MX''), (TYPE_NS, ''NS''), (TYPE_NSEC, ''NSEC''), (TYPE_NSEC3, ''NSEC3''),
     (TYPE_NSEC3PARAM, ''NSEC3PARAM''), (TYPE_NULL, ''NULL''), (TYPE_PTR, ''PTR''),
     (TYPE_RRSIG, ''RRSIG''), (TYPE_SOA, ''SOA''), (TYPE_TXT, ''TXT''), (TYPE_WKS, ''WKS''),
     (TYPE_NODATA, ''NODATA''), (TYPE_NXDOMAIN, ''NXDOMAIN'')]"

text \<open>The \<open>%d\<close> of \<open>fmt\<close> for a number that is not negative.\<close>

fun decimal :: "nat \<Rightarrow> string" where
  "decimal n =
     (if n < 10 then [''0123456789'' ! n]
      else decimal (n div 10) @ [''0123456789'' ! (n mod 10)])"

definition Type_String :: "16 word \<Rightarrow> error + string" where
  "Type_String n =
     (case map_of typeStr n of
        None \<Rightarrow> Inl (Panic (''unexpected Type '' @ decimal (unat n)))
      | Some s \<Rightarrow> Inr s)"

text \<open>
  The type codes for which the \<open>switch\<close> of \<open>RR.Decode\<close> has a case, and those that
  have a mnemonic and no case.
\<close>

definition decoded_types :: "16 word list" where
  "decoded_types =
    [TYPE_A, TYPE_AAAA, TYPE_CNAME, TYPE_DNSKEY, TYPE_DS, TYPE_MX, TYPE_NODATA, TYPE_NS,
     TYPE_NXDOMAIN, TYPE_NSEC3, TYPE_NSEC3PARAM, TYPE_PTR, TYPE_RRSIG, TYPE_SOA, TYPE_TXT]"

definition mnemonic_only_types :: "16 word list" where
  "mnemonic_only_types =
    [TYPE_MD, TYPE_MF, TYPE_MB, TYPE_MG, TYPE_MR, TYPE_NULL, TYPE_WKS, TYPE_HINFO,
     TYPE_MINFO, TYPE_NSEC]"

subsection \<open>Records that differ in the case of letters only\<close>

definition case_pair :: "char \<Rightarrow> char \<Rightarrow> bool" where
  "case_pair c d =
    (c = d \<or> (c, d) \<in> set (zip upper_letters lower_letters)
           \<or> (d, c) \<in> set (zip upper_letters lower_letters))"

definition differ_in_case_only :: "string \<Rightarrow> string \<Rightarrow> bool" where
  "differ_in_case_only s t = list_all2 case_pair s t"

definition rdata_case_variant :: "rdata \<Rightarrow> rdata \<Rightarrow> bool" where
  "rdata_case_variant x y =
    (case x of
       RD_CNAME m \<Rightarrow> (case y of RD_CNAME n \<Rightarrow> differ_in_case_only m n | _ \<Rightarrow> False)
     | RD_NS m \<Rightarrow> (case y of RD_NS n \<Rightarrow> differ_in_case_only m n | _ \<Rightarrow> False)
     | RD_PTR m \<Rightarrow> (case y of RD_PTR n \<Rightarrow> differ_in_case_only m n | _ \<Rightarrow> False)
     | RD_MX m \<Rightarrow>
         (case y of
            RD_MX n \<Rightarrow> n = m\<lparr>MX_Exchange := MX_Exchange n\<rparr> \<and>
                        differ_in_case_only (MX_Exchange m) (MX_Exchange n)
          | _ \<Rightarrow> False)
     | RD_RRSIG m \<Rightarrow>
         (case y of
            RD_RRSIG n \<Rightarrow> n = m\<lparr>RRSIG_Name := RRSIG_Name n\<rparr> \<and>
                           differ_in_case_only (RRSIG_Name m) (RRSIG_Name n)
          | _ \<Rightarrow> False)
     | RD_SOA m \<Rightarrow>
         (case y of
            RD_SOA n \<Rightarrow> n = m\<lparr>SOA_MName := SOA_MName n, SOA_RName := SOA_RName n\<rparr> \<and>
                         differ_in_case_only (SOA_MName m) (SOA_MName n) \<and>
                         differ_in_case_only (SOA_RName m) (SOA_RName n)
          | _ \<Rightarrow> False)
     | _ \<Rightarrow> y = x)"

definition differ_only_in_case :: "RR \<Rightarrow> RR \<Rightarrow> bool" where
  "differ_only_in_case a b =
    (RR_Type b = RR_Type a \<and> RR_Class b = RR_Class a \<and> RR_TTL b = RR_TTL a \<and>
     differ_in_case_only (RR_Name a) (RR_Name b) \<and>
     rdata_case_variant (RR_RData a) (RR_RData b))"

subsection \<open>Sets without equal records\<close>

text \<open>
  A record list in which no record equals an earlier one, as the inner loop of
  \<open>SetAdd\<close> tests it: \<open>pairwise_new_rev\<close> reads the list last record first.
\<close>

fun pairwise_new_rev :: "(bytes \<Rightarrow> string) \<Rightarrow> RR list \<Rightarrow> bool" where
  "pairwise_new_rev ipString [] = True"
| "pairwise_new_rev ipString (x # before) =
     (isnew ipString x (rev before) = Inr True \<and> pairwise_new_rev ipString before)"

definition pairwise_new :: "(bytes \<Rightarrow> string) \<Rightarrow> RR list \<Rightarrow> bool" where
  "pairwise_new ipString r = pairwise_new_rev ipString (rev r)"

text \<open>A rendering of addresses to run the definitions with: one character per octet.\<close>

definition raw_ipString :: "bytes \<Rightarrow> string" where
  "raw_ipString a = map char_of_byte a"

subsection \<open>What a round trip needs\<close>

text \<open>
  The encoder and the decoder of domain names are parameters. \<open>dn_codec dnEnc dnDec N\<close>
  says that they fit for the names in \<open>N\<close>: what \<open>dnEnc\<close> appends to a buffer for a
  name of \<open>N\<close>, \<open>dnDec\<close> reads back from where it starts, whatever follows it, and
  leaves the cursor behind it.
\<close>

definition dn_codec :: "name_encoder \<Rightarrow> name_decoder \<Rightarrow> string set \<Rightarrow> bool" where
  "dn_codec dnEnc dnDec N =
    (\<forall>w n rest. n \<in> N \<longrightarrow>
       dnDec (Buf w @ dnEnc w n @ rest) (length (Buf w)) =
         Inr (n, length (Buf w) + length (dnEnc w n)))"

text \<open>
  A pair that fits, to run the definitions with: a name goes out as one character string.
\<close>

definition sample_dnEnc :: name_encoder where
  "sample_dnEnc w n = of_nat (length n) # map byte_of_char n"

definition sample_dnDec :: name_decoder where
  "sample_dnDec = CharString_Decode"

definition sample_names :: "string set" where
  "sample_names = {n. length n \<le> 255}"

text \<open>The names inside an RDATA value.\<close>

definition rdata_names :: "rdata \<Rightarrow> string list" where
  "rdata_names d =
    (case d of
       RD_CNAME x \<Rightarrow> [x]
     | RD_MX x \<Rightarrow> [MX_Exchange x]
     | RD_NS x \<Rightarrow> [x]
     | RD_PTR x \<Rightarrow> [x]
     | RD_RRSIG x \<Rightarrow> [RRSIG_Name x]
     | RD_SOA x \<Rightarrow> [SOA_MName x, SOA_RName x]
     | _ \<Rightarrow> [])"

text \<open>
  The widths and lengths that the wire layouts of the variants can carry: an A address that
  \<open>To4\<close> narrows to four octets, an AAAA address of sixteen octets, a DNSKEY key and an
  RRSIG signature that are not empty, a DS digest of the one supported type and its twenty
  octets, a salt that one octet can count, a next hashed owner name that two octets can
  count, a text that one character string holds.
\<close>

definition rdata_legal :: "rdata \<Rightarrow> bool" where
  "rdata_legal d =
    (case d of
       RD_A x \<Rightarrow> To4 x \<noteq> None
     | RD_AAAA x \<Rightarrow> length x = 16
     | RD_DNSKEY x \<Rightarrow> DNSKEY_Key x \<noteq> []
     | RD_DS x \<Rightarrow> DS_DigestType x = HashAlgorithmSHA1 \<and> length (DS_Digest x) = 20
     | RD_NSEC3 x \<Rightarrow>
         length (NSEC3PARAM_Salt x) \<le> 255 \<and> length (NSEC3_NextHashedOwnerName x) \<le> 65535
     | RD_NSEC3PARAM x \<Rightarrow> length (NSEC3PARAM_Salt x) \<le> 255
     | RD_RRSIG x \<Rightarrow> RRSIG_Signature x \<noteq> []
     | RD_TXT x \<Rightarrow> length x \<le> 255
     | RD_nil \<Rightarrow> False
     | _ \<Rightarrow> True)"

text \<open>
  What decoding gives back for an encoded value: the value, with an A address in the
  sixteen-octet form that \<open>net.IPv4\<close> builds.
\<close>

definition canonical :: "rdata \<Rightarrow> rdata" where
  "canonical d =
    (case d of
       RD_A x \<Rightarrow> RD_A (v4InV6Prefix @ slice_or_nil (To4 x))
     | _ \<Rightarrow> d)"

definition empty_Wirebuf :: Wirebuf where
  "empty_Wirebuf = \<lparr>Buf = [], Compression = True\<rparr>"

subsection \<open>Sample records\<close>

definition sample_RRSIG :: "32 word \<Rightarrow> RR" where
  "sample_RRSIG inception =
    \<lparr>RR_Name = ''example.com.'', RR_Type = TYPE_RRSIG, RR_Class = 1, RR_TTL = 3600,
     RR_RData = RD_RRSIG
       \<lparr>RRSIG_Type = TYPE_A, RRSIG_AlgorithmType = 5, RRSIG_Labels = 2, RRSIG_TTL = 3600,
        RRSIG_Expiration = 1300000000, RRSIG_Inception = inception, RRSIG_KeyTag = 12345,
        RRSIG_Name = ''example.com.'', RRSIG_Signature = [1, 2, 3]\<rparr>\<rparr>"

definition sample_MX :: "string \<Rightarrow> string \<Rightarrow> RR" where
  "sample_MX owner exchange =
    \<lparr>RR_Name = owner, RR_Type = TYPE_MX, RR_Class = 1, RR_TTL = 3600,
     RR_RData = RD_MX \<lparr>MX_Preference = 10, MX_Exchange = exchange\<rparr>\<rparr>"

definition sample_A :: "string \<Rightarrow> bytes \<Rightarrow> RR" where
  "sample_A owner address =
    \<lparr>RR_Name = owner, RR_Type = TYPE_A, RR_Class = 1, RR_TTL = 3600,
     RR_RData = RD_A address\<rparr>"

definition sample_rdata :: rdata where
  "sample_rdata = RD_MX \<lparr>MX_Preference = 10, MX_Exchange = ''mail.example.com.''\<rparr>"

text \<open>A record of a type that has no case in \<open>RR.Decode\<close>, and its wire form.\<close>

definition sample_unknown :: RR where
  "sample_unknown =
    \<lparr>RR_Name = ''a'', RR_Type = 99, RR_Class = 1, RR_TTL = 5, RR_RData = RD_RDATA [1, 2, 3]\<rparr>"

definition sample_wire :: bytes where
  "sample_wire = [1, 97, 0, 99, 0, 1, 0, 0, 0, 5, 0, 3, 1, 2, 3]"

definition sample_set :: "RR list" where
  "sample_set = [sample_A ''a.example.'' [192, 0, 2, 1], sample_A ''A.Example.'' [192, 0, 2, 1],
                 sample_MX ''example.'' ''mail.example.'']"

section \<open>The zone-text lexer\<close>

text \<open>
  \<open>scanner.l\<close> is the input of golex: the Go code in it (the state of the lexer,
  \<open>getc\<close>, \<open>Error\<close>, the code before and after the rules and the action of every
  rule) is translated here as it stands. The automaton that golex generates from the
  patterns is not among the sources; \<open>yymatch\<close> below gives its result for the patterns
  it embeds and says so where a pattern is not embedded.
\<close>

definition NUL :: char where "NUL = CHR 0x00"
definition TAB :: char where "TAB = CHR 0x09"
definition LF :: char where "LF = CHR 0x0A"
definition CR :: char where "CR = CHR 0x0D"
definition DQUOTE :: char where "DQUOTE = CHR 0x22"

text \<open>
  The state \<open>lexStackItem\<close> (lines 29-42), without \<open>rrHandler\<close> and \<open>prev\<close>, which
  the scanner does not read. \<open>lex_src\<close> is what the reader has still to deliver.
  \<open>lex_reported\<close> is not a field of the source: it records the effect of the error
  callback, the messages it was called with and let pass.
\<close>

record lex =
  lex_errHandler :: "(string \<Rightarrow> bool) option"
  lex_startCond :: nat
  lex_buf :: string
  lex_last :: char
  lex_peek :: char
  lex_line :: nat
  lex_column :: nat
  lex_name :: string
  lex_src :: string
  lex_inParen :: bool
  lex_reported :: "string list"

definition sc_INITIAL :: nat where "sc_INITIAL = 0"
definition sc_RRHEAD :: nat where "sc_RRHEAD = 1"
definition sc_DOMAIN :: nat where "sc_DOMAIN = 2"
definition sc_NUM :: nat where "sc_NUM = 3"
definition sc_IPV4 :: nat where "sc_IPV4 = 4"
definition sc_IPV6 :: nat where "sc_IPV6 = 5"
definition sc_BASE32EXT :: nat where "sc_BASE32EXT = 6"
definition sc_BASE64 :: nat where "sc_BASE64 = 7"
definition sc_TYPE :: nat where "sc_TYPE = 8"
definition sc_HEX :: nat where "sc_HEX = 9"
definition sc_QSTR :: nat where "sc_QSTR = 10"

text \<open>
  \<open>getc\<close> (lines 63-86): a byte that is not zero joins the buffer; the byte looked at
  becomes the last one; the next byte of the source, or zero at its end, becomes the one
  looked at. (A reader over a text in memory has no other error.)
\<close>

definition getc :: "char \<Rightarrow> lex \<Rightarrow> char \<times> lex" where
  "getc c l =
    (let l1 = (if c \<noteq> NUL then l\<lparr>lex_buf := lex_buf l @ [c]\<rparr> else l);
         l2 = l1\<lparr>lex_last := lex_peek l1\<rparr>
     in case lex_src l2 of
          [] \<Rightarrow> (NUL, l2\<lparr>lex_peek := NUL\<rparr>)
        | b # rest \<Rightarrow>
            (b, (if b = LF then l2\<lparr>lex_line := lex_line l2 + 1, lex_column := 0\<rparr>
                 else l2\<lparr>lex_column := lex_column l2 + 1\<rparr>)
                \<lparr>lex_peek := b, lex_src := rest\<rparr>))"

text \<open>\<open>newLex\<close> (lines 89-98).\<close>

definition newLex :: "string \<Rightarrow> string \<Rightarrow> (string \<Rightarrow> bool) option \<Rightarrow> lex" where
  "newLex name source errHandler =
    snd (getc NUL
      \<lparr>lex_errHandler = errHandler, lex_startCond = 0, lex_buf = [], lex_last = NUL,
       lex_peek = NUL, lex_line = 1, lex_column = 0, lex_name = name, lex_src = source,
       lex_inParen = False, lex_reported = []\<rparr>)"

text \<open>
  \<open>Error\<close> (lines 101-109): the message is formatted with \<open>"%s:%d:%d - %s"\<close>; with a
  callback that returns true the call returns, otherwise it panics with the message.
\<close>

definition error_message :: "lex \<Rightarrow> string \<Rightarrow> string" where
  "error_message l e =
     lex_name l @ '':'' @ decimal (lex_line l) @ '':'' @ decimal (lex_column l) @ '' - '' @ e"

definition lex_Error :: "string \<Rightarrow> lex \<Rightarrow> error + lex" where
  "lex_Error e l =
    (let msg = error_message l e in
     case lex_errHandler l of
       Some handler \<Rightarrow>
         if handler msg then Inr (l\<lparr>lex_reported := lex_reported l @ [msg]\<rparr>)
         else Inl (Panic msg)
     | None \<Rightarrow> Inl (Panic msg))"

definition lex_begin :: "nat \<Rightarrow> lex \<Rightarrow> lex" where
  "lex_begin sc l = l\<lparr>lex_startCond := sc\<rparr>"

subsection \<open>Tokens and values\<close>

text \<open>
  What \<open>Lex\<close> returns: a byte (\<open>'\\n'\<close> is the end of a record, zero the end of the
  input, and any byte that no pattern recognises stands for itself), one of the token codes
  that yacc generates from the grammar (which is not among the sources; the codes of the
  type mnemonics are \<open>tTYPE\<close> with the mnemonic), or \<open>unicode.ReplacementChar\<close>.
  \<open>yySymType\<close> has the fields that the actions assign.
\<close>

datatype token =
    T_byte char
  | tDLR_TTL | tDOMAIN_NAME | tBLANK_START | tQSTR | tDECADIC | tCLASS
  | tTYPE string
  | tIPV4 | tIPV6 | tBASE32EXT | tBASE64 | tHEX
  | ReplacementChar

definition end_of_record :: token where
  "end_of_record = T_byte LF"

record yySymType =
  lval_str :: string
  lval_u64 :: "64 word"
  lval_class :: "16 word"
  lval_ip :: "bytes option"
  lval_data :: "bytes option"

definition zero_lval :: yySymType where
  "zero_lval = \<lparr>lval_str = [], lval_u64 = 0, lval_class = 0, lval_ip = None, lval_data = None\<rparr>"

definition CLASS_IN :: "16 word" where "CLASS_IN = 1"
definition CLASS_CH :: "16 word" where "CLASS_CH = 3"
definition CLASS_HS :: "16 word" where "CLASS_HS = 4"

subsection \<open>Library functions\<close>

text \<open>
  \<open>strconv.Atoui64\<close> on a run of decimal digits: its value, or an error when the value
  does not fit 64 bits. \<open>%q\<close> of \<open>fmt\<close> on a text that needs no escape.
  \<open>net.ParseIP\<close> and \<open>hex.DecodeString\<close> are parameters of the actions that call
  them, \<open>None\<close> being the nil address and the error.
\<close>

definition is_digit :: "char \<Rightarrow> bool" where
  "is_digit c = (c \<in> set ''0123456789'')"

definition digit_value :: "char \<Rightarrow> nat" where
  "digit_value c = of_char c - 48"

definition decimal_value :: "string \<Rightarrow> nat" where
  "decimal_value s = foldl (\<lambda>n c. 10 * n + digit_value c) 0 s"

definition Atoui64 :: "string \<Rightarrow> error + 64 word" where
  "Atoui64 s =
    (if s = [] \<or> \<not> list_all is_digit s then Inl (Error ''invalid syntax'')
     else if decimal_value s \<ge> 2 ^ 64 then Inl (Error ''value out of range'')
     else Inr (of_nat (decimal_value s)))"

definition quoted :: "string \<Rightarrow> string" where
  "quoted s = DQUOTE # s @ [DQUOTE]"

subsection \<open>The rules and their actions\<close>

text \<open>
  The rules of \<open>scanner.l\<close> (lines 179-318), in their order; the rules of the class and
  type mnemonics carry the class and the mnemonic.
\<close>

datatype rule =
    R_ignored
  | R_DLR_TTL
  | R_newline
  | R_lparen
  | R_rparen
  | R_bol_domain_name
  | R_bol_blank
  | R_qstr
  | R_domain_name
  | R_blank
  | R_number
  | R_class "16 word"
  | R_type string
  | R_ipv4
  | R_ipv6
  | R_base32ext
  | R_base64
  | R_hex
  | R_hex_dash

text \<open>
  An action ends in \<open>goto yystate0\<close>, with the variable \<open>ret\<close> as it has left it
  (\<open>None\<close> is \<open>-1\<close>), or in a \<open>return\<close>.
\<close>

datatype outcome = Goto_yystate0 "token option" | Return token

text \<open>\<open>bytes.Replace(s, `\"`, `"`, -1)\<close> of the quoted-string rule.\<close>

fun unescape_quotes :: "string \<Rightarrow> string" where
  "unescape_quotes (a # b # s) =
     (if a = CHR 0x5C \<and> b = DQUOTE then DQUOTE # unescape_quotes s
      else a # unescape_quotes (b # s))"
| "unescape_quotes s = s"

definition yyaction ::
  "(string \<Rightarrow> bytes option) \<Rightarrow> (string \<Rightarrow> bytes option) \<Rightarrow> rule \<Rightarrow> token option \<Rightarrow>
     yySymType \<Rightarrow> lex \<Rightarrow> error + (outcome \<times> yySymType \<times> lex)" where
  "yyaction ParseIP DecodeString r ret lval l =
    (case r of
       R_ignored \<Rightarrow> Inr (Goto_yystate0 ret, lval, l)
     | R_DLR_TTL \<Rightarrow> Inr (Goto_yystate0 (Some tDLR_TTL), lval, l)
     | R_newline \<Rightarrow>
         Inr (Goto_yystate0 (if \<not> lex_inParen l then Some (T_byte LF) else ret), lval, l)
     | R_lparen \<Rightarrow>
         (case (if lex_inParen l then lex_Error ''nested parenthesis'' l else Inr l) of
            Inl e \<Rightarrow> Inl e
          | Inr l' \<Rightarrow> Inr (Goto_yystate0 ret, lval, l'\<lparr>lex_inParen := True\<rparr>))
     | R_rparen \<Rightarrow>
         (case (if \<not> lex_inParen l then lex_Error (''enexpected '' @ quoted '')'') l
                else Inr l) of
            Inl e \<Rightarrow> Inl e
          | Inr l' \<Rightarrow> Inr (Goto_yystate0 (Some (T_byte LF)), lval, l'\<lparr>lex_inParen := False\<rparr>))
     | R_bol_domain_name \<Rightarrow> Inr (Goto_yystate0 (Some tDOMAIN_NAME), lval, l)
     | R_bol_blank \<Rightarrow> Inr (Goto_yystate0 (Some tBLANK_START), lval, l)
     | R_qstr \<Rightarrow>
         Inr (Return tQSTR,
              lval\<lparr>lval_str := unescape_quotes (butlast (tl (lex_buf l)))\<rparr>, l)
     | R_domain_name \<Rightarrow> Inr (Goto_yystate0 (Some tDOMAIN_NAME), lval, l)
     | R_blank \<Rightarrow> Inr (Goto_yystate0 ret, lval, l)
     | R_number \<Rightarrow>
         (case Atoui64 (lex_buf l) of
            Inl e \<Rightarrow> Inl (Panic (''invalid number '' @ quoted (lex_buf l)))
          | Inr n \<Rightarrow>
              Inr (Goto_yystate0 (Some tDECADIC),
                   lval\<lparr>lval_str := lex_buf l, lval_u64 := n\<rparr>, l))
     | R_class c \<Rightarrow> Inr (Goto_yystate0 (Some tCLASS), lval\<lparr>lval_class := c\<rparr>, l)
     | R_type m \<Rightarrow> Inr (Goto_yystate0 (Some (tTYPE m)), lval, l)
     | R_ipv4 \<Rightarrow>
         (let ip = ParseIP (lex_buf l) in
          case (if ip = None then lex_Error (''invalid IP '' @ quoted (lex_buf l)) l
                else Inr l) of
            Inl e \<Rightarrow> Inl e
          | Inr l' \<Rightarrow> Inr (Return tIPV4, lval\<lparr>lval_ip := ip\<rparr>, l'))
     | R_ipv6 \<Rightarrow>
         (let ip = ParseIP (lex_buf l) in
          case (if ip = None then lex_Error (''invalid IP '' @ quoted (lex_buf l)) l
                else Inr l) of
            Inl e \<Rightarrow> Inl e
          | Inr l' \<Rightarrow> Inr (Return tIPV6, lval\<lparr>lval_ip := ip\<rparr>, l'))
     | R_base32ext \<Rightarrow> Inr (Goto_yystate0 (Some tBASE32EXT), lval, l)
     | R_base64 \<Rightarrow> Inr (Goto_yystate0 (Some tBASE64), lval, l)
     | R_hex \<Rightarrow>
         (let data = DecodeString (lex_buf l) in
          case (if data = None then lex_Error ''expected hex string'' l else Inr l) of
            Inl e \<Rightarrow> Inl e
          | Inr l' \<Rightarrow> Inr (Goto_yystate0 (Some tHEX), lval\<lparr>lval_data := data\<rparr>, l'))
     | R_hex_dash \<Rightarrow> Inr (Goto_yystate0 (Some tHEX), lval\<lparr>lval_data := None\<rparr>, l))"

subsection \<open>The patterns\<close>

text \<open>
  The automaton reads bytes as long as some pattern of the start condition can go on; where
  none can, it runs the action of the first pattern that the bytes read so far match, and
  without such a pattern it goes to the code after the rules. \<open>yymatch\<close> gives this for
  the text that starts with the byte looked at: \<open>Matched r k\<close>, the rule and the number
  of bytes read into the buffer; \<open>No_match k\<close>, the number of bytes read when no pattern
  matched; \<open>Not_embedded\<close> where the text starts a pattern that is not embedded here (a
  directive, a quoted string, a blank run before the end of a line, a mnemonic, an address,
  a base32, base64 or hex run).
\<close>

datatype yymatched = Matched rule nat | No_match nat | Not_embedded

definition is_blank :: "char \<Rightarrow> bool" where
  "is_blank c = (c = CHR '' '' \<or> c = TAB)"

definition is_let_or_digit :: "char \<Rightarrow> bool" where
  "is_let_or_digit c =
     (c \<in> set ''abcdefghijklmnopqrstuvwxyzABCDEFGHIJKLMNOPQRSTUVWXYZ0123456789'')"

text \<open>
  The pattern \<open>{label}("."{label})*\.?\<close>: the text is read while it can go on; the
  result is the number of bytes read and whether they match. \<open>dn_label\<close> is the state
  after a letter or digit, \<open>dn_hyphen\<close> after a hyphen, \<open>dn_dot\<close> after the dot
  behind a label.
\<close>

datatype dn_state = dn_label | dn_hyphen | dn_dot

fun dn_scan :: "dn_state \<Rightarrow> string \<Rightarrow> nat \<Rightarrow> bool \<times> nat" where
  "dn_scan s [] k = (s \<noteq> dn_hyphen, k)"
| "dn_scan s (c # cs) k =
     (if is_let_or_digit c then dn_scan dn_label cs (k + 1)
      else if c = CHR ''-'' \<and> s \<noteq> dn_dot then dn_scan dn_hyphen cs (k + 1)
      else if c = CHR ''.'' \<and> s = dn_label then dn_scan dn_dot cs (k + 1)
      else (s \<noteq> dn_hyphen, k))"

definition match_domain_name :: "rule \<Rightarrow> string \<Rightarrow> yymatched" where
  "match_domain_name r t =
     (case t of
        [] \<Rightarrow> No_match 0
      | c # cs \<Rightarrow>
          if c = CHR ''.'' then Matched r 1
          else (case dn_scan dn_label cs 1 of
                  (True, k) \<Rightarrow> Matched r k
                | (False, k) \<Rightarrow> No_match k))"

definition starts_mnemonic :: "char \<Rightarrow> bool" where
  "starts_mnemonic c = (c \<in> set ''ACDGHIKLMNPRSTWX'')"

definition yymatch :: "nat \<Rightarrow> bool \<Rightarrow> string \<Rightarrow> yymatched" where
  "yymatch sc bol t =
    (case t of
       [] \<Rightarrow> No_match 0
     | c # cs \<Rightarrow>
         if c = LF \<or> c = CR then Matched R_newline 1
         else if c = CHR ''('' then Matched R_lparen 1
         else if c = CHR '')'' then Matched R_rparen 1
         else if c = CHR '';'' then Matched R_ignored (1 + length (takeWhile (\<lambda>x. x \<noteq> LF) cs))
         else if is_blank c then
           (let k = length (takeWhile is_blank t); rest = drop k t in
            case rest of
              [] \<Rightarrow> if bol \<and> sc = sc_INITIAL then Matched R_bol_blank k else Matched R_blank k
            | x # xs \<Rightarrow>
                if x = CHR '';''
                  then Matched R_ignored (k + 1 + length (takeWhile (\<lambda>x. x \<noteq> LF) xs))
                else if x = LF then Not_embedded
                else if bol \<and> sc = sc_INITIAL then Matched R_bol_blank k
                else Matched R_blank k)
         else if c = DQUOTE then Not_embedded
         else if sc = sc_INITIAL then
           (if \<not> bol then No_match 0
            else if c = CHR ''$'' then Not_embedded
            else if is_let_or_digit c \<or> c = CHR ''.'' then match_domain_name R_bol_domain_name t
            else No_match 0)
         else if sc = sc_DOMAIN then
           (if is_let_or_digit c \<or> c = CHR ''.'' then match_domain_name R_domain_name t
            else No_match 0)
         else if sc = sc_NUM then
           (if is_digit c then Matched R_number (length (takeWhile is_digit t)) else No_match 0)
         else if sc = sc_RRHEAD then
           (if is_digit c then Matched R_number (length (takeWhile is_digit t))
            else if starts_mnemonic c then Not_embedded
            else No_match 0)
         else if sc = sc_QSTR then No_match 0
         else Not_embedded)"

subsection \<open>\<open>Lex\<close>\<close>

text \<open>\<open>c = l.getc(c)\<close>, once for every byte that the automaton reads.\<close>

primrec getcs :: "nat \<Rightarrow> lex \<Rightarrow> lex" where
  "getcs 0 l = l"
| "getcs (Suc k) l = getcs k (snd (getc (lex_peek l) l))"

definition unread :: "lex \<Rightarrow> string" where
  "unread l = (if lex_peek l = NUL then [] else lex_peek l # lex_src l)"

definition yyb :: "lex \<Rightarrow> bool" where
  "yyb l = (lex_last l = LF \<or> lex_last l = NUL)"

text \<open>
  \<open>Lex\<close> (lines 132-329). One round of \<open>Lex_loop\<close> is the code at \<open>yystate0\<close>: a
  \<open>ret\<close> that is set is returned with \<open>lval.str\<close>; otherwise the buffer is emptied, the
  automaton runs, and the action of the rule follows, or the code after the rules (a byte
  that starts no pattern is returned as it is). Every round that does not return reads a
  byte, so the rounds are counted against the length of the text.
\<close>

datatype lex_failure = Failed error | Pattern_not_embedded | Out_of_rounds

fun Lex_loop ::
  "(string \<Rightarrow> bytes option) \<Rightarrow> (string \<Rightarrow> bytes option) \<Rightarrow> nat \<Rightarrow> token option \<Rightarrow>
     yySymType \<Rightarrow> lex \<Rightarrow> lex_failure + (token \<times> yySymType \<times> lex)" where
  "Lex_loop ParseIP DecodeString 0 ret lval l = Inl Out_of_rounds"
| "Lex_loop ParseIP DecodeString (Suc n) ret lval l =
    (case ret of
       Some t \<Rightarrow> Inr (t, lval\<lparr>lval_str := lex_buf l\<rparr>, l)
     | None \<Rightarrow>
         (let l0 = l\<lparr>lex_buf := []\<rparr> in
          case yymatch (lex_startCond l0) (yyb l0) (unread l0) of
            Not_embedded \<Rightarrow> Inl Pattern_not_embedded
          | No_match k \<Rightarrow>
              (let l1 = getcs k l0 in
               if lex_buf l1 = [] then Inr (T_byte (lex_peek l1), lval, snd (getc NUL l1))
               else Inr (ReplacementChar, lval, l1))
          | Matched r k \<Rightarrow>
              (let l1 = getcs k l0 in
               case yyaction ParseIP DecodeString r None lval l1 of
                 Inl e \<Rightarrow> Inl (Failed e)
               | Inr (Return t, lval', l2) \<Rightarrow> Inr (t, lval', l2)
               | Inr (Goto_yystate0 ret', lval', l2) \<Rightarrow>
                   Lex_loop ParseIP DecodeString n ret' lval' l2)))"

definition Lex ::
  "(string \<Rightarrow> bytes option) \<Rightarrow> (string \<Rightarrow> bytes option) \<Rightarrow> yySymType \<Rightarrow> lex \<Rightarrow>
     lex_failure + (token \<times> yySymType \<times> lex)" where
  "Lex ParseIP DecodeString lval l =
     Lex_loop ParseIP DecodeString (length (unread l) + 2) None lval l"

text \<open>
  The calls of a parser that asks for tokens until the end of the input and sets the start
  condition between two calls as \<open>policy\<close> says; the result is every token with the text
  of \<open>lval.str\<close>.
\<close>

fun tokens ::
  "(token \<Rightarrow> nat \<Rightarrow> nat) \<Rightarrow> nat \<Rightarrow> lex \<Rightarrow> lex_failure + (token \<times> string) list" where
  "tokens policy 0 l = Inl Out_of_rounds"
| "tokens policy (Suc n) l =
    (case Lex (\<lambda>s. None) (\<lambda>s. None) zero_lval l of
       Inl e \<Rightarrow> Inl e
     | Inr (t, lval, l') \<Rightarrow>
         if t = T_byte NUL then Inr [(t, lval_str lval)]
         else (case tokens policy n (lex_begin (policy t (lex_startCond l')) l') of
                 Inl e \<Rightarrow> Inl e
               | Inr ts \<Rightarrow> Inr ((t, lval_str lval) # ts)))"

text \<open>
  Two parsers: one that never leaves the initial condition, and one that reads the head of
  a record after an owner name and goes back at the end of the record.
\<close>

definition stay_INITIAL :: "token \<Rightarrow> nat \<Rightarrow> nat" where
  "stay_INITIAL t sc = sc_INITIAL"

definition head_after_name :: "token \<Rightarrow> nat \<Rightarrow> nat" where
  "head_after_name t sc =
     (if t = tDOMAIN_NAME then sc_RRHEAD else if t = end_of_record then sc_INITIAL else sc)"

definition accept_all :: "string \<Rightarrow> bool" where
  "accept_all msg = True"


text \<open>What the error callback says to a message; without a callback nothing continues.\<close>

definition handler_continues :: "lex \<Rightarrow> string \<Rightarrow> bool" where
  "handler_continues l msg = (case lex_errHandler l of Some handler \<Rightarrow> handler msg | None \<Rightarrow> False)"

definition report :: "string \<Rightarrow> lex \<Rightarrow> lex" where
  "report msg l = l\<lparr>lex_reported := lex_reported l @ [msg]\<rparr>"

text \<open>
  Sample inputs: the record of the scenario, a state with an address read, and the state at
  the start of a text with the flag of the parentheses as given.
\<close>

definition scenario_text :: string where
  "scenario_text = ''foo ( 10'' @ [LF] @ '' 20 )'' @ [LF]"


definition paren_state :: "string \<Rightarrow> bool \<Rightarrow> lex" where
  "paren_state source flag = (newLex ''zone'' source None)\<lparr>lex_inParen := flag\<rparr>"

definition no_address :: "string \<Rightarrow> bytes option" where
  "no_address s = None"

section \<open>The presentation text of a record\<close>

text \<open>The map \<open>classStr\<close> (lines 146-152) and \<open>Class.String\<close> (lines 154-160).\<close>

definition CLASS_NONE :: "16 word" where "CLASS_NONE = 0"
definition CLASS_CS :: "16 word" where "CLASS_CS = 2"

definition classStr :: "(16 word \<times> string) list" where
  "classStr =
    [(CLASS_NONE, []), (CLASS_IN, ''IN''), (CLASS_CS, ''CS''), (CLASS_CH, ''CH''),
     (CLASS_HS, ''HS'')]"

definition Class_String :: "16 word \<Rightarrow> error + string" where
  "Class_String n =
     (case map_of classStr n of
        None \<Rightarrow> Inl (Panic (''unexpected Class '' @ decimal (unat n)))
      | Some s \<Rightarrow> Inr s)"

text \<open>The \<open>%d\<close> of \<open>fmt\<close> for a signed number.\<close>

definition decimal_int :: "int \<Rightarrow> string" where
  "decimal_int i = (if i < 0 then CHR ''-'' # decimal (nat (- i)) else decimal (nat i))"

text \<open>
  \<open>RR.String\<close> (lines 639-641) is
  \<open>fmt.Sprintf("%s\t%s\t%d\t%s %s", rr.Name, rr.Class, rr.TTL, rr.Type, rr.RData)\<close>.
  For an operand of \<open>%s\<close> that has a \<open>String\<close> method, \<open>Sprintf\<close> calls the method,
  one operand after the other. What \<open>Sprintf\<close> does when the method panics is the
  library's and the parameter \<open>onPanic\<close>: \<open>None\<close> where the panic goes on through
  \<open>Sprintf\<close>, \<open>Some s\<close> where \<open>fmt\<close> recovers from it and writes \<open>s\<close> in the place
  of the operand. The \<open>String\<close> methods of the RDATA variants render with the library
  (addresses, base64, hex, times) and are the parameter \<open>rdataString\<close>.
\<close>

definition fmt_operand :: "(string \<Rightarrow> string option) \<Rightarrow> error + string \<Rightarrow> error + string" where
  "fmt_operand onPanic r =
    (case r of
       Inr s \<Rightarrow> Inr s
     | Inl (Panic m) \<Rightarrow> (case onPanic m of None \<Rightarrow> Inl (Panic m) | Some s \<Rightarrow> Inr s)
     | Inl e \<Rightarrow> Inl e)"

definition RR_String ::
    "(string \<Rightarrow> string option) \<Rightarrow> (rdata \<Rightarrow> error + string) \<Rightarrow> RR \<Rightarrow> error + string" where
  "RR_String onPanic rdataString rr =
    (case fmt_operand onPanic (Class_String (RR_Class rr)) of Inl e \<Rightarrow> Inl e | Inr c \<Rightarrow>
     case fmt_operand onPanic (Type_String (RR_Type rr)) of Inl e \<Rightarrow> Inl e | Inr t \<Rightarrow>
     case fmt_operand onPanic (rdataString (RR_RData rr)) of Inl e \<Rightarrow> Inl e | Inr d \<Rightarrow>
     Inr (RR_Name rr @ [TAB] @ c @ [TAB] @ decimal_int (sint (RR_TTL rr)) @ [TAB] @ t @
          '' '' @ d))"

text \<open>
  \<open>RDATA.String\<close> (lines 614-616) is \<open>fmt.Sprintf("\\# %d % 02x", len(*d), *d)\<close>: a
  backslash, \<open>#\<close>, the number of octets, and the octets in hex, two digits each with a
  space between. What \<open>% 02x\<close> writes for no octets at all (the padding to the width) is
  the library's and the parameter \<open>pad\<close>.
\<close>

definition hex_octet :: "byte \<Rightarrow> string" where
  "hex_octet x = [''0123456789abcdef'' ! (unat x div 16), ''0123456789abcdef'' ! (unat x mod 16)]"

fun spaced_hex :: "bytes \<Rightarrow> string" where
  "spaced_hex [] = []"
| "spaced_hex [x] = hex_octet x"
| "spaced_hex (x # y # zs) = hex_octet x @ '' '' @ spaced_hex (y # zs)"

definition RDATA_String :: "string \<Rightarrow> bytes \<Rightarrow> string" where
  "RDATA_String pad d =
     CHR 0x5C # ''# '' @ decimal (length d) @ '' '' @ (if d = [] then pad else spaced_hex d)"

text \<open>
  Two libraries to run the definitions with: one whose \<open>Sprintf\<close> lets the panic of a
  \<open>String\<close> method through, and one that recovers from it with the marker of today's
  \<open>fmt\<close>. The \<open>String\<close> methods at the samples: that of the opaque variant as the
  source has it; the other variants, which the samples do not hold, as the empty text.
  A record of type MD.
\<close>

definition propagating_fmt :: "string \<Rightarrow> string option" where
  "propagating_fmt m = None"

definition recovering_fmt :: "string \<Rightarrow> string option" where
  "recovering_fmt m = Some (''%!s(PANIC=String method: '' @ m @ '')'')"

definition sample_rdataString :: "rdata \<Rightarrow> error + string" where
  "sample_rdataString d = (case d of RD_RDATA x \<Rightarrow> Inr (RDATA_String [] x) | _ \<Rightarrow> Inr [])"

definition sample_MD :: RR where
  "sample_MD = sample_unknown\<lparr>RR_Type := TYPE_MD\<rparr>"

section \<open>Theorems\<close>

lemmas TYPE_defs =
  TYPE_A_def TYPE_NS_def TYPE_MD_def TYPE_MF_def TYPE_CNAME_def TYPE_SOA_def TYPE_MB_def
  TYPE_MG_def TYPE_MR_def TYPE_NULL_def TYPE_WKS_def TYPE_PTR_def TYPE_HINFO_def
  TYPE_MINFO_def TYPE_MX_def TYPE_TXT_def TYPE_AAAA_def TYPE_DS_def TYPE_RRSIG_def
  TYPE_NSEC_def TYPE_DNSKEY_def TYPE_NSEC3_def TYPE_NSEC3PARAM_def TYPE_NODATA_def
  TYPE_NXDOMAIN_def

subsection \<open>Equality of records\<close>

lemma lower_of_pair:
  "(c, d) \<in> set (zip upper_letters lower_letters) \<Longrightarrow> lower_char c = d \<and> lower_char d = d"
  unfolding upper_letters_def lower_letters_def
  apply simp
  apply (elim disjE conjE; simp add: lower_char_def upper_letters_def lower_letters_def)
  done

lemma case_pair_lower: "case_pair c d \<Longrightarrow> lower_char c = lower_char d"
  unfolding case_pair_def using lower_of_pair [of c d] lower_of_pair [of d c] by auto

lemma differ_ToLower: "differ_in_case_only s t \<Longrightarrow> ToLower s = ToLower t"
  unfolding differ_in_case_only_def ToLower_def
  by (induction s t rule: list_all2_induct) (auto dest: case_pair_lower)

text \<open>
  Claim C6. Two records that differ only in the case of letters, in the owner name and in
  the names inside the RDATA (CNAME target, MX exchange, NS and PTR names, RRSIG signer,
  SOA MName and RName), are \<open>Equal\<close>: the call returns true. (A record holds an RDATA
  value; without one \<open>Equal\<close> ends in \<open>log.Fatalf\<close>.)
\<close>

theorem Equal_case_insensitive:
  assumes "differ_only_in_case a b" and "RR_RData a \<noteq> RD_nil"
  shows "Equal ipString a b = Inr True"
proof -
  from assms(1) have hd: "RR_Type a = RR_Type b" "RR_Class a = RR_Class b"
    and nm: "ToLower (RR_Name a) = ToLower (RR_Name b)"
    and rd: "rdata_case_variant (RR_RData a) (RR_RData b)"
    by (auto simp: differ_only_in_case_def dest: differ_ToLower)
  have eq: "Equal ipString a b = (case RR_RData a of
       RD_nil \<Rightarrow> Inl (Fatal ''rr.RR.Equal() - internal error'')
     | RD_CNAME x \<Rightarrow>
         (case RR_RData b of RD_CNAME y \<Rightarrow> Inr (ToLower x = ToLower y)
          | _ \<Rightarrow> assertion_panic)
     | RD_MX x \<Rightarrow>
         (case RR_RData b of
            RD_MX y \<Rightarrow>
              Inr (MX_Preference x = MX_Preference y \<and>
                   ToLower (MX_Exchange x) = ToLower (MX_Exchange y))
          | _ \<Rightarrow> assertion_panic)
     | RD_NS x \<Rightarrow>
         (case RR_RData b of RD_NS y \<Rightarrow> Inr (ToLower x = ToLower y)
          | _ \<Rightarrow> assertion_panic)
     | RD_PTR x \<Rightarrow>
         (case RR_RData b of RD_PTR y \<Rightarrow> Inr (ToLower x = ToLower y)
          | _ \<Rightarrow> assertion_panic)
     | RD_RRSIG x \<Rightarrow>
         (case RR_RData b of
            RD_RRSIG y \<Rightarrow>
              Inr (RRSIG_Type x = RRSIG_Type y \<and>
                   RRSIG_AlgorithmType x = RRSIG_AlgorithmType y \<and>
                   RRSIG_Labels x = RRSIG_Labels y \<and>
                   RRSIG_TTL x = RRSIG_TTL y \<and>
                   RRSIG_Expiration x = RRSIG_Expiration y \<and>
                   RRSIG_KeyTag x = RRSIG_KeyTag y \<and>
                   ToLower (RRSIG_Name x) = ToLower (RRSIG_Name y) \<and>
                   RRSIG_Signature x = RRSIG_Signature y)
          | _ \<Rightarrow> assertion_panic)
     | RD_SOA x \<Rightarrow>
         (case RR_RData b of
            RD_SOA y \<Rightarrow>
              Inr (ToLower (SOA_MName x) = ToLower (SOA_MName y) \<and>
                   ToLower (SOA_RName x) = ToLower (SOA_RName y) \<and>
                   SOA_Serial x = SOA_Serial y \<and>
                   SOA_Refresh x = SOA_Refresh y \<and>
                   SOA_Retry x = SOA_Retry y \<and>
                   SOA_Expire x = SOA_Expire y \<and>
                   SOA_Minimum x = SOA_Minimum y)
          | _ \<Rightarrow> assertion_panic)
     | _ \<Rightarrow> Equal ipString a b)"
    by (cases "RR_RData a") (simp_all add: Equal_def hd nm)
  show ?thesis
  proof (cases "RR_RData a")
    case (RD_CNAME m)
    with rd obtain n where "RR_RData b = RD_CNAME n" "differ_in_case_only m n"
      by (cases "RR_RData b") (simp_all add: rdata_case_variant_def)
    with RD_CNAME eq show ?thesis by (simp add: differ_ToLower)
  next
    case (RD_NS m)
    with rd obtain n where "RR_RData b = RD_NS n" "differ_in_case_only m n"
      by (cases "RR_RData b") (simp_all add: rdata_case_variant_def)
    with RD_NS eq show ?thesis by (simp add: differ_ToLower)
  next
    case (RD_PTR m)
    with rd obtain n where "RR_RData b = RD_PTR n" "differ_in_case_only m n"
      by (cases "RR_RData b") (simp_all add: rdata_case_variant_def)
    with RD_PTR eq show ?thesis by (simp add: differ_ToLower)
  next
    case (RD_MX m)
    with rd obtain n where n: "RR_RData b = RD_MX n" "n = m\<lparr>MX_Exchange := MX_Exchange n\<rparr>"
      "differ_in_case_only (MX_Exchange m) (MX_Exchange n)"
      by (cases "RR_RData b") (simp_all add: rdata_case_variant_def)
    from n(2) have "MX_Preference n = MX_Preference m"
      by (metis MX.select_convs(1) MX.surjective MX.update_convs(2))
    with RD_MX eq n show ?thesis by (simp add: differ_ToLower)
  next
    case (RD_RRSIG m)
    with rd obtain n where n: "RR_RData b = RD_RRSIG n" "n = m\<lparr>RRSIG_Name := RRSIG_Name n\<rparr>"
      "differ_in_case_only (RRSIG_Name m) (RRSIG_Name n)"
      by (cases "RR_RData b") (simp_all add: rdata_case_variant_def)
    have "RRSIG_Type n = RRSIG_Type m \<and> RRSIG_AlgorithmType n = RRSIG_AlgorithmType m \<and>
          RRSIG_Labels n = RRSIG_Labels m \<and> RRSIG_TTL n = RRSIG_TTL m \<and>
          RRSIG_Expiration n = RRSIG_Expiration m \<and> RRSIG_KeyTag n = RRSIG_KeyTag m \<and>
          RRSIG_Signature n = RRSIG_Signature m"
      by (subst (1 2 3 4 5 6 7) n(2)) simp
    with RD_RRSIG eq n show ?thesis by (simp add: differ_ToLower)
  next
    case (RD_SOA m)
    with rd obtain n where n: "RR_RData b = RD_SOA n"
      "n = m\<lparr>SOA_MName := SOA_MName n, SOA_RName := SOA_RName n\<rparr>"
      "differ_in_case_only (SOA_MName m) (SOA_MName n)"
      "differ_in_case_only (SOA_RName m) (SOA_RName n)"
      by (cases "RR_RData b") (simp_all add: rdata_case_variant_def)
    have "SOA_Serial n = SOA_Serial m \<and> SOA_Refresh n = SOA_Refresh m \<and>
          SOA_Retry n = SOA_Retry m \<and> SOA_Expire n = SOA_Expire m \<and>
          SOA_Minimum n = SOA_Minimum m"
      by (subst (1 2 3 4 5) n(2)) simp
    with RD_SOA eq n show ?thesis by (simp add: differ_ToLower)
  next
    case RD_nil
    with assms(2) show ?thesis by simp
  qed (insert rd hd nm, simp_all add: rdata_case_variant_def Equal_def)
qed

theorem Equal_case_insensitive_witness:
  "differ_only_in_case (sample_MX ''Example.COM.'' ''MAIL.example.com.'')
      (sample_MX ''example.com.'' ''mail.Example.Com.'') \<and>
   RR_RData (sample_MX ''Example.COM.'' ''MAIL.example.com.'') \<noteq> RD_nil \<and>
   Equal raw_ipString (sample_MX ''Example.COM.'' ''MAIL.example.com.'')
      (sample_MX ''example.com.'' ''mail.Example.Com.'') = Inr True"
proof -
  have h1: "differ_only_in_case (sample_MX ''Example.COM.'' ''MAIL.example.com.'')
      (sample_MX ''example.com.'' ''mail.Example.Com.'')"
    by (simp add: differ_only_in_case_def sample_MX_def rdata_case_variant_def
        differ_in_case_only_def case_pair_def upper_letters_def lower_letters_def)
  have h2: "RR_RData (sample_MX ''Example.COM.'' ''MAIL.example.com.'') \<noteq> RD_nil"
    by (simp add: sample_MX_def)
  from Equal_case_insensitive [OF h1 h2, of raw_ipString] h1 h2 show ?thesis by simp
qed

subsection \<open>The record-set algebra\<close>

lemma new_RData_not_nil: "variant_tag (new_RData t) \<noteq> 0"
  by (simp add: new_RData_def variant_tag_def)

lemma Equal_defined:
  assumes "rr_invariant a" "rr_invariant b"
  shows "\<not> isl (Equal ipString a b)"
proof (cases "RR_Type a \<noteq> RR_Type b \<or> RR_Class a \<noteq> RR_Class b
        \<or> ToLower (RR_Name a) \<noteq> ToLower (RR_Name b)")
  case True
  then show ?thesis by (auto simp add: Equal_def)
next
  case False
  with assms have tag: "variant_tag (RR_RData a) = variant_tag (RR_RData b)"
    and nz: "variant_tag (RR_RData a) \<noteq> 0"
    by (simp_all add: rr_invariant_def new_RData_not_nil)
  show ?thesis using tag nz
    by (cases "RR_RData a"; cases "RR_RData b"; simp add: variant_tag_def; simp add: Equal_def False)
qed

lemma Equal_refl: "RR_RData a \<noteq> RD_nil \<Longrightarrow> Equal ipString a a = Inr True"
  by (cases "RR_RData a") (simp_all add: Equal_def)

lemma isnew_defined:
  "(\<And>y. y \<in> set r \<Longrightarrow> \<not> isl (Equal ipString x y)) \<Longrightarrow> \<not> isl (isnew ipString x r)"
proof (induction r)
  case Nil
  show ?case by simp
next
  case (Cons y r)
  from Cons.prems [of y] obtain v where v: "Equal ipString x y = Inr v"
    by (cases "Equal ipString x y") auto
  from Cons.IH Cons.prems have "\<not> isl (isnew ipString x r)" by auto
  with v show ?case by (cases v) simp_all
qed

lemma isnew_member:
  assumes "x \<in> set r" "Equal ipString x x = Inr True"
    and "\<And>y. y \<in> set r \<Longrightarrow> \<not> isl (Equal ipString x y)"
  shows "isnew ipString x r = Inr False"
  using assms
proof (induction r)
  case Nil
  then show ?case by simp
next
  case (Cons y r)
  from Cons.prems(3) [of y] obtain v where v: "Equal ipString x y = Inr v"
    by (cases "Equal ipString x y") auto
  show ?case
  proof (cases v)
    case True
    with v show ?thesis by simp
  next
    case False
    with v Cons.prems(2) have "x \<noteq> y" by auto
    with Cons.prems(1) have "x \<in> set r" by simp
    with Cons.IH Cons.prems have "isnew ipString x r = Inr False" by auto
    with v False show ?thesis by simp
  qed
qed

lemma SetAdd_nothing_new:
  "(\<And>x. x \<in> set xs \<Longrightarrow> isnew ipString x r = Inr False) \<Longrightarrow> SetAdd ipString r xs = Inr r"
  by (induction xs) simp_all

lemma pairwise_new_snoc:
  "pairwise_new ipString (r @ [x]) = (isnew ipString x r = Inr True \<and> pairwise_new ipString r)"
  by (simp add: pairwise_new_def)

lemma pairwise_new_prefix: "pairwise_new ipString (r @ ys) \<Longrightarrow> pairwise_new ipString r"
proof (induction ys rule: rev_induct)
  case Nil
  then show ?case by simp
next
  case (snoc y ys)
  from snoc.prems have "pairwise_new ipString ((r @ ys) @ [y])" by simp
  then have "pairwise_new ipString (r @ ys)" by (simp only: pairwise_new_snoc)
  then show ?case by (rule snoc.IH)
qed

lemma SetAdd_pairwise_new:
  "pairwise_new ipString (r @ ys) \<Longrightarrow> SetAdd ipString r ys = Inr (r @ ys)"
proof (induction ys arbitrary: r)
  case Nil
  show ?case by simp
next
  case (Cons y ys)
  from Cons.prems have all: "pairwise_new ipString ((r @ [y]) @ ys)" by simp
  then have "pairwise_new ipString (r @ [y])" by (rule pairwise_new_prefix)
  then have "isnew ipString y r = Inr True" by (simp add: pairwise_new_snoc)
  moreover from all have "SetAdd ipString (r @ [y]) ys = Inr ((r @ [y]) @ ys)" by (rule Cons.IH)
  ultimately show ?case by simp
qed

lemma SetAdd_result:
  assumes "pairwise_new ipString r"
    and "\<And>x y. x \<in> set rrs \<Longrightarrow> y \<in> set r \<union> set rrs \<Longrightarrow> \<not> isl (Equal ipString x y)"
  shows "\<exists>res. SetAdd ipString r rrs = Inr res \<and> pairwise_new ipString res \<and>
           length res \<le> length r + length rrs"
  using assms
proof (induction rrs arbitrary: r)
  case Nil
  then show ?case by simp
next
  case (Cons x rrs)
  have "\<not> isl (isnew ipString x r)"
    by (rule isnew_defined) (simp add: Cons.prems(2))
  then obtain v where v: "isnew ipString x r = Inr v"
    by (cases "isnew ipString x r") auto
  show ?case
  proof (cases v)
    case True
    with v Cons.prems(1) have "pairwise_new ipString (r @ [x])" by (simp add: pairwise_new_snoc)
    moreover have "\<And>a b. a \<in> set rrs \<Longrightarrow> b \<in> set (r @ [x]) \<union> set rrs \<Longrightarrow>
        \<not> isl (Equal ipString a b)"
      using Cons.prems(2) by auto
    ultimately obtain res where "SetAdd ipString (r @ [x]) rrs = Inr res"
      "pairwise_new ipString res" "length res \<le> length (r @ [x]) + length rrs"
      using Cons.IH [of "r @ [x]"] by blast
    with v True show ?thesis by simp
  next
    case False
    have "\<And>a b. a \<in> set rrs \<Longrightarrow> b \<in> set r \<union> set rrs \<Longrightarrow> \<not> isl (Equal ipString a b)"
      using Cons.prems(2) by auto
    with Cons.prems(1) obtain res where "SetAdd ipString r rrs = Inr res"
      "pairwise_new ipString res" "length res \<le> length r + length rrs"
      using Cons.IH [of r] by blast
    with v False show ?thesis by simp
  qed
qed

text \<open>
  Claim C7. For every record set \<open>S\<close> of records of the data model (each holds the
  variant its type selects, so that \<open>Equal\<close> is defined on any two of them):
  \<open>Unique\<close> returns a set that \<open>Unique\<close> leaves as it is and that is no longer than
  \<open>S\<close>, and \<open>SetAdd\<close> of \<open>S\<close> to itself returns a set of the size of \<open>S\<close>.
\<close>

theorem Unique_SetAdd_algebra:
  assumes "\<forall>r \<in> set S. rr_invariant r"
  shows "(case Unique ipString S of
            Inl e \<Rightarrow> False
          | Inr U \<Rightarrow> Unique ipString U = Inr U \<and> length U \<le> length S) \<and>
         (case SetAdd ipString S S of
            Inl e \<Rightarrow> False
          | Inr S' \<Rightarrow> length S' = length S)"
proof -
  have def: "\<And>x y. x \<in> set S \<Longrightarrow> y \<in> set S \<Longrightarrow> \<not> isl (Equal ipString x y)"
    using assms by (simp add: Equal_defined)
  have "pairwise_new ipString []" by (simp add: pairwise_new_def)
  with def obtain U where U: "SetAdd ipString [] S = Inr U" "pairwise_new ipString U"
    "length U \<le> length [] + length S"
    using SetAdd_result [of ipString "[]" S] by auto
  from U(2) have "SetAdd ipString [] U = Inr ([] @ U)"
    by (intro SetAdd_pairwise_new) simp
  with U have one: "case Unique ipString S of Inl e \<Rightarrow> False
      | Inr U \<Rightarrow> Unique ipString U = Inr U \<and> length U \<le> length S"
    by (simp add: Unique_def)
  have "\<And>x. x \<in> set S \<Longrightarrow> isnew ipString x S = Inr False"
  proof -
    fix x assume x: "x \<in> set S"
    with assms have "rr_invariant x" by simp
    then have "RR_RData x \<noteq> RD_nil"
      using new_RData_not_nil [of "RR_Type x"] by (auto simp: rr_invariant_def variant_tag_def)
    then have "Equal ipString x x = Inr True" by (rule Equal_refl)
    with x show "isnew ipString x S = Inr False"
      by (intro isnew_member) (simp_all add: def)
  qed
  then have "SetAdd ipString S S = Inr S" by (rule SetAdd_nothing_new)
  with one show ?thesis by simp
qed

theorem Unique_SetAdd_algebra_witness:
  "list_all rr_invariant sample_set \<and>
   ((case Unique raw_ipString sample_set of
       Inl e \<Rightarrow> False
     | Inr U \<Rightarrow> Unique raw_ipString U = Inr U \<and> length U \<le> length sample_set) \<and>
    (case SetAdd raw_ipString sample_set sample_set of
       Inl e \<Rightarrow> False
     | Inr S' \<Rightarrow> length S' = length sample_set))"
proof -
  have h: "\<forall>r \<in> set sample_set. rr_invariant r"
    by (simp add: sample_set_def rr_invariant_def sample_A_def sample_MX_def new_RData_def
        variant_tag_def TYPE_defs)
  then have "list_all rr_invariant sample_set" by (simp add: list_all_iff)
  from this Unique_SetAdd_algebra [OF h, of raw_ipString] show ?thesis by (rule conjI)
qed

text \<open>
  Claim C4. Two RRSIG records that agree in everything but the signature inception are
  \<open>Equal\<close>: the comparison of the RRSIG case leaves the inception out.
\<close>

theorem Equal_RRSIG_ignores_inception:
  "Equal ipString (sample_RRSIG 1) (sample_RRSIG 2) = Inr True \<and>
   RR_RData (sample_RRSIG 1) \<noteq> RR_RData (sample_RRSIG 2)"
  by (simp add: Equal_def sample_RRSIG_def)

theorem Equal_RRSIG_ignores_inception_witness:
  "Equal raw_ipString (sample_RRSIG 1) (sample_RRSIG 2) = Inr True"
  by (rule conjunct1 [OF Equal_RRSIG_ignores_inception])

subsection \<open>The mnemonics and the fallback variant\<close>

lemma typeStr_keys:
  "map_of typeStr n = None \<longleftrightarrow> n \<notin> set decoded_types \<and> n \<notin> set mnemonic_only_types"
  by (simp add: map_of_eq_None_iff typeStr_def decoded_types_def mnemonic_only_types_def)

lemma new_RData_fallback: "new_RData n = RD_RDATA [] \<longleftrightarrow> n \<notin> set decoded_types"
  by (simp add: new_RData_def decoded_types_def)

lemma Type_String_panics: "isl (Type_String n) \<longleftrightarrow> map_of typeStr n = None"
  by (simp add: Type_String_def split: option.splits)

lemma fmt_operand_Inr: "fmt_operand onPanic (Inr x) = Inr x"
  by (simp add: fmt_operand_def)

lemma fmt_operand_Panic:
  "fmt_operand onPanic (Inl (Panic m)) =
     (case onPanic m of None \<Rightarrow> Inl (Panic m) | Some s \<Rightarrow> Inr s)"
  by (simp add: fmt_operand_def)

lemma RR_String_no_mnemonic:
  assumes "RR_Type rr = n" "map_of typeStr n = None" "Class_String (RR_Class rr) = Inr c"
  shows "RR_String onPanic rdataString rr =
        (case onPanic (''unexpected Type '' @ decimal (unat n)) of
           None \<Rightarrow> Inl (Panic (''unexpected Type '' @ decimal (unat n)))
         | Some marker \<Rightarrow>
             (case fmt_operand onPanic (rdataString (RR_RData rr)) of
                Inl e \<Rightarrow> Inl e
              | Inr r \<Rightarrow>
                  Inr (RR_Name rr @ [TAB] @ c @ [TAB] @ decimal_int (sint (RR_TTL rr)) @ [TAB] @
                       marker @ '' '' @ r)))"
proof -
  have t: "Type_String n = Inl (Panic (''unexpected Type '' @ decimal (unat n)))"
    using assms(2) unfolding Type_String_def by (simp only: option.case)
  show ?thesis
    unfolding RR_String_def assms(1) assms(3) t fmt_operand_Inr fmt_operand_Panic
    by (cases "onPanic (''unexpected Type '' @ decimal (unat n))")
       (simp_all only: option.case sum.case)
qed

lemma RR_String_mnemonic:
  assumes "RR_Type rr = n" "map_of typeStr n = Some s" "Class_String (RR_Class rr) = Inr c"
    "rdataString (RR_RData rr) = Inr r"
  shows "RR_String onPanic rdataString rr =
     Inr (RR_Name rr @ [TAB] @ c @ [TAB] @ decimal_int (sint (RR_TTL rr)) @ [TAB] @ s @ '' '' @ r)"
proof -
  have t: "Type_String n = Inr s"
    using assms(2) unfolding Type_String_def by (simp only: option.case)
  show ?thesis
    unfolding RR_String_def assms(1) assms(3) assms(4) t fmt_operand_Inr
    by (simp only: sum.case)
qed


lemma RR_String_propagating:
  assumes "RR_Type rr = n" "map_of typeStr n = None" "\<forall>m. onPanic m = None"
  shows "isl (RR_String onPanic rdataString rr)"
proof (cases "map_of classStr (RR_Class rr)")
  case None
  with assms(3) show ?thesis
    by (simp add: RR_String_def fmt_operand_def Class_String_def)
next
  case (Some c)
  with assms show ?thesis
    by (simp add: RR_String_def fmt_operand_def Class_String_def Type_String_def)
qed

text \<open>
  Claim C10, as amended. \<open>Type.String\<close> panics for every type code without an entry in
  \<open>typeStr\<close>. Of the codes that \<open>RR.Decode\<close> maps to the opaque fallback variant it
  panics for all but the ten that have a mnemonic and no case in the decoder (MD, MF, MB,
  MG, MR, NULL, WKS, HINFO, MINFO, NSEC): for these it returns the mnemonic.
  \<open>RR.String\<close> formats the type with \<open>fmt.Sprintf\<close>, which calls \<open>Type.String\<close>.
  On a record whose type has no mnemonic and whose class has one, \<open>RR.String\<close> panics
  with the panic of \<open>Type.String\<close> where \<open>Sprintf\<close> lets the panic of a \<open>String\<close>
  method through; where \<open>Sprintf\<close> recovers from it, the text that \<open>RR.String\<close>
  returns has the marker of \<open>fmt\<close> in the place of the mnemonic. With a \<open>Sprintf\<close> that
  lets every panic through, \<open>RR.String\<close> panics on every record whose type has no
  mnemonic. On a record whose type has a mnemonic (the ten among them) \<open>RR.String\<close>
  returns the text with the mnemonic, where the class and the RDATA render.
\<close>

theorem Type_String_partial:
  "(map_of typeStr n = None \<longrightarrow>
      Type_String n = Inl (Panic (''unexpected Type '' @ decimal (unat n)))) \<and>
   (new_RData n = RD_RDATA [] \<longrightarrow>
      (isl (Type_String n) \<longleftrightarrow> n \<notin> set mnemonic_only_types)) \<and>
   (n \<in> set mnemonic_only_types \<longrightarrow> new_RData n = RD_RDATA [] \<and> \<not> isl (Type_String n)) \<and>
   (RR_Type rr = n \<and> map_of typeStr n = None \<and> Class_String (RR_Class rr) = Inr c \<longrightarrow>
      RR_String onPanic rdataString rr =
        (case onPanic (''unexpected Type '' @ decimal (unat n)) of
           None \<Rightarrow> Inl (Panic (''unexpected Type '' @ decimal (unat n)))
         | Some marker \<Rightarrow>
             (case fmt_operand onPanic (rdataString (RR_RData rr)) of
                Inl e \<Rightarrow> Inl e
              | Inr r \<Rightarrow>
                  Inr (RR_Name rr @ [TAB] @ c @ [TAB] @ decimal_int (sint (RR_TTL rr)) @ [TAB] @
                       marker @ '' '' @ r)))) \<and>
   (RR_Type rr = n \<and> map_of typeStr n = None \<and> (\<forall>m. onPanic m = None) \<longrightarrow>
      isl (RR_String onPanic rdataString rr)) \<and>
   (RR_Type rr = n \<and> map_of typeStr n = Some s \<and> Class_String (RR_Class rr) = Inr c \<and>
    rdataString (RR_RData rr) = Inr r \<longrightarrow>
      RR_String onPanic rdataString rr =
        Inr (RR_Name rr @ [TAB] @ c @ [TAB] @ decimal_int (sint (RR_TTL rr)) @ [TAB] @ s @
             '' '' @ r))"
proof (intro conjI impI)
  assume "map_of typeStr n = None"
  then show "Type_String n = Inl (Panic (''unexpected Type '' @ decimal (unat n)))"
    by (simp add: Type_String_def)
next
  assume "new_RData n = RD_RDATA []"
  then show "isl (Type_String n) \<longleftrightarrow> n \<notin> set mnemonic_only_types"
    by (simp add: Type_String_panics typeStr_keys new_RData_fallback)
next
  assume m: "n \<in> set mnemonic_only_types"
  then have "n \<notin> set decoded_types"
    by (auto simp: mnemonic_only_types_def decoded_types_def TYPE_defs)
  then show "new_RData n = RD_RDATA []" by (simp add: new_RData_fallback)
  from m show "\<not> isl (Type_String n)" by (simp add: Type_String_panics typeStr_keys)
next
  assume "RR_Type rr = n \<and> map_of typeStr n = None \<and> Class_String (RR_Class rr) = Inr c"
  then show "RR_String onPanic rdataString rr =
        (case onPanic (''unexpected Type '' @ decimal (unat n)) of
           None \<Rightarrow> Inl (Panic (''unexpected Type '' @ decimal (unat n)))
         | Some marker \<Rightarrow>
             (case fmt_operand onPanic (rdataString (RR_RData rr)) of
                Inl e \<Rightarrow> Inl e
              | Inr r \<Rightarrow>
                  Inr (RR_Name rr @ [TAB] @ c @ [TAB] @ decimal_int (sint (RR_TTL rr)) @ [TAB] @
                       marker @ '' '' @ r)))"
    by (intro RR_String_no_mnemonic [of rr n c]) blast+
next
  assume "RR_Type rr = n \<and> map_of typeStr n = None \<and> (\<forall>m. onPanic m = None)"
  then show "isl (RR_String onPanic rdataString rr)"
    by (intro RR_String_propagating [of rr n]) blast+
next
  assume "RR_Type rr = n \<and> map_of typeStr n = Some s \<and> Class_String (RR_Class rr) = Inr c \<and>
    rdataString (RR_RData rr) = Inr r"
  then show "RR_String onPanic rdataString rr =
        Inr (RR_Name rr @ [TAB] @ c @ [TAB] @ decimal_int (sint (RR_TTL rr)) @ [TAB] @ s @
             '' '' @ r)"
    by (intro RR_String_mnemonic [of rr n s c]) blast+
qed

lemma sample_fields:
  "Class_String (RR_Class sample_unknown) = Inr ''IN''"
  "Class_String (RR_Class sample_MD) = Inr ''IN''"
  "RR_Type sample_unknown = 99" "RR_Type sample_MD = TYPE_MD"
  "RR_Name sample_unknown = ''a''" "RR_Name sample_MD = ''a''"
  "decimal_int (sint (RR_TTL sample_unknown)) = ''5''"
  "decimal_int (sint (RR_TTL sample_MD)) = ''5''"
  "sample_rdataString (RR_RData sample_unknown) = Inr (CHR 0x5C # ''# 3 01 02 03'')"
  "sample_rdataString (RR_RData sample_MD) = Inr (CHR 0x5C # ''# 3 01 02 03'')"
  by (simp_all add: Class_String_def classStr_def sample_unknown_def sample_MD_def
      CLASS_NONE_def CLASS_IN_def CLASS_CS_def CLASS_CH_def CLASS_HS_def TYPE_defs
      decimal_int_def sample_rdataString_def RDATA_String_def hex_octet_def)

lemma sample_Type_String:
  "Type_String TYPE_MD = Inr ''MD''" "Type_String 99 = Inl (Panic ''unexpected Type 99'')"
  by (simp_all add: Type_String_def typeStr_def TYPE_defs)

theorem Type_String_fallback_counterexample:
  "new_RData TYPE_MD = RD_RDATA [] \<and> Type_String TYPE_MD = Inr ''MD'' \<and>
   RR_String propagating_fmt sample_rdataString sample_MD =
     Inr (''a'' @ [TAB] @ ''IN'' @ [TAB] @ ''5'' @ [TAB] @ ''MD '' @ CHR 0x5C # ''# 3 01 02 03'') \<and>
   RR_String recovering_fmt sample_rdataString sample_unknown =
     Inr (''a'' @ [TAB] @ ''IN'' @ [TAB] @ ''5'' @ [TAB] @
          ''%!s(PANIC=String method: unexpected Type 99) '' @ CHR 0x5C # ''# 3 01 02 03'')"
proof (intro conjI)
  show "new_RData TYPE_MD = RD_RDATA []" by (simp add: new_RData_def TYPE_defs)
  show "Type_String TYPE_MD = Inr ''MD''" by (rule sample_Type_String)
  show "RR_String propagating_fmt sample_rdataString sample_MD =
     Inr (''a'' @ [TAB] @ ''IN'' @ [TAB] @ ''5'' @ [TAB] @ ''MD '' @ CHR 0x5C # ''# 3 01 02 03'')"
    by (simp add: RR_String_def fmt_operand_def sample_fields sample_Type_String)
  show "RR_String recovering_fmt sample_rdataString sample_unknown =
     Inr (''a'' @ [TAB] @ ''IN'' @ [TAB] @ ''5'' @ [TAB] @
          ''%!s(PANIC=String method: unexpected Type 99) '' @ CHR 0x5C # ''# 3 01 02 03'')"
    by (simp add: RR_String_def fmt_operand_def sample_fields sample_Type_String
        recovering_fmt_def)
qed

theorem Type_String_partial_witness:
  "Type_String 99 = Inl (Panic ''unexpected Type 99'') \<and> new_RData 99 = RD_RDATA [] \<and>
   new_RData TYPE_NSEC = RD_RDATA [] \<and> \<not> isl (Type_String TYPE_NSEC) \<and>
   RR_String propagating_fmt sample_rdataString sample_unknown =
     Inl (Panic ''unexpected Type 99'')"
proof -
  have a: "map_of typeStr 99 = None" by (simp add: typeStr_def TYPE_defs)
  have d: "decimal (unat (99 :: 16 word)) = ''99''" by simp
  have m: "TYPE_NSEC \<in> set mnemonic_only_types" by (simp add: mnemonic_only_types_def)
  have f: "new_RData 99 = RD_RDATA []" by (simp add: new_RData_def TYPE_defs)
  have p: "propagating_fmt ''unexpected Type 99'' = None" by (simp add: propagating_fmt_def)
  note x = Type_String_partial [of 99 sample_unknown "''IN''" propagating_fmt sample_rdataString]
  note y = Type_String_partial [of TYPE_NSEC]
  from x a d have 1: "Type_String 99 = Inl (Panic ''unexpected Type 99'')" by simp
  from x a d p sample_fields(1,3)
  have 2: "RR_String propagating_fmt sample_rdataString sample_unknown =
     Inl (Panic ''unexpected Type 99'')" by simp
  from y m have 3: "new_RData TYPE_NSEC = RD_RDATA [] \<and> \<not> isl (Type_String TYPE_NSEC)"
    by blast
  from 1 2 3 f show ?thesis by blast
qed

subsection \<open>Addresses that do not fit\<close>

lemma append_Buf_Nil: "append_Buf [] b = b"
  by (simp add: append_Buf_def)

text \<open>
  Claim C5, as amended. For an A value whose address cannot be narrowed to 4 octets, and an
  AAAA value whose address cannot be widened or narrowed to 16, \<open>Encode\<close> as it is
  compiled (\<open>asserts = false\<close>) returns without a failure and appends nothing to the
  buffer; the same body with the assertions switched on panics.
\<close>

theorem Encode_unnarrowable_address:
  "(To4 a = None \<longrightarrow>
      A_Encode a b = Inr b \<and> ip4_Encode_checked True a b = Inl (Panic ''is not an IPv4 address'')) \<and>
   (To16 a = None \<longrightarrow>
      AAAA_Encode a b = Inr b \<and> ip6_Encode_checked True a b = Inl (Panic ''is not an IPv6 address''))"
  by (simp add: A_Encode_def AAAA_Encode_def ip4_Encode_def ip6_Encode_def ip4_Encode_checked_def
      ip6_Encode_checked_def asserts_def slice_or_nil_def append_Buf_Nil)

text \<open>
  The address \<open>::1\<close> stored in an A value and a three-octet address stored in an AAAA
  value: \<open>Encode\<close> returns, and the buffer is as it was.
\<close>

theorem Encode_unnarrowable_address_counterexample:
  "To4 [0, 0, 0, 0, 0, 0, 0, 0, 0, 0, 0, 0, 0, 0, 0, 1] = None \<and>
   A_Encode [0, 0, 0, 0, 0, 0, 0, 0, 0, 0, 0, 0, 0, 0, 0, 1] \<lparr>Buf = [], Compression = True\<rparr>
     = Inr \<lparr>Buf = [], Compression = True\<rparr> \<and>
   To16 [10, 0, 1] = None \<and>
   AAAA_Encode [10, 0, 1] \<lparr>Buf = [], Compression = True\<rparr> = Inr \<lparr>Buf = [], Compression = True\<rparr>"
  by (simp add: To4_def To16_def v4InV6Prefix_def A_Encode_def AAAA_Encode_def ip4_Encode_def
      ip6_Encode_def ip4_Encode_checked_def ip6_Encode_checked_def asserts_def slice_or_nil_def
      append_Buf_def)

theorem Encode_unnarrowable_address_witness:
  "To4 [0, 0, 0, 0, 0, 0, 0, 0, 0, 0, 0, 0, 0, 0, 0, 1] = None \<and>
   A_Encode [0, 0, 0, 0, 0, 0, 0, 0, 0, 0, 0, 0, 0, 0, 0, 1] \<lparr>Buf = [7], Compression = True\<rparr>
     = Inr \<lparr>Buf = [7], Compression = True\<rparr> \<and>
   ip4_Encode_checked True [0, 0, 0, 0, 0, 0, 0, 0, 0, 0, 0, 0, 0, 0, 0, 1]
     \<lparr>Buf = [7], Compression = True\<rparr> = Inl (Panic ''is not an IPv4 address'')"
proof -
  have h: "To4 [0, 0, 0, 0, 0, 0, 0, 0, 0, 0, 0, 0, 0, 0, 0, 1] = None"
    by (simp add: To4_def v4InV6Prefix_def)
  from Encode_unnarrowable_address [of "[0, 0, 0, 0, 0, 0, 0, 0, 0, 0, 0, 0, 0, 0, 0, 1]" "\<lparr>Buf = [7], Compression = True\<rparr>"] h
  show ?thesis by simp
qed

subsection \<open>Errors of \<open>SOA.Decode\<close>\<close>

lemma Octets4_Decode_fails: "isl (Octets4_Decode b p) \<longleftrightarrow> length b < p + 4"
  by (auto simp: Octets4_Decode_def underflow_def)

lemma Octets4_step_pos: "snd (Octets4_step b p old) = (if length b < p + 4 then p else p + 4)"
  by (simp add: Octets4_step_def Octets4_Decode_def underflow_def)

lemma error_of_Some: "(\<exists>e. error_of r = Some e) \<longleftrightarrow> isl r"
  by (cases r) (simp_all add: error_of_def)

text \<open>
  Claim C3. \<open>SOA.Decode\<close> returns an error exactly when one of the calls it makes to
  decode a field (MName, RName, Serial, Refresh, Retry, Expire, Minimum) returns one: a
  failed field never comes with a successful result. (The errors of Serial, Refresh, Retry
  and Expire are dropped where they occur; the buffer that was too short for one of them is
  too short for Minimum, whose error is returned.)
\<close>

theorem SOA_Decode_reports_failed_field:
  "(\<exists>e. Some e \<in> set (SOA_Decode_calls dnDec b pos)) \<longleftrightarrow> isl (SOA_Decode dnDec d b pos)"
proof (cases "dnDec b pos")
  case (Inl e)
  then show ?thesis by (simp add: SOA_Decode_calls_def SOA_Decode_def)
next
  case m: (Inr r1)
  obtain mname p1 where r1: "r1 = (mname, p1)" by (cases r1)
  show ?thesis
  proof (cases "dnDec b p1")
    case (Inl e)
    with m r1 show ?thesis by (simp add: SOA_Decode_calls_def SOA_Decode_def)
  next
    case r: (Inr r2)
    obtain rname p2 where r2: "r2 = (rname, p2)" by (cases r2)
    have calls: "(\<exists>e. Some e \<in> set (SOA_Decode_calls dnDec b pos)) \<longleftrightarrow>
        (isl (Octets4_Decode b p2) \<or>
         isl (Octets4_Decode b (snd (Octets4_step b p2 0))) \<or>
         isl (Octets4_Decode b (snd (Octets4_step b (snd (Octets4_step b p2 0)) 0))) \<or>
         isl (Octets4_Decode b (snd (Octets4_step b (snd (Octets4_step b (snd (Octets4_step b p2 0)) 0)) 0))) \<or>
         isl (Octets4_Decode b (snd (Octets4_step b (snd (Octets4_step b (snd (Octets4_step b (snd (Octets4_step b p2 0)) 0)) 0)) 0))))"
      using m r1 r r2
      by (simp add: SOA_Decode_calls_def Let_def error_of_Some [symmetric] ex_disj_distrib
          del: ex_simps) (metis option.distinct(1))
    have res: "isl (SOA_Decode dnDec d b pos) \<longleftrightarrow>
         isl (Octets4_Decode b (snd (Octets4_step b (snd (Octets4_step b (snd (Octets4_step b (snd (Octets4_step b p2 0)) 0)) 0)) 0)))"
      using m r1 r r2
      by (simp add: SOA_Decode_def Let_def Octets4_step_pos split_beta split: sum.splits)
    show ?thesis unfolding calls res
      by (simp add: Octets4_Decode_fails Octets4_step_pos)
  qed
qed


theorem SOA_Decode_reports_failed_field_witness:
  "SOA_Decode_calls CharString_Decode [1, 97, 1, 98, 0, 0, 0, 1, 0, 0, 0, 2, 0, 0] 0 =
     [None, None, None, None, Some (Error ''Octets4.Decode() - buffer underflow''),
      Some (Error ''Octets4.Decode() - buffer underflow''),
      Some (Error ''Octets4.Decode() - buffer underflow'')] \<and>
   isl (SOA_Decode CharString_Decode zero_SOA [1, 97, 1, 98, 0, 0, 0, 1, 0, 0, 0, 2, 0, 0] 0)"
proof -
  have calls: "SOA_Decode_calls CharString_Decode [1, 97, 1, 98, 0, 0, 0, 1, 0, 0, 0, 2, 0, 0] 0 =
     [None, None, None, None, Some (Error ''Octets4.Decode() - buffer underflow''),
      Some (Error ''Octets4.Decode() - buffer underflow''),
      Some (Error ''Octets4.Decode() - buffer underflow'')]"
    by (simp add: SOA_Decode_calls_def CharString_Decode_def Octets4_step_def Octets4_Decode_def
        underflow_def error_of_def Let_def)
  then have "\<exists>e. Some e \<in> set (SOA_Decode_calls CharString_Decode
      [1, 97, 1, 98, 0, 0, 0, 1, 0, 0, 0, 2, 0, 0] 0)"
    by simp
  with SOA_Decode_reports_failed_field [of CharString_Decode "[1, 97, 1, 98, 0, 0, 0, 1, 0, 0, 0, 2, 0, 0]" 0 zero_SOA] calls
  show ?thesis by blast
qed

subsection \<open>Round trips of the wire primitives\<close>

lemma char_of_byte_inverse: "char_of_byte (byte_of_char c) = c"
  by (simp add: byte_of_char_def char_of_byte_def unat_of_nat)

lemma map_char_of_byte_inverse: "map (char_of_byte \<circ> byte_of_char) s = s"
  by (induction s) (simp_all add: char_of_byte_inverse)

lemma Octets2_join: "push_bit 8 (ucast (ucast (drop_bit 8 v) :: byte)) OR ucast (ucast v :: byte) = (v :: 16 word)"
  by (rule bit_word_eqI) (auto simp: bit_simps)

lemma Octets4_join:
  "push_bit 24 (ucast (ucast (drop_bit 24 v) :: byte)) OR
   push_bit 16 (ucast (ucast (drop_bit 16 v) :: byte)) OR
   push_bit 8 (ucast (ucast (drop_bit 8 v) :: byte)) OR ucast (ucast v :: byte) = (v :: 32 word)"
proof (rule bit_word_eqI)
  fix n :: nat
  assume "n < LENGTH(32)"
  then have n: "n < 32" by simp
  have s: "\<And>k. k \<le> n \<Longrightarrow> k + (n - k) = n" by simp
  from n show "bit (push_bit 24 (ucast (ucast (drop_bit 24 v) :: byte)) OR
   push_bit 16 (ucast (ucast (drop_bit 16 v) :: byte)) OR
   push_bit 8 (ucast (ucast (drop_bit 8 v) :: byte)) OR ucast (ucast v :: byte) :: 32 word) n = bit v n"
    apply (simp add: bit_simps)
    apply (cases "n < 8"; cases "n < 16"; cases "n < 24"; auto simp: s)
    done
qed

lemma drop_nth0: "drop p b = x # rest \<Longrightarrow> p < length b \<and> b ! p = x"
  by (cases "p < length b") (auto simp: nth_via_drop)

lemma drop_next:
  assumes "drop p b = x # rest"
  shows "drop (p + 1) b = rest"
proof -
  have "drop (Suc p) b = tl (drop p b)" by (simp add: drop_Suc tl_drop)
  with assms show ?thesis by simp
qed

lemma drop_length: "drop p b = xs \<Longrightarrow> xs \<noteq> [] \<Longrightarrow> length b = p + length xs"
  using length_drop [of p b] by (cases xs) auto

lemma Octet_Decode_at: "drop p b = v # rest \<Longrightarrow> Octet_Decode b p = Inr (v, p + 1)"
  using drop_nth0 [of p b v rest] by (simp add: Octet_Decode_def)

lemma Octets2_Decode_at:
  assumes "drop p b = ucast (drop_bit 8 v) # ucast v # rest"
  shows "Octets2_Decode b p = Inr (v, p + 2)"
proof -
  note a = drop_nth0 [OF assms]
  have "drop (p + 1) b = ucast v # rest" using assms by (rule drop_next)
  note c = drop_nth0 [OF this]
  from a c show ?thesis by (simp add: Octets2_Decode_def Octets2_join)
qed

lemma Octets4_Decode_at:
  assumes "drop p b = ucast (drop_bit 24 v) # ucast (drop_bit 16 v) # ucast (drop_bit 8 v) # ucast v # rest"
  shows "Octets4_Decode b p = Inr (v, p + 4)"
proof -
  note a = drop_nth0 [OF assms]
  have d1: "drop (p + 1) b = ucast (drop_bit 16 v) # ucast (drop_bit 8 v) # ucast v # rest"
    using assms by (rule drop_next)
  note b = drop_nth0 [OF d1]
  have "drop (p + 1 + 1) b = ucast (drop_bit 8 v) # ucast v # rest" using d1 by (rule drop_next)
  moreover have "p + 1 + 1 = p + 2" by simp
  ultimately have d2: "drop (p + 2) b = ucast (drop_bit 8 v) # ucast v # rest" by (simp only:)
  note c = drop_nth0 [OF d2]
  have "drop (p + 2 + 1) b = ucast v # rest" using d2 by (rule drop_next)
  moreover have "p + 2 + 1 = p + 3" by simp
  ultimately have d3: "drop (p + 3) b = ucast v # rest" by (simp only:)
  note d = drop_nth0 [OF d3]
  have e: "\<not> length b < p + 4" using d by simp
  show ?thesis unfolding Octets4_Decode_def using a b c d e
    by (simp add: Octets4_join)
qed

lemma CharString_Decode_at:
  assumes "drop p b = of_nat (length s) # map byte_of_char s @ rest" "length s \<le> 255"
  shows "CharString_Decode b p = Inr (s, p + 1 + length s)"
proof -
  note a = drop_nth0 [OF assms(1)]
  from assms(2) have n: "unat (of_nat (length s) :: byte) = length s" by (simp add: unat_of_nat)
  have "drop (p + 1) b = map byte_of_char s @ rest" using assms(1) by (rule drop_next)
  then have d: "drop (Suc p) b = map byte_of_char s @ rest" by simp
  have "length b = p + length (of_nat (length s) # map byte_of_char s @ rest)"
    using assms(1) by (intro drop_length) simp_all
  then have len: "\<not> length b < p + 1 + length s" by simp
  have t: "take (length s) (map byte_of_char s @ rest) = map byte_of_char s" by simp
  show ?thesis using a n len
    by (simp add: CharString_Decode_def Let_def d t map_char_of_byte_inverse del: take_append)
qed


subsection \<open>Round trips of the variants without names\<close>

lemmas enc_defs = append_Buf_def Octet_Encode_def Octets2_Encode_def Octets4_Encode_def

lemma drop_prefix: "b = pre @ post \<Longrightarrow> p = length pre \<Longrightarrow> drop p b = post"
  by simp

lemma To4_length: "To4 a = Some x \<Longrightarrow> length x = 4"
  by (auto simp: To4_def split: if_splits)

lemma list4: "length x = 4 \<Longrightarrow> x = [x ! 0, x ! 1, x ! 2, x ! 3]"
  by (cases x; simp; rename_tac a y; case_tac y; simp; rename_tac b z; case_tac z; simp;
      rename_tac c u; case_tac u; simp)

lemma A_round_trip:
  assumes "To4 a = Some x"
  shows "A_Encode a w = Inr (append_Buf x w) \<and>
         A_Decode (Buf w @ x) (length (Buf w)) = Inr (v4InV6Prefix @ x, length (Buf w) + 4)"
proof -
  from assms have len: "length x = 4" by (rule To4_length)
  then have x: "x = [x ! 0, x ! 1, x ! 2, x ! 3]" by (rule list4)
  have "A_Decode (Buf w @ [x ! 0, x ! 1, x ! 2, x ! 3]) (length (Buf w)) =
      Inr (v4InV6Prefix @ [x ! 0, x ! 1, x ! 2, x ! 3], length (Buf w) + 4)"
    by (simp add: A_Decode_def ip4_Decode_def IPv4_def nth_append)
  with x assms show ?thesis
    by (simp add: A_Encode_def ip4_Encode_def ip4_Encode_checked_def asserts_def slice_or_nil_def)
qed

lemma AAAA_round_trip:
  assumes "length a = 16"
  shows "AAAA_Encode a w = Inr (append_Buf a w) \<and>
         AAAA_Decode (Buf w @ a) (length (Buf w)) = Inr (a, length (Buf w) + 16)"
  using assms
  by (simp add: AAAA_Encode_def ip6_Encode_def ip6_Encode_checked_def asserts_def slice_or_nil_def
      To16_def AAAA_Decode_def ip6_Decode_def)

lemma DNSKEY_round_trip:
  assumes "DNSKEY_Key d \<noteq> []"
  shows "DNSKEY_Decode (Buf (DNSKEY_Encode d w)) (length (Buf w)) =
           Inr (d, length (Buf (DNSKEY_Encode d w)))"
proof -
  define p where "p = length (Buf w)"
  define b where "b = Buf (DNSKEY_Encode d w)"
  have b: "b = Buf w @ ucast (drop_bit 8 (DNSKEY_Flags d)) # ucast (DNSKEY_Flags d) #
      DNSKEY_Protocol d # DNSKEY_Algorithm d # DNSKEY_Key d"
    by (simp add: b_def DNSKEY_Encode_def enc_defs)
  have s1: "Octets2_Decode b p = Inr (DNSKEY_Flags d, p + 2)"
    by (rule Octets2_Decode_at) (simp add: b p_def)
  have s2: "Octet_Decode b (p + 2) = Inr (DNSKEY_Protocol d, p + 2 + 1)"
    by (rule Octet_Decode_at) (simp add: b p_def)
  have s3: "Octet_Decode b (p + 2 + 1) = Inr (DNSKEY_Algorithm d, p + 2 + 1 + 1)"
    by (rule Octet_Decode_at) (simp add: b p_def)
  have r: "drop (p + 2 + 1 + 1) b = DNSKEY_Key d" "\<not> length b \<le> p + 2 + 1 + 1"
    using assms by (simp_all add: b p_def)
  have "DNSKEY_Decode b p = Inr (d, length b)"
    by (simp only: DNSKEY_Decode_def s1 s2 s3 r sum.case prod.case if_False) simp
  then show ?thesis by (simp only: b_def p_def)
qed

lemma DS_round_trip:
  assumes "DS_DigestType d = HashAlgorithmSHA1" "length (DS_Digest d) = 20"
  shows "DS_Decode (Buf (DS_Encode d w)) (length (Buf w)) = Inr (d, length (Buf (DS_Encode d w)))"
proof -
  define p where "p = length (Buf w)"
  define b where "b = Buf (DS_Encode d w)"
  have b: "b = Buf w @ ucast (drop_bit 8 (DS_KeyTag d)) # ucast (DS_KeyTag d) #
      DS_AlgorithmType d # DS_DigestType d # DS_Digest d"
    by (simp add: b_def DS_Encode_def enc_defs)
  have s1: "Octets2_Decode b p = Inr (DS_KeyTag d, p + 2)"
    by (rule Octets2_Decode_at) (simp add: b p_def)
  have s2: "Octet_Decode b (p + 2) = Inr (DS_AlgorithmType d, p + 2 + 1)"
    by (rule Octet_Decode_at) (simp add: b p_def)
  have s3: "Octet_Decode b (p + 2 + 1) = Inr (DS_DigestType d, p + 2 + 1 + 1)"
    by (rule Octet_Decode_at) (simp add: b p_def)
  have r: "take 20 (drop (p + 2 + 1 + 1) b) = DS_Digest d" "\<not> p + 2 + 1 + 1 + 20 > length b"
    "length b = p + 2 + 1 + 1 + 20"
    using assms by (simp_all add: b p_def)
  have "DS_Decode b p = Inr (d, length b)"
    by (simp only: DS_Decode_def s1 s2 s3 sum.case prod.case Let_def assms(1) r if_False
        not_True_eq_False refl simp_thms) (simp add: assms(1) [symmetric])
  then show ?thesis by (simp only: b_def p_def)
qed

lemma NODATA_round_trip:
  "NODATA_Decode (Buf (NODATA_Encode t w)) (length (Buf w)) =
     Inr (t, length (Buf (NODATA_Encode t w)))"
proof -
  have "Octets2_Decode (Buf (NODATA_Encode t w)) (length (Buf w)) = Inr (t, length (Buf w) + 2)"
    by (rule Octets2_Decode_at) (simp add: NODATA_Encode_def enc_defs)
  then show ?thesis by (simp add: NODATA_Decode_def NODATA_Encode_def enc_defs)
qed

lemma NSEC3PARAM_Encode_Buf:
  "NSEC3PARAM_Encode d w = Inr e \<Longrightarrow>
   Buf e = Buf w @ NSEC3PARAM_HashAlgorithm d # NSEC3PARAM_Flags d #
      ucast (drop_bit 8 (NSEC3PARAM_Iterations d)) # ucast (NSEC3PARAM_Iterations d) #
      of_nat (length (NSEC3PARAM_Salt d)) # NSEC3PARAM_Salt d"
  by (auto simp: NSEC3PARAM_Encode_def NSEC3PARAM_Encode_checked_def asserts_def enc_defs)

lemma NSEC3PARAM_Encode_ok: "\<exists>e. NSEC3PARAM_Encode d w = Inr e"
  by (simp add: NSEC3PARAM_Encode_def NSEC3PARAM_Encode_checked_def asserts_def)

lemma NSEC3PARAM_Decode_at:
  assumes "drop p b = NSEC3PARAM_HashAlgorithm d # NSEC3PARAM_Flags d #
      ucast (drop_bit 8 (NSEC3PARAM_Iterations d)) # ucast (NSEC3PARAM_Iterations d) #
      of_nat (length (NSEC3PARAM_Salt d)) # NSEC3PARAM_Salt d @ rest"
    and "length (NSEC3PARAM_Salt d) \<le> 255"
  shows "NSEC3PARAM_Decode b p =
      Inr (NSEC3PARAM.truncate d, p + 5 + length (NSEC3PARAM_Salt d))"
proof -
  have s1: "Octet_Decode b p = Inr (NSEC3PARAM_HashAlgorithm d, p + 1)"
    by (rule Octet_Decode_at) (rule assms(1))
  note d1 = drop_next [OF assms(1)]
  have s2: "Octet_Decode b (p + 1) = Inr (NSEC3PARAM_Flags d, p + 1 + 1)"
    by (rule Octet_Decode_at) (rule d1)
  note d2 = drop_next [OF d1]
  have s3: "Octets2_Decode b (p + 1 + 1) = Inr (NSEC3PARAM_Iterations d, p + 1 + 1 + 2)"
    by (rule Octets2_Decode_at) (rule d2)
  note d3 = drop_next [OF d2]
  note d4 = drop_next [OF d3]
  have d4': "drop (p + 1 + 1 + 2) b = of_nat (length (NSEC3PARAM_Salt d)) # NSEC3PARAM_Salt d @ rest"
    using d4 by (simp add: numeral_Bit0)
  have s4: "Octet_Decode b (p + 1 + 1 + 2) = Inr (of_nat (length (NSEC3PARAM_Salt d)), p + 1 + 1 + 2 + 1)"
    by (rule Octet_Decode_at) (rule d4')
  note d5 = drop_next [OF d4']
  from assms(2) have n: "unat (of_nat (length (NSEC3PARAM_Salt d)) :: byte) = length (NSEC3PARAM_Salt d)"
    by (simp add: unat_of_nat)
  have "length b = p + length (NSEC3PARAM_HashAlgorithm d # NSEC3PARAM_Flags d #
      ucast (drop_bit 8 (NSEC3PARAM_Iterations d)) # ucast (NSEC3PARAM_Iterations d) #
      of_nat (length (NSEC3PARAM_Salt d)) # NSEC3PARAM_Salt d @ rest)"
    using assms(1) by (intro drop_length) simp_all
  then have len: "\<not> p + 1 + 1 + 2 + 1 + length (NSEC3PARAM_Salt d) > length b" by simp
  have t: "take (length (NSEC3PARAM_Salt d)) (drop (p + 1 + 1 + 2 + 1) b) = NSEC3PARAM_Salt d"
    using d5 by simp
  show ?thesis
    by (simp only: NSEC3PARAM_Decode_def s1 s2 s3 s4 sum.case prod.case Let_def n len t if_False)
       (simp add: NSEC3PARAM.truncate_def)
qed


lemma NSEC3PARAM_round_trip:
  assumes "length (NSEC3PARAM_Salt d) \<le> 255"
  shows "case NSEC3PARAM_Encode d w of Inl e \<Rightarrow> False
         | Inr w' \<Rightarrow> NSEC3PARAM_Decode (Buf w') (length (Buf w)) = Inr (d, length (Buf w'))"
proof -
  obtain e where e: "NSEC3PARAM_Encode d w = Inr e" using NSEC3PARAM_Encode_ok by blast
  note b = NSEC3PARAM_Encode_Buf [OF e]
  have "NSEC3PARAM_Decode (Buf e) (length (Buf w)) =
      Inr (NSEC3PARAM.truncate d, length (Buf w) + 5 + length (NSEC3PARAM_Salt d))"
    by (rule NSEC3PARAM_Decode_at [where rest = "[]"]) (simp_all add: b assms)
  then show ?thesis by (simp add: e b NSEC3PARAM.truncate_def)
qed

lemma NSEC3_round_trip:
  assumes "length (NSEC3PARAM_Salt d) \<le> 255" "length (NSEC3_NextHashedOwnerName d) \<le> 65535"
  shows "case NSEC3_Encode d w of Inl e \<Rightarrow> False
         | Inr w' \<Rightarrow> NSEC3_Decode (Buf w') (length (Buf w)) = Inr (d, length (Buf w'))"
proof -
  obtain e where e: "NSEC3PARAM_Encode d w = Inr e" using NSEC3PARAM_Encode_ok by blast
  note eb = NSEC3PARAM_Encode_Buf [OF e]
  define n :: "16 word" where "n = of_nat (length (NSEC3_NextHashedOwnerName d))"
  define w' where "w' = append_Buf (NSEC3_TypeBitMaps d)
            (append_Buf (NSEC3_NextHashedOwnerName d) (Octets2_Encode n e))"
  define p where "p = length (Buf w)"
  define q where "q = p + 5 + length (NSEC3PARAM_Salt d)"
  have enc: "NSEC3_Encode d w = Inr w'"
    by (simp add: NSEC3_Encode_def e w'_def n_def)
  have b: "Buf w' = Buf w @ NSEC3PARAM_HashAlgorithm d # NSEC3PARAM_Flags d #
      ucast (drop_bit 8 (NSEC3PARAM_Iterations d)) # ucast (NSEC3PARAM_Iterations d) #
      of_nat (length (NSEC3PARAM_Salt d)) # NSEC3PARAM_Salt d @
      (ucast (drop_bit 8 n) # ucast n # NSEC3_NextHashedOwnerName d @ NSEC3_TypeBitMaps d)"
    by (simp add: w'_def eb enc_defs)
  have s1: "NSEC3PARAM_Decode (Buf w') p = Inr (NSEC3PARAM.truncate d, q)"
    unfolding q_def
    by (rule NSEC3PARAM_Decode_at) (simp_all add: b p_def assms)
  define pre where "pre = Buf w @ NSEC3PARAM_HashAlgorithm d # NSEC3PARAM_Flags d #
      ucast (drop_bit 8 (NSEC3PARAM_Iterations d)) # ucast (NSEC3PARAM_Iterations d) #
      of_nat (length (NSEC3PARAM_Salt d)) # NSEC3PARAM_Salt d"
  have q: "q = length pre" by (simp add: pre_def q_def p_def)
  have b': "Buf w' = pre @ ucast (drop_bit 8 n) # ucast n #
      NSEC3_NextHashedOwnerName d @ NSEC3_TypeBitMaps d"
    by (simp add: b pre_def)
  have s2: "Octets2_Decode (Buf w') q = Inr (n, q + 2)"
    by (rule Octets2_Decode_at [where rest = "NSEC3_NextHashedOwnerName d @ NSEC3_TypeBitMaps d"])
       (simp add: b' q)
  from assms(2) have un: "unat n = length (NSEC3_NextHashedOwnerName d)"
    by (simp add: n_def unat_of_nat)
  have r: "\<not> q + 2 + length (NSEC3_NextHashedOwnerName d) > length (Buf w')"
    "take (length (NSEC3_NextHashedOwnerName d)) (drop (q + 2) (Buf w')) = NSEC3_NextHashedOwnerName d"
    "drop (q + 2 + length (NSEC3_NextHashedOwnerName d)) (Buf w') = NSEC3_TypeBitMaps d"
    by (simp_all add: b' q)
  have "NSEC3_Decode (Buf w') p = Inr (d, length (Buf w'))"
    by (simp only: NSEC3_Decode_def s1 s2 sum.case prod.case Let_def un r if_False)
       (simp add: NSEC3PARAM.truncate_def NSEC3PARAM.extend_def)
  then show ?thesis by (simp add: enc p_def)
qed

lemma RDATA_round_trip:
  "RDATA_Decode (Buf (RDATA_Encode d w)) (length (Buf w)) = Inr (d, length (Buf (RDATA_Encode d w)))"
  by (simp add: RDATA_Decode_def RDATA_Encode_def append_Buf_def)

lemma TXT_round_trip:
  assumes "length s \<le> 255"
  shows "TXT_Decode (Buf (TXT_Encode s w)) (length (Buf w)) = Inr (s, length (Buf (TXT_Encode s w)))"
proof -
  define p where "p = length (Buf w)"
  define b where "b = Buf (TXT_Encode s w)"
  have b: "b = Buf w @ of_nat (length s) # map byte_of_char s @ []"
    by (simp add: b_def TXT_Encode_def CharString_Encode_def append_Buf_def)
  have s1: "CharString_Decode b p = Inr (s, p + 1 + length s)"
    by (rule CharString_Decode_at [where rest = "[]"]) (simp_all add: b p_def assms)
  have len: "length b = p + 1 + length s" "p < length b" by (simp_all add: b p_def)
  have "TXT_loop b (p + 1 + length s) ([] @ s) = Inr (s, p + 1 + length s)"
    by (subst TXT_loop.simps) (simp add: len)
  then have "TXT_loop b p [] = Inr (s, length b)"
    by (subst TXT_loop.simps) (simp add: len s1)
  then show ?thesis by (simp add: TXT_Decode_def b_def p_def)
qed


subsection \<open>Round trips of the variants with names\<close>

lemma rdlength_join:
  "push_bit 8 (ucast (of_nat (n div 256) :: byte)) OR ucast (of_nat n :: byte) = (of_nat n :: 16 word)"
proof -
  have d: "n div 256 = drop_bit 8 n" by (simp add: drop_bit_eq_div)
  show ?thesis
    unfolding d
  proof (rule bit_word_eqI)
    fix k :: nat
    assume "k < LENGTH(16)"
    then have k: "k < 16" by simp
    have s: "8 \<le> k \<Longrightarrow> 8 + (k - 8) = k" by simp
    from k show "bit (push_bit 8 (ucast (of_nat (drop_bit 8 n) :: byte)) OR ucast (of_nat n :: byte) :: 16 word) k
        = bit (of_nat n :: 16 word) k"
      by (cases "k < 8") (auto simp: bit_simps s)
  qed
qed

lemma patch: "(pre @ a # b # post)[length pre := x, length pre + 1 := y] = pre @ x # y # post"
  by (simp add: list_update_append)


lemma Octets2_Decode_raw:
  assumes "drop p b = of_nat (n div 256) # of_nat n # rest"
  shows "Octets2_Decode b p = Inr (of_nat n, p + 2)"
proof -
  note a = drop_nth0 [OF assms]
  have "drop (p + 1) b = of_nat n # rest" using assms by (rule drop_next)
  note c = drop_nth0 [OF this]
  from a c show ?thesis by (simp add: Octets2_Decode_def rdlength_join)
qed

lemma dn_codec_at:
  assumes "dn_codec dnEnc dnDec N" "n \<in> N" "b = Buf w @ dnEnc w n @ rest" "p = length (Buf w)"
  shows "dnDec b p = Inr (n, p + length (dnEnc w n))"
  using assms unfolding dn_codec_def by blast

lemma sample_codec: "dn_codec sample_dnEnc sample_dnDec sample_names"
  unfolding dn_codec_def sample_dnDec_def
proof (intro allI impI)
  fix w :: Wirebuf and n rest
  assume "n \<in> sample_names"
  then have n: "length n \<le> 255" by (simp add: sample_names_def)
  have "CharString_Decode (Buf w @ sample_dnEnc w n @ rest) (length (Buf w)) =
      Inr (n, length (Buf w) + 1 + length n)"
    by (rule CharString_Decode_at [where rest = rest]) (simp_all add: sample_dnEnc_def n)
  then show "CharString_Decode (Buf w @ sample_dnEnc w n @ rest) (length (Buf w)) =
      Inr (n, length (Buf w) + length (sample_dnEnc w n))"
    by (simp add: sample_dnEnc_def)
qed

lemma DomainName_round_trip:
  assumes "dn_codec dnEnc dnDec N" "n \<in> N"
  shows "dnDec (Buf (DomainName_Encode dnEnc n w)) (length (Buf w)) =
           Inr (n, length (Buf (DomainName_Encode dnEnc n w)))"
proof -
  have "dnDec (Buf (DomainName_Encode dnEnc n w)) (length (Buf w)) =
      Inr (n, length (Buf w) + length (dnEnc w n))"
    by (rule dn_codec_at [OF assms, where rest = "[]"])
       (simp_all add: DomainName_Encode_def append_Buf_def)
  then show ?thesis by (simp add: DomainName_Encode_def append_Buf_def)
qed

lemma MX_round_trip:
  assumes "dn_codec dnEnc dnDec N" "MX_Exchange d \<in> N"
  shows "MX_Decode dnDec (Buf (MX_Encode dnEnc d w)) (length (Buf w)) =
           Inr (d, length (Buf (MX_Encode dnEnc d w)))"
proof -
  define p where "p = length (Buf w)"
  define w1 where "w1 = Octets2_Encode (MX_Preference d) w"
  define b where "b = Buf (MX_Encode dnEnc d w)"
  have w1: "Buf w1 = Buf w @ [ucast (drop_bit 8 (MX_Preference d)), ucast (MX_Preference d)]"
    by (simp add: w1_def enc_defs)
  have b: "b = Buf w1 @ dnEnc w1 (MX_Exchange d) @ []"
    by (simp add: b_def MX_Encode_def DomainName_Encode_def append_Buf_def w1_def)
  have s1: "Octets2_Decode b p = Inr (MX_Preference d, p + 2)"
    by (rule Octets2_Decode_at [where rest = "dnEnc w1 (MX_Exchange d)"]) (simp add: b w1 p_def)
  have s2: "dnDec b (p + 2) = Inr (MX_Exchange d, p + 2 + length (dnEnc w1 (MX_Exchange d)))"
    by (rule dn_codec_at [OF assms b]) (simp add: w1 p_def)
  have len: "length b = p + 2 + length (dnEnc w1 (MX_Exchange d))" by (simp add: b w1 p_def)
  have "MX_Decode dnDec b p = Inr (d, length b)"
    by (simp only: MX_Decode_def s1 s2 sum.case prod.case len) simp
  then show ?thesis by (simp only: b_def p_def)
qed

lemma Octets4_step_at:
  assumes "drop p b = ucast (drop_bit 24 v) # ucast (drop_bit 16 v) # ucast (drop_bit 8 v) # ucast v # rest"
  shows "Octets4_step b p old = (v, p + 4)"
  using Octets4_Decode_at [OF assms] by (simp add: Octets4_step_def)

lemma SOA_round_trip:
  assumes "dn_codec dnEnc dnDec N" "SOA_MName d \<in> N" "SOA_RName d \<in> N"
  shows "SOA_Decode dnDec d0 (Buf (SOA_Encode dnEnc d w)) (length (Buf w)) =
           Inr (d, length (Buf (SOA_Encode dnEnc d w)))"
proof -
  define p where "p = length (Buf w)"
  define w1 where "w1 = DomainName_Encode dnEnc (SOA_MName d) w"
  define w2 where "w2 = DomainName_Encode dnEnc (SOA_RName d) w1"
  define b where "b = Buf (SOA_Encode dnEnc d w)"
  define o4 :: "32 word \<Rightarrow> bytes" where
    "o4 = (\<lambda>v. [ucast (drop_bit 24 v), ucast (drop_bit 16 v), ucast (drop_bit 8 v), ucast v])"
  define tail where "tail = o4 (SOA_Serial d) @ o4 (SOA_Refresh d) @ o4 (SOA_Retry d) @
      o4 (SOA_Expire d) @ o4 (SOA_Minimum d)"
  define p2 where "p2 = length (Buf w2)"
  have w1: "Buf w1 = Buf w @ dnEnc w (SOA_MName d)"
    by (simp add: w1_def DomainName_Encode_def append_Buf_def)
  have w2: "Buf w2 = Buf w1 @ dnEnc w1 (SOA_RName d)"
    by (simp add: w2_def DomainName_Encode_def append_Buf_def)
  have b: "b = Buf w2 @ tail"
    by (simp add: b_def SOA_Encode_def enc_defs w2_def w1_def tail_def o4_def)
  have b1: "b = Buf w @ dnEnc w (SOA_MName d) @ (dnEnc w1 (SOA_RName d) @ tail)"
    by (simp add: b w2 w1)
  have b2: "b = Buf w1 @ dnEnc w1 (SOA_RName d) @ tail"
    by (simp add: b w2)
  have s1: "dnDec b p = Inr (SOA_MName d, p + length (dnEnc w (SOA_MName d)))"
    by (rule dn_codec_at [OF assms(1,2) b1]) (simp add: p_def)
  have p1: "p + length (dnEnc w (SOA_MName d)) = length (Buf w1)" by (simp add: w1 p_def)
  have s2: "dnDec b (length (Buf w1)) = Inr (SOA_RName d, length (Buf w1) + length (dnEnc w1 (SOA_RName d)))"
    by (rule dn_codec_at [OF assms(1,3) b2]) simp
  have p2: "length (Buf w1) + length (dnEnc w1 (SOA_RName d)) = p2" by (simp add: w2 p2_def)
  have s3: "Octets4_step b p2 (SOA_Serial d0) = (SOA_Serial d, p2 + 4)"
    by (rule Octets4_step_at [where rest = "o4 (SOA_Refresh d) @ o4 (SOA_Retry d) @
      o4 (SOA_Expire d) @ o4 (SOA_Minimum d)"]) (simp add: b p2_def tail_def o4_def)
  have s4: "Octets4_step b (p2 + 4) (SOA_Refresh d0) = (SOA_Refresh d, p2 + 4 + 4)"
    by (rule Octets4_step_at [where rest = "o4 (SOA_Retry d) @
      o4 (SOA_Expire d) @ o4 (SOA_Minimum d)"]) (simp add: b p2_def tail_def o4_def)
  have s5: "Octets4_step b (p2 + 4 + 4) (SOA_Retry d0) = (SOA_Retry d, p2 + 4 + 4 + 4)"
    by (rule Octets4_step_at [where rest = "o4 (SOA_Expire d) @ o4 (SOA_Minimum d)"])
       (simp add: b p2_def tail_def o4_def)
  have s6: "Octets4_step b (p2 + 4 + 4 + 4) (SOA_Expire d0) = (SOA_Expire d, p2 + 4 + 4 + 4 + 4)"
    by (rule Octets4_step_at [where rest = "o4 (SOA_Minimum d)"])
       (simp add: b p2_def tail_def o4_def)
  have s7: "Octets4_Decode b (p2 + 4 + 4 + 4 + 4) = Inr (SOA_Minimum d, p2 + 4 + 4 + 4 + 4 + 4)"
    by (rule Octets4_Decode_at [where rest = "[]"]) (simp add: b p2_def tail_def o4_def)
  have len: "length b = p2 + 4 + 4 + 4 + 4 + 4" by (simp add: b p2_def tail_def o4_def)
  have "SOA_Decode dnDec d0 b p = Inr (d, length b)"
    by (simp only: SOA_Decode_def s1 p1 s2 p2 s3 s4 s5 s6 s7 sum.case prod.case Let_def len) simp
  then show ?thesis by (simp only: b_def p_def)
qed


lemma RRSIG_round_trip:
  assumes "dn_codec dnEnc dnDec N" "RRSIG_Name r \<in> N" "RRSIG_Signature r \<noteq> []"
  shows "RRSIG_Decode dnDec (Buf (RRSIG_Encode dnEnc r w)) (length (Buf w)) =
           Inr (r, length (Buf (RRSIG_Encode dnEnc r w)))"
proof -
  define p where "p = length (Buf w)"
  define o2 :: "16 word \<Rightarrow> bytes" where "o2 = (\<lambda>v. [ucast (drop_bit 8 v), ucast v])"
  define o4 :: "32 word \<Rightarrow> bytes" where
    "o4 = (\<lambda>v. [ucast (drop_bit 24 v), ucast (drop_bit 16 v), ucast (drop_bit 8 v), ucast v])"
  define w7 where "w7 = DisableCompression
             (Octets2_Encode (RRSIG_KeyTag r)
               (Octets4_Encode (RRSIG_Inception r)
                 (Octets4_Encode (RRSIG_Expiration r)
                   (Octets4_Encode (RRSIG_TTL r)
                     (Octet_Encode (RRSIG_Labels r)
                       (Octet_Encode (RRSIG_AlgorithmType r)
                         (Octets2_Encode (RRSIG_Type r) w)))))))"
  define b where "b = Buf (RRSIG_Encode dnEnc r w)"
  define nm where "nm = dnEnc w7 (RRSIG_Name r)"
  have w7: "Buf w7 = Buf w @ o2 (RRSIG_Type r) @ [RRSIG_AlgorithmType r] @ [RRSIG_Labels r] @
      o4 (RRSIG_TTL r) @ o4 (RRSIG_Expiration r) @ o4 (RRSIG_Inception r) @ o2 (RRSIG_KeyTag r)"
    by (simp add: w7_def DisableCompression_def enc_defs o2_def o4_def)
  have b: "b = Buf w7 @ nm @ RRSIG_Signature r"
    by (simp add: b_def RRSIG_Encode_def w7_def [symmetric] EnableCompression_def
        DomainName_Encode_def append_Buf_def nm_def)
  have bw: "b = Buf w @ o2 (RRSIG_Type r) @ [RRSIG_AlgorithmType r] @ [RRSIG_Labels r] @
      o4 (RRSIG_TTL r) @ o4 (RRSIG_Expiration r) @ o4 (RRSIG_Inception r) @ o2 (RRSIG_KeyTag r) @
      nm @ RRSIG_Signature r"
    by (simp add: b w7)
  have s1: "Octets2_Decode b p = Inr (RRSIG_Type r, p + 2)"
    by (rule Octets2_Decode_at [where rest = "[RRSIG_AlgorithmType r] @ [RRSIG_Labels r] @
      o4 (RRSIG_TTL r) @ o4 (RRSIG_Expiration r) @ o4 (RRSIG_Inception r) @ o2 (RRSIG_KeyTag r) @
      nm @ RRSIG_Signature r"]) (simp add: bw p_def o2_def)
  have s2: "Octet_Decode b (p + 2) = Inr (RRSIG_AlgorithmType r, p + 2 + 1)"
    by (rule Octet_Decode_at [where rest = "[RRSIG_Labels r] @
      o4 (RRSIG_TTL r) @ o4 (RRSIG_Expiration r) @ o4 (RRSIG_Inception r) @ o2 (RRSIG_KeyTag r) @
      nm @ RRSIG_Signature r"]) (simp add: bw p_def o2_def)
  have s3: "Octet_Decode b (p + 2 + 1) = Inr (RRSIG_Labels r, p + 2 + 1 + 1)"
    by (rule Octet_Decode_at [where rest = "o4 (RRSIG_TTL r) @ o4 (RRSIG_Expiration r) @
      o4 (RRSIG_Inception r) @ o2 (RRSIG_KeyTag r) @ nm @ RRSIG_Signature r"])
       (simp add: bw p_def o2_def)
  have s4: "Octets4_Decode b (p + 2 + 1 + 1) = Inr (RRSIG_TTL r, p + 2 + 1 + 1 + 4)"
    by (rule Octets4_Decode_at [where rest = "o4 (RRSIG_Expiration r) @
      o4 (RRSIG_Inception r) @ o2 (RRSIG_KeyTag r) @ nm @ RRSIG_Signature r"])
       (simp add: bw p_def o2_def o4_def)
  have s5: "Octets4_Decode b (p + 2 + 1 + 1 + 4) = Inr (RRSIG_Expiration r, p + 2 + 1 + 1 + 4 + 4)"
    by (rule Octets4_Decode_at [where rest = "o4 (RRSIG_Inception r) @ o2 (RRSIG_KeyTag r) @
      nm @ RRSIG_Signature r"])
       (simp add: bw p_def o2_def o4_def)
  have s6: "Octets4_Decode b (p + 2 + 1 + 1 + 4 + 4) =
      Inr (RRSIG_Inception r, p + 2 + 1 + 1 + 4 + 4 + 4)"
    by (rule Octets4_Decode_at [where rest = "o2 (RRSIG_KeyTag r) @ nm @ RRSIG_Signature r"])
       (simp add: bw p_def o2_def o4_def)
  have s7: "Octets2_Decode b (p + 2 + 1 + 1 + 4 + 4 + 4) =
      Inr (RRSIG_KeyTag r, p + 2 + 1 + 1 + 4 + 4 + 4 + 2)"
    by (rule Octets2_Decode_at [where rest = "nm @ RRSIG_Signature r"])
       (simp add: bw p_def o2_def o4_def)
  have p7: "p + 2 + 1 + 1 + 4 + 4 + 4 + 2 = length (Buf w7)"
    by (simp add: w7 p_def o2_def o4_def)
  have s8: "dnDec b (length (Buf w7)) = Inr (RRSIG_Name r, length (Buf w7) + length nm)"
    unfolding nm_def
    by (rule dn_codec_at [OF assms(1,2)]) (simp_all add: b nm_def)
  have r: "\<not> length b \<le> length (Buf w7) + length nm"
    "drop (length (Buf w7) + length nm) b = RRSIG_Signature r"
    using assms(3) by (simp_all add: b)
  have "RRSIG_Decode dnDec b p = Inr (r, length b)"
    by (simp only: RRSIG_Decode_def s1 s2 s3 s4 s5 s6 s7 p7 s8 r sum.case prod.case if_False) simp
  then show ?thesis by (simp only: b_def p_def)
qed


subsection \<open>The round trip of every variant\<close>

lemma canonical_fixed:
  assumes "rdata_legal v"
  shows "canonical v = v \<longleftrightarrow> (\<forall>a. v = RD_A a \<longrightarrow> length a = 16)"
proof (cases v)
  case (RD_A a)
  from assms RD_A obtain x where x: "To4 a = Some x" by (auto simp: rdata_legal_def)
  then have lx: "length x = 4" by (rule To4_length)
  show ?thesis
  proof (cases "length a = 16")
    case True
    with x have "take 12 a = v4InV6Prefix" "x = drop 12 a"
      by (auto simp: To4_def split: if_splits)
    then have "v4InV6Prefix @ x = a" by (metis append_take_drop_id)
    with True x show ?thesis by (simp add: RD_A canonical_def slice_or_nil_def)
  next
    case False
    have "length (v4InV6Prefix @ x) = 16" by (simp add: lx v4InV6Prefix_def)
    with False have "v4InV6Prefix @ x \<noteq> a" by metis
    with False x show ?thesis by (simp add: RD_A canonical_def slice_or_nil_def)
  qed
qed (simp_all add: canonical_def)

text \<open>
  Claim C1, as amended. For every RDATA variant value that satisfies the widths and lengths
  of its wire layout (\<open>rdata_legal\<close>), with names that the domain-name codec carries,
  decoding the bytes that encoding appended, from where they start and with the input
  ending where they end, succeeds, consumes them all and yields the value field for field,
  except that the address of an A value comes back in the sixteen-octet form of
  \<open>net.IPv4\<close>: an A value stored in that form comes back as it is, one stored in four
  octets comes back as the sixteen octets of the same address.
\<close>

theorem RData_round_trip:
  assumes "dn_codec dnEnc dnDec N" and "set (rdata_names v) \<subseteq> N" and "rdata_legal v"
    and "variant_tag d0 = variant_tag v"
  shows "(case RData_Encode dnEnc v w of
            Inl e \<Rightarrow> False
          | Inr w' \<Rightarrow>
              RData_Decode dnDec d0 (Buf w') (length (Buf w)) =
                Inr (canonical v, length (Buf w'))) \<and>
         (canonical v = v \<longleftrightarrow> (\<forall>a. v = RD_A a \<longrightarrow> length a = 16))"
proof
  show "canonical v = v \<longleftrightarrow> (\<forall>a. v = RD_A a \<longrightarrow> length a = 16)"
    using assms(3) by (rule canonical_fixed)
  show "case RData_Encode dnEnc v w of
            Inl e \<Rightarrow> False
          | Inr w' \<Rightarrow>
              RData_Decode dnDec d0 (Buf w') (length (Buf w)) =
                Inr (canonical v, length (Buf w'))"
  proof (cases v)
    case (RD_A a)
    with assms(4) obtain x0 where d0: "d0 = RD_A x0" by (cases d0) (simp_all add: variant_tag_def)
    from assms(3) RD_A obtain x where x: "To4 a = Some x" by (auto simp: rdata_legal_def)
    from A_round_trip [OF x, of w] x To4_length [OF x] show ?thesis
      by (simp add: RD_A d0 RData_Encode_def RData_Decode_def decoded_def canonical_def
          slice_or_nil_def append_Buf_def)
  next
    case (RD_AAAA a)
    with assms(4) obtain x0 where d0: "d0 = RD_AAAA x0" by (cases d0) (simp_all add: variant_tag_def)
    from assms(3) RD_AAAA have la: "length a = 16" by (simp add: rdata_legal_def)
    from AAAA_round_trip [OF la, of w] la show ?thesis
      by (simp add: RD_AAAA d0 RData_Encode_def RData_Decode_def decoded_def canonical_def
          append_Buf_def)
  next
    case (RD_CNAME n)
    with assms(4) obtain x0 where d0: "d0 = RD_CNAME x0" by (cases d0) (simp_all add: variant_tag_def)
    from assms(2) RD_CNAME have "n \<in> N" by (simp add: rdata_names_def)
    from DomainName_round_trip [OF assms(1) this, of w] show ?thesis
      by (simp add: RD_CNAME d0 RData_Encode_def RData_Decode_def decoded_def canonical_def
          CNAME_Encode_def CNAME_Decode_def)
  next
    case (RD_NS n)
    with assms(4) obtain x0 where d0: "d0 = RD_NS x0" by (cases d0) (simp_all add: variant_tag_def)
    from assms(2) RD_NS have "n \<in> N" by (simp add: rdata_names_def)
    from DomainName_round_trip [OF assms(1) this, of w] show ?thesis
      by (simp add: RD_NS d0 RData_Encode_def RData_Decode_def decoded_def canonical_def
          NS_Encode_def NS_Decode_def)
  next
    case (RD_PTR n)
    with assms(4) obtain x0 where d0: "d0 = RD_PTR x0" by (cases d0) (simp_all add: variant_tag_def)
    from assms(2) RD_PTR have "n \<in> N" by (simp add: rdata_names_def)
    from DomainName_round_trip [OF assms(1) this, of w] show ?thesis
      by (simp add: RD_PTR d0 RData_Encode_def RData_Decode_def decoded_def canonical_def
          PTR_Encode_def PTR_Decode_def)
  next
    case (RD_DNSKEY k)
    with assms(4) obtain x0 where d0: "d0 = RD_DNSKEY x0" by (cases d0) (simp_all add: variant_tag_def)
    from assms(3) RD_DNSKEY have "DNSKEY_Key k \<noteq> []" by (simp add: rdata_legal_def)
    from DNSKEY_round_trip [OF this, of w] show ?thesis
      by (simp add: RD_DNSKEY d0 RData_Encode_def RData_Decode_def decoded_def canonical_def)
  next
    case (RD_DS k)
    with assms(4) obtain x0 where d0: "d0 = RD_DS x0" by (cases d0) (simp_all add: variant_tag_def)
    from assms(3) RD_DS have "DS_DigestType k = HashAlgorithmSHA1" "length (DS_Digest k) = 20"
      by (simp_all add: rdata_legal_def)
    from DS_round_trip [OF this, of w] show ?thesis
      by (simp add: RD_DS d0 RData_Encode_def RData_Decode_def decoded_def canonical_def)
  next
    case (RD_MX m)
    with assms(4) obtain x0 where d0: "d0 = RD_MX x0" by (cases d0) (simp_all add: variant_tag_def)
    from assms(2) RD_MX have "MX_Exchange m \<in> N" by (simp add: rdata_names_def)
    from MX_round_trip [OF assms(1) this, of w] show ?thesis
      by (simp add: RD_MX d0 RData_Encode_def RData_Decode_def decoded_def canonical_def)
  next
    case (RD_NODATA t)
    with assms(4) obtain x0 where d0: "d0 = RD_NODATA x0" by (cases d0) (simp_all add: variant_tag_def)
    from NODATA_round_trip [of t w] show ?thesis
      by (simp add: RD_NODATA d0 RData_Encode_def RData_Decode_def decoded_def canonical_def)
  next
    case RD_NXDOMAIN
    with assms(4) have d0: "d0 = RD_NXDOMAIN" by (cases d0) (simp_all add: variant_tag_def)
    show ?thesis
      by (simp add: RD_NXDOMAIN d0 RData_Encode_def RData_Decode_def canonical_def
          NXDOMAIN_Encode_def NXDOMAIN_Decode_def)
  next
    case (RD_NSEC3 k)
    with assms(4) obtain x0 where d0: "d0 = RD_NSEC3 x0" by (cases d0) (simp_all add: variant_tag_def)
    from assms(3) RD_NSEC3 have "length (NSEC3PARAM_Salt k) \<le> 255"
      "length (NSEC3_NextHashedOwnerName k) \<le> 65535"
      by (simp_all add: rdata_legal_def)
    from NSEC3_round_trip [OF this, of w] show ?thesis
      by (auto simp: RD_NSEC3 d0 RData_Encode_def RData_Decode_def decoded_def canonical_def
          split: sum.splits)
  next
    case (RD_NSEC3PARAM k)
    with assms(4) obtain x0 where d0: "d0 = RD_NSEC3PARAM x0" by (cases d0) (simp_all add: variant_tag_def)
    from assms(3) RD_NSEC3PARAM have "length (NSEC3PARAM_Salt k) \<le> 255"
      by (simp add: rdata_legal_def)
    from NSEC3PARAM_round_trip [OF this, of w] show ?thesis
      by (auto simp: RD_NSEC3PARAM d0 RData_Encode_def RData_Decode_def decoded_def canonical_def
          split: sum.splits)
  next
    case (RD_RRSIG k)
    with assms(4) obtain x0 where d0: "d0 = RD_RRSIG x0" by (cases d0) (simp_all add: variant_tag_def)
    from assms(2,3) RD_RRSIG have "RRSIG_Name k \<in> N" "RRSIG_Signature k \<noteq> []"
      by (simp_all add: rdata_names_def rdata_legal_def)
    from RRSIG_round_trip [OF assms(1) this, of w] show ?thesis
      by (simp add: RD_RRSIG d0 RData_Encode_def RData_Decode_def decoded_def canonical_def)
  next
    case (RD_SOA k)
    with assms(4) obtain x0 where d0: "d0 = RD_SOA x0" by (cases d0) (simp_all add: variant_tag_def)
    from assms(2) RD_SOA have "SOA_MName k \<in> N" "SOA_RName k \<in> N"
      by (simp_all add: rdata_names_def)
    from SOA_round_trip [OF assms(1) this, of x0 w] show ?thesis
      by (simp add: RD_SOA d0 RData_Encode_def RData_Decode_def decoded_def canonical_def)
  next
    case (RD_TXT t)
    with assms(4) obtain x0 where d0: "d0 = RD_TXT x0" by (cases d0) (simp_all add: variant_tag_def)
    from assms(3) RD_TXT have "length t \<le> 255" by (simp add: rdata_legal_def)
    from TXT_round_trip [OF this, of w] show ?thesis
      by (simp add: RD_TXT d0 RData_Encode_def RData_Decode_def decoded_def canonical_def)
  next
    case (RD_RDATA x)
    with assms(4) obtain x0 where d0: "d0 = RD_RDATA x0" by (cases d0) (simp_all add: variant_tag_def)
    from RDATA_round_trip [of x w] show ?thesis
      by (simp add: RD_RDATA d0 RData_Encode_def RData_Decode_def decoded_def canonical_def)
  next
    case RD_nil
    with assms(3) show ?thesis by (simp add: rdata_legal_def)
  qed
qed

theorem RData_round_trip_witness:
  "rdata_legal sample_rdata \<and>
   (case RData_Encode sample_dnEnc sample_rdata empty_Wirebuf of
      Inl e \<Rightarrow> False
    | Inr w' \<Rightarrow>
        RData_Decode sample_dnDec (new_RData TYPE_MX) (Buf w') 0 =
          Inr (sample_rdata, length (Buf w')))"
proof -
  have h2: "set (rdata_names sample_rdata) \<subseteq> sample_names"
    by (simp add: rdata_names_def sample_rdata_def sample_names_def)
  have h3: "rdata_legal sample_rdata" by (simp add: rdata_legal_def sample_rdata_def)
  have h4: "variant_tag (new_RData TYPE_MX) = variant_tag sample_rdata"
    by (simp add: variant_tag_def new_RData_def sample_rdata_def TYPE_defs)
  have c: "canonical sample_rdata = sample_rdata" by (simp add: canonical_def sample_rdata_def)
  have z: "length (Buf empty_Wirebuf) = 0" by (simp add: empty_Wirebuf_def)
  note t = RData_round_trip [OF sample_codec h2 h3 h4, of empty_Wirebuf, unfolded z c]
  from h3 conjunct1 [OF t] show ?thesis by (rule conjI)
qed

text \<open>
  The A value with the four octets 192.0.2.1 is encoded as these four octets, which decode
  to sixteen.
\<close>

theorem RData_round_trip_counterexample:
  "RData_Encode sample_dnEnc (RD_A [192, 0, 2, 1]) empty_Wirebuf =
     Inr \<lparr>Buf = [192, 0, 2, 1], Compression = True\<rparr> \<and>
   RData_Decode sample_dnDec (new_RData TYPE_A) [192, 0, 2, 1] 0 =
     Inr (RD_A [0, 0, 0, 0, 0, 0, 0, 0, 0, 0, 0xff, 0xff, 192, 0, 2, 1], 4) \<and>
   RD_A [0, 0, 0, 0, 0, 0, 0, 0, 0, 0, 0xff, 0xff, 192, 0, 2, 1] \<noteq> RD_A [192, 0, 2, 1]"
  by (simp add: RData_Encode_def RData_Decode_def A_Encode_def A_Decode_def ip4_Encode_def
      ip4_Encode_checked_def ip4_Decode_def asserts_def To4_def slice_or_nil_def append_Buf_def
      empty_Wirebuf_def decoded_def new_RData_def IPv4_def v4InV6Prefix_def)


subsection \<open>Records of unknown types\<close>

lemma RR_Encode_RDATA:
  assumes "RR_RData rr = RD_RDATA d"
  shows "\<exists>w'. RR_Encode dnEnc rr w = Inr w' \<and>
     Buf w' = Buf w @ dnEnc w (RR_Name rr) @
       ucast (drop_bit 8 (RR_Type rr)) # ucast (RR_Type rr) #
       ucast (drop_bit 8 (RR_Class rr)) # ucast (RR_Class rr) #
       ucast (drop_bit 24 (RR_TTL rr)) # ucast (drop_bit 16 (RR_TTL rr)) #
       ucast (drop_bit 8 (RR_TTL rr)) # ucast (RR_TTL rr) #
       of_nat (length d div 256) # of_nat (length d) # d"
proof -
  define b4 where "b4 = Octets4_Encode (RR_TTL rr)
                (Octets2_Encode (RR_Class rr)
                  (Octets2_Encode (RR_Type rr)
                    (DomainName_Encode dnEnc (RR_Name rr) w)))"
  define b6 where "b6 = append_Buf d (append_Buf [0, 0] b4)"
  have b4: "Buf b4 = Buf w @ dnEnc w (RR_Name rr) @
       [ucast (drop_bit 8 (RR_Type rr)), ucast (RR_Type rr),
       ucast (drop_bit 8 (RR_Class rr)), ucast (RR_Class rr),
       ucast (drop_bit 24 (RR_TTL rr)), ucast (drop_bit 16 (RR_TTL rr)),
       ucast (drop_bit 8 (RR_TTL rr)), ucast (RR_TTL rr)]"
    by (simp add: b4_def enc_defs DomainName_Encode_def)
  have b6: "Buf b6 = Buf b4 @ 0 # 0 # d" by (simp add: b6_def append_Buf_def)
  have n: "length (Buf b6) - (length (Buf b4) + 2) = length d"
    "length (Buf b6) - Suc (Suc (length (Buf b4))) = length d" by (simp_all add: b6)
  have enc: "RR_Encode dnEnc rr w =
      Inr (b6\<lparr>Buf := (Buf b6)[length (Buf b4) := of_nat (length d div 256),
                               length (Buf b4) + 1 := of_nat (length d)]\<rparr>)"
    unfolding RR_Encode_def b4_def [symmetric] Let_def
    by (simp add: assms RData_Encode_def RDATA_Encode_def b6_def [symmetric] n)
  have "(Buf b6)[length (Buf b4) := of_nat (length d div 256), length (Buf b4) + 1 := of_nat (length d)]
      = Buf b4 @ of_nat (length d div 256) # of_nat (length d) # d"
    unfolding b6 by (rule patch)
  with enc b4 show ?thesis by simp
qed

lemma Octets2_Decode_bound: "Octets2_Decode b p = Inr (v, q) \<Longrightarrow> q \<le> length b"
  by (auto simp: Octets2_Decode_def underflow_def split: if_splits)

lemma RR_Decode_uncased:
  assumes ty: "t \<notin> set decoded_types"
    and h: "dnDec b pos = Inr (name, p1)" "Octets2_Decode b p1 = Inr (t, p2)"
      "Octets2_Decode b p2 = Inr (cls, p3)" "Octets4_Decode b p3 = Inr (ttl, p4)"
      "Octets2_Decode b p4 = Inr (rdlength, p5)"
  shows "RR_Decode dnDec b spare pos =
    (if p5 + unat rdlength > length b + length spare
     then Inl (Panic ''slice bounds out of range'')
     else Inr (\<lparr>RR_Name = name, RR_Type = t, RR_Class = cls, RR_TTL = ttl,
                RR_RData = RD_RDATA (take (unat rdlength) (drop p5 (b @ spare)))\<rparr>,
               p5 + unat rdlength))"
proof -
  from ty have fb: "new_RData t = RD_RDATA []" by (simp add: new_RData_fallback)
  from h(5) have p5: "p5 \<le> length b" by (rule Octets2_Decode_bound)
  have rd: "RData_Decode dnDec (RD_RDATA []) (take (p5 + unat rdlength) (b @ spare)) p5 =
      Inr (RD_RDATA (take (unat rdlength) (drop p5 (b @ spare))), p5 + unat rdlength)"
    if "\<not> p5 + unat rdlength > length b + length spare"
  proof -
    from that have len: "length (take (p5 + unat rdlength) (b @ spare)) = p5 + unat rdlength"
      by simp
    have dr: "drop p5 (take (p5 + unat rdlength) (b @ spare)) =
        take (unat rdlength) (drop p5 (b @ spare))"
      by (simp only: drop_take add_diff_cancel_left')
    show ?thesis
      unfolding RData_Decode_def decoded_def RDATA_Decode_def
      by (simp only: rdata.case len dr) simp
  qed
  show ?thesis
  proof (cases "p5 + unat rdlength > length b + length spare")
    case True
    then show ?thesis by (simp add: RR_Decode_def h)
  next
    case False
    from rd [OF False] False show ?thesis by (simp add: RR_Decode_def h fb)
  qed
qed

lemma RR_round_trip_RDATA:
  assumes codec: "dn_codec dnEnc dnDec N" and nm: "RR_Name rr \<in> N"
    and rd: "RR_RData rr = RD_RDATA d" and len: "length d \<le> 65535"
    and ty: "RR_Type rr \<notin> set decoded_types"
  shows "case RR_Encode dnEnc rr w of Inl e \<Rightarrow> False
         | Inr w' \<Rightarrow> RR_Decode dnDec (Buf w') spare (length (Buf w)) = Inr (rr, length (Buf w'))"
proof -
  define o2 :: "16 word \<Rightarrow> bytes" where "o2 = (\<lambda>v. [ucast (drop_bit 8 v), ucast v])"
  define o4 :: "32 word \<Rightarrow> bytes" where
    "o4 = (\<lambda>v. [ucast (drop_bit 24 v), ucast (drop_bit 16 v), ucast (drop_bit 8 v), ucast v])"
  define nmb where "nmb = dnEnc w (RR_Name rr)"
  define lenb :: bytes where "lenb = [of_nat (length d div 256), of_nat (length d)]"
  from RR_Encode_RDATA [OF rd, of dnEnc w] obtain w' where
    enc: "RR_Encode dnEnc rr w = Inr w'" and
    b: "Buf w' = Buf w @ nmb @ o2 (RR_Type rr) @ o2 (RR_Class rr) @ o4 (RR_TTL rr) @ lenb @ d"
    by (auto simp: o2_def o4_def nmb_def lenb_def)
  define b' where "b' = Buf w'"
  define p where "p = length (Buf w)"
  define p1 where "p1 = length (Buf w @ nmb)"
  have s1: "dnDec b' p = Inr (RR_Name rr, p + length (dnEnc w (RR_Name rr)))"
    by (rule dn_codec_at [OF codec nm, where rest = "o2 (RR_Type rr) @ o2 (RR_Class rr) @
      o4 (RR_TTL rr) @ lenb @ d"]) (simp_all add: b'_def b nmb_def p_def)
  have p1: "p + length (dnEnc w (RR_Name rr)) = p1" by (simp add: p1_def p_def nmb_def)
  have s2: "Octets2_Decode b' p1 = Inr (RR_Type rr, p1 + 2)"
    by (rule Octets2_Decode_at [where rest = "o2 (RR_Class rr) @ o4 (RR_TTL rr) @ lenb @ d"])
       (rule drop_prefix [where pre = "Buf w @ nmb"], simp_all add: b'_def b p1_def o2_def)
  have s3: "Octets2_Decode b' (p1 + 2) = Inr (RR_Class rr, p1 + 2 + 2)"
    by (rule Octets2_Decode_at [where rest = "o4 (RR_TTL rr) @ lenb @ d"])
       (rule drop_prefix [where pre = "Buf w @ nmb @ o2 (RR_Type rr)"],
        simp_all add: b'_def b p1_def o2_def)
  have s4: "Octets4_Decode b' (p1 + 2 + 2) = Inr (RR_TTL rr, p1 + 2 + 2 + 4)"
    by (rule Octets4_Decode_at [where rest = "lenb @ d"])
       (rule drop_prefix [where pre = "Buf w @ nmb @ o2 (RR_Type rr) @ o2 (RR_Class rr)"],
        simp_all add: b'_def b p1_def o2_def o4_def)
  have s5: "Octets2_Decode b' (p1 + 2 + 2 + 4) = Inr (of_nat (length d), p1 + 2 + 2 + 4 + 2)"
    by (rule Octets2_Decode_raw [where rest = d])
       (rule drop_prefix [where pre = "Buf w @ nmb @ o2 (RR_Type rr) @ o2 (RR_Class rr) @
          o4 (RR_TTL rr)"], simp_all add: b'_def b p1_def o2_def o4_def lenb_def)
  from len have un: "unat (of_nat (length d) :: 16 word) = length d" by (simp add: unat_of_nat)
  have total: "p1 + 2 + 2 + 4 + 2 + length d = length b'"
    by (simp add: b'_def b p1_def o2_def o4_def lenb_def)
  have "drop (p1 + 2 + 2 + 4 + 2) b' = d"
    by (rule drop_prefix [where pre = "Buf w @ nmb @ o2 (RR_Type rr) @ o2 (RR_Class rr) @
          o4 (RR_TTL rr) @ lenb"]) (simp_all add: b'_def b p1_def o2_def o4_def lenb_def)
  moreover have "p1 + 2 + 2 + 4 + 2 \<le> length b'" using total by simp
  ultimately have dr: "take (length d) (drop (p1 + 2 + 2 + 4 + 2) (b' @ spare)) = d"
    by simp
  have le: "\<not> p1 + 2 + 2 + 4 + 2 + length d > length b' + length spare" using total by simp
  note dec = RR_Decode_uncased [where dnDec = dnDec and b = b' and pos = p and spare = spare,
      OF ty s1 [unfolded p1] s2 s3 s4 s5, unfolded un dr]
  have "RR_Decode dnDec b' spare p = Inr (rr, length b')"
    unfolding dec using le total by (simp add: rd [symmetric])
  with enc show ?thesis by (simp add: b'_def p_def)
qed

text \<open>
  Claim C2. Take an input whose header decodes (owner name, type, class, TTL and RDATA
  length) with a type code \<open>t\<close> that has no case in the \<open>switch\<close> of \<open>RR.Decode\<close>.
  The decoder builds the opaque fallback variant, and \<open>RR.Decode\<close> returns no error: it
  returns the record whose RDATA is the opaque variant holding exactly the octets that the
  RDATA length counts (the slice expression alone can panic, where it ends beyond the
  capacity). Encoding that record and decoding it again gives the same record, so the same
  opaque octets, where the owner name is one that the domain-name codec carries.
\<close>

theorem RR_Decode_unknown_type:
  assumes "t \<notin> set decoded_types"
    and "dnDec b pos = Inr (name, p1)" and "Octets2_Decode b p1 = Inr (t, p2)"
    and "Octets2_Decode b p2 = Inr (cls, p3)" and "Octets4_Decode b p3 = Inr (ttl, p4)"
    and "Octets2_Decode b p4 = Inr (rdlength, p5)"
  shows "let rr = \<lparr>RR_Name = name, RR_Type = t, RR_Class = cls, RR_TTL = ttl,
                   RR_RData = RD_RDATA (take (unat rdlength) (drop p5 (b @ spare)))\<rparr>
         in new_RData t = RD_RDATA [] \<and>
            RR_Decode dnDec b spare pos =
              (if p5 + unat rdlength > length b + length spare
               then Inl (Panic ''slice bounds out of range'')
               else Inr (rr, p5 + unat rdlength)) \<and>
            (p5 + unat rdlength \<le> length b + length spare \<and>
             dn_codec dnEnc dnDec N \<and> name \<in> N \<longrightarrow>
               (case RR_Encode dnEnc rr w of
                  Inl e \<Rightarrow> False
                | Inr w' \<Rightarrow>
                    RR_Decode dnDec (Buf w') spare' (length (Buf w)) =
                      Inr (rr, length (Buf w'))))"
proof -
  define rr where "rr = \<lparr>RR_Name = name, RR_Type = t, RR_Class = cls, RR_TTL = ttl,
                   RR_RData = RD_RDATA (take (unat rdlength) (drop p5 (b @ spare)))\<rparr>"
  from assms(1) have fb: "new_RData t = RD_RDATA []" by (simp add: new_RData_fallback)
  have dec: "RR_Decode dnDec b spare pos =
              (if p5 + unat rdlength > length b + length spare
               then Inl (Panic ''slice bounds out of range'')
               else Inr (rr, p5 + unat rdlength))"
    unfolding rr_def
    by (rule RR_Decode_uncased [where dnDec = dnDec and b = b and pos = pos, OF assms])
  have rt: "case RR_Encode dnEnc rr w of
                  Inl e \<Rightarrow> False
                | Inr w' \<Rightarrow>
                    RR_Decode dnDec (Buf w') spare' (length (Buf w)) =
                      Inr (rr, length (Buf w'))"
    if "dn_codec dnEnc dnDec N" "name \<in> N"
  proof (rule RR_round_trip_RDATA [OF that(1)])
    show "RR_Name rr \<in> N" using that(2) by (simp add: rr_def)
    show "RR_RData rr = RD_RDATA (take (unat rdlength) (drop p5 (b @ spare)))"
      by (simp add: rr_def)
    have "unat rdlength < 2 ^ LENGTH(16)" by (rule unsigned_less)
    then show "length (take (unat rdlength) (drop p5 (b @ spare))) \<le> 65535" by simp
    show "RR_Type rr \<notin> set decoded_types" using assms(1) by (simp add: rr_def)
  qed
  from fb dec rt show ?thesis unfolding Let_def rr_def [symmetric] by blast
qed

lemma char_of_byte_a: "char_of_byte 97 = CHR ''a''"
proof -
  have "byte_of_char CHR ''a'' = 97" by (simp add: byte_of_char_def)
  with char_of_byte_inverse [of "CHR ''a''"] show ?thesis by simp
qed

theorem RR_Decode_unknown_type_witness:
  "RR_Decode sample_dnDec sample_wire [] 0 = Inr (sample_unknown, 15) \<and>
   RR_Decode sample_dnDec (take 13 sample_wire) [2, 3, 9] 0 = Inr (sample_unknown, 15) \<and>
   RR_RData sample_unknown = RD_RDATA [1, 2, 3] \<and>
   (case RR_Encode sample_dnEnc sample_unknown empty_Wirebuf of
      Inl e \<Rightarrow> False
    | Inr w' \<Rightarrow>
        RR_Decode sample_dnDec (Buf w') [] 0 = Inr (sample_unknown, length (Buf w')))"
proof -
  have ty: "(99 :: 16 word) \<notin> set decoded_types" by (simp add: decoded_types_def TYPE_defs)
  have h: "sample_dnDec sample_wire 0 = Inr (''a'', 2)"
    "Octets2_Decode sample_wire 2 = Inr (99, 4)"
    "Octets2_Decode sample_wire 4 = Inr (1, 6)"
    "Octets4_Decode sample_wire 6 = Inr (5, 10)"
    "Octets2_Decode sample_wire 10 = Inr (3, 12)"
    by (simp_all add: sample_dnDec_def sample_wire_def CharString_Decode_def Octets2_Decode_def
        Octets4_Decode_def underflow_def Let_def char_of_byte_a)
  have g: "sample_dnDec (take 13 sample_wire) 0 = Inr (''a'', 2)"
    "Octets2_Decode (take 13 sample_wire) 2 = Inr (99, 4)"
    "Octets2_Decode (take 13 sample_wire) 4 = Inr (1, 6)"
    "Octets4_Decode (take 13 sample_wire) 6 = Inr (5, 10)"
    "Octets2_Decode (take 13 sample_wire) 10 = Inr (3, 12)"
    by (simp_all add: sample_dnDec_def sample_wire_def CharString_Decode_def Octets2_Decode_def
        Octets4_Decode_def underflow_def Let_def char_of_byte_a)
  have r: "\<lparr>RR_Name = ''a'', RR_Type = 99, RR_Class = 1, RR_TTL = 5,
      RR_RData = RD_RDATA (take (unat (3 :: 16 word)) (drop 12 (sample_wire @ [])))\<rparr> = sample_unknown"
    "\<lparr>RR_Name = ''a'', RR_Type = 99, RR_Class = 1, RR_TTL = 5,
      RR_RData = RD_RDATA (take (unat (3 :: 16 word)) (drop 12 (take 13 sample_wire @ [2, 3, 9])))\<rparr>
       = sample_unknown"
    by (simp_all add: sample_unknown_def sample_wire_def)
  have l: "12 + unat (3 :: 16 word) \<le> length sample_wire + length ([] :: bytes)"
    "\<not> 12 + unat (3 :: 16 word) > length sample_wire + length ([] :: bytes)"
    "\<not> 12 + unat (3 :: 16 word) > length (take 13 sample_wire) + length ([2, 3, 9] :: bytes)"
    "12 + unat (3 :: 16 word) = 15"
    by (simp_all add: sample_wire_def)
  have nm: "''a'' \<in> sample_names" by (simp add: sample_names_def)
  have z: "length (Buf empty_Wirebuf) = 0" by (simp add: empty_Wirebuf_def)
  have rd: "RR_RData sample_unknown = RD_RDATA [1, 2, 3]" by (simp add: sample_unknown_def)
  note a = RR_Decode_unknown_type [where dnDec = sample_dnDec and b = sample_wire and pos = 0 and spare = "[]"
      and dnEnc = sample_dnEnc and N = sample_names and w = empty_Wirebuf and spare' = "[]",
      OF ty h, unfolded Let_def r z]
  note b = RR_Decode_unknown_type [where dnDec = sample_dnDec and b = "take 13 sample_wire" and pos = 0
      and spare = "[2, 3, 9]" and dnEnc = sample_dnEnc and N = sample_names
      and w = empty_Wirebuf and spare' = "[]", OF ty g, unfolded Let_def r]
  from a b l sample_codec nm rd show ?thesis by simp
qed

subsection \<open>The lexer: parentheses and newlines\<close>

lemmas lex_defs = NUL_def TAB_def LF_def CR_def DQUOTE_def sc_INITIAL_def sc_RRHEAD_def sc_DOMAIN_def
  sc_NUM_def sc_IPV4_def sc_IPV6_def sc_BASE32EXT_def sc_BASE64_def sc_TYPE_def sc_HEX_def sc_QSTR_def
  getc_def newLex_def error_message_def lex_Error_def lex_begin_def end_of_record_def zero_lval_def
  is_digit_def digit_value_def decimal_value_def Atoui64_def quoted_def yyaction_def is_blank_def
  is_let_or_digit_def match_domain_name_def starts_mnemonic_def yymatch_def unread_def yyb_def Lex_def
  stay_INITIAL_def head_after_name_def accept_all_def Let_def

lemmas lex_run =
  Lex_loop.simps(2) [of _ _ "pred_numeral k" for k, folded numeral_eq_Suc]
  tokens.simps(2) [of _ "pred_numeral k" for k, folded numeral_eq_Suc]
  getcs.simps(2) [of "pred_numeral k" for k, folded numeral_eq_Suc]

lemma lex_Error_cases:
  "lex_Error e l =
     (if handler_continues l (error_message l e) then Inr (report (error_message l e) l)
      else Inl (Panic (error_message l e)))"
  by (simp add: lex_Error_def handler_continues_def report_def Let_def split: option.splits)

lemma yymatch_paren_newline:
  "yymatch sc bol (LF # t) = Matched R_newline 1"
  "yymatch sc bol (CHR ''('' # t) = Matched R_lparen 1"
  "yymatch sc bol (CHR '')'' # t) = Matched R_rparen 1"
  by (simp_all add: yymatch_def LF_def CR_def)

lemma unread_buf [simp]: "unread (l\<lparr>lex_buf := b\<rparr>) = unread l"
  by (simp add: unread_def)

lemma read_one:
  assumes "unread l = c # t"
  shows "lex_buf (getcs 1 (l\<lparr>lex_buf := []\<rparr>)) = [c]"
    and "lex_inParen (getcs 1 (l\<lparr>lex_buf := []\<rparr>)) = lex_inParen l"
proof -
  from assms have p: "lex_peek l = c" "c \<noteq> NUL"
    by (auto simp: unread_def split: if_splits)
  from p show "lex_buf (getcs 1 (l\<lparr>lex_buf := []\<rparr>)) = [c]"
    by (simp add: getc_def Let_def split: list.splits)
  show "lex_inParen (getcs 1 (l\<lparr>lex_buf := []\<rparr>)) = lex_inParen l"
    by (simp add: getc_def Let_def split: list.splits)
qed

lemma Lex_loop_step:
  assumes "unread l = c # t" and "yymatch (lex_startCond l) (yyb l) (c # t) = Matched r k"
  shows "Lex_loop P D (Suc n) None lval l =
      (case yyaction P D r None lval (getcs k (l\<lparr>lex_buf := []\<rparr>)) of
         Inl e \<Rightarrow> Inl (Failed e)
       | Inr (Return t, lval', l2) \<Rightarrow> Inr (t, lval', l2)
       | Inr (Goto_yystate0 ret', lval', l2) \<Rightarrow> Lex_loop P D n ret' lval' l2)"
  using assms by (simp add: Let_def yyb_def)

lemma Lex_newline:
  assumes "unread l = LF # t"
  shows "Lex_loop P D (Suc (Suc n)) None lval l =
        (if lex_inParen l then Lex_loop P D (Suc n) None lval (getcs 1 (l\<lparr>lex_buf := []\<rparr>))
         else Inr (end_of_record, lval\<lparr>lval_str := [LF]\<rparr>, getcs 1 (l\<lparr>lex_buf := []\<rparr>)))"
  unfolding Lex_loop_step [OF assms yymatch_paren_newline(1)]
  using read_one [OF assms]
  by (simp add: yyaction_def end_of_record_def del: getcs.simps One_nat_def)

lemma Lex_lparen:
  assumes "unread l = CHR ''('' # t"
  shows "Lex_loop P D (Suc n) None lval l =
        (let l1 = getcs 1 (l\<lparr>lex_buf := []\<rparr>); msg = error_message l1 ''nested parenthesis'' in
         if \<not> lex_inParen l then Lex_loop P D n None lval (l1\<lparr>lex_inParen := True\<rparr>)
         else if handler_continues l1 msg
           then Lex_loop P D n None lval ((report msg l1)\<lparr>lex_inParen := True\<rparr>)
         else Inl (Failed (Panic msg)))"
  unfolding Lex_loop_step [OF assms yymatch_paren_newline(2)]
  using read_one [OF assms]
  by (simp add: yyaction_def lex_Error_cases Let_def del: getcs.simps One_nat_def decimal.simps)

lemma Lex_rparen:
  assumes "unread l = CHR '')'' # t"
  shows "Lex_loop P D (Suc (Suc n)) None lval l =
        (let l1 = getcs 1 (l\<lparr>lex_buf := []\<rparr>);
             msg = error_message l1 (''enexpected '' @ quoted '')'') in
         if lex_inParen l
           then Inr (end_of_record, lval\<lparr>lval_str := '')''\<rparr>, l1\<lparr>lex_inParen := False\<rparr>)
         else if handler_continues l1 msg
           then Inr (end_of_record, lval\<lparr>lval_str := '')''\<rparr>,
                     (report msg l1)\<lparr>lex_inParen := False\<rparr>)
         else Inl (Failed (Panic msg)))"
  unfolding Lex_loop_step [OF assms yymatch_paren_newline(3)]
  using read_one [OF assms]
  by (simp add: yyaction_def lex_Error_cases Let_def end_of_record_def report_def
           del: getcs.simps One_nat_def decimal.simps)

lemma scenario_head_after_name:
  "tokens head_after_name 20 (newLex ''zone'' scenario_text None) =
     Inr [(tDOMAIN_NAME, ''foo''), (tDECADIC, ''10''), (tDECADIC, ''20''),
          (end_of_record, '')''), (end_of_record, [LF]), (T_byte NUL, [])]"
  by (simp add: scenario_text_def lex_defs lex_run)

lemma scenario_stay_INITIAL:
  "tokens stay_INITIAL 20 (newLex ''zone'' scenario_text None) =
     Inr [(tDOMAIN_NAME, ''foo''), (T_byte CHR ''1'', []), (T_byte CHR ''0'', []),
          (tBLANK_START, '' ''), (T_byte CHR ''2'', []), (T_byte CHR ''0'', []),
          (end_of_record, '')''), (end_of_record, [LF]), (T_byte NUL, [])]"
  by (simp add: scenario_text_def lex_defs lex_run)

text \<open>
  Claim C8. \<open>Lex\<close> at a newline, with the flag of the parentheses set, produces no token
  for it: it reads the newline and scans on behind it as behind a blank; with the flag clear
  it returns the end of the record. At a \<open>(\<close> with the flag set it calls \<open>Error\<close>
  (nested parenthesis), which panics unless the callback lets the error pass; with the flag
  clear it sets the flag and scans on. At a \<open>)\<close> with the flag set it clears the flag and
  returns the end of the record; with the flag clear it calls \<open>Error\<close>. The tokens of
  \<open>foo ( 10\n 20 )\n\<close> have no end of record before the one at \<open>)\<close>, whether the
  parser reads the head of a record behind the owner name or stays in the initial condition.
\<close>

theorem Lex_parenthesis_continuation:
  "(unread l = LF # t \<longrightarrow>
      Lex_loop P D (Suc (Suc n)) None lval l =
        (if lex_inParen l then Lex_loop P D (Suc n) None lval (getcs 1 (l\<lparr>lex_buf := []\<rparr>))
         else Inr (end_of_record, lval\<lparr>lval_str := [LF]\<rparr>, getcs 1 (l\<lparr>lex_buf := []\<rparr>)))) \<and>
   (unread l = CHR ''('' # t \<longrightarrow>
      Lex_loop P D (Suc n) None lval l =
        (let l1 = getcs 1 (l\<lparr>lex_buf := []\<rparr>); msg = error_message l1 ''nested parenthesis'' in
         if \<not> lex_inParen l then Lex_loop P D n None lval (l1\<lparr>lex_inParen := True\<rparr>)
         else if handler_continues l1 msg
           then Lex_loop P D n None lval ((report msg l1)\<lparr>lex_inParen := True\<rparr>)
         else Inl (Failed (Panic msg)))) \<and>
   (unread l = CHR '')'' # t \<longrightarrow>
      Lex_loop P D (Suc (Suc n)) None lval l =
        (let l1 = getcs 1 (l\<lparr>lex_buf := []\<rparr>);
             msg = error_message l1 (''enexpected '' @ quoted '')'') in
         if lex_inParen l
           then Inr (end_of_record, lval\<lparr>lval_str := '')''\<rparr>, l1\<lparr>lex_inParen := False\<rparr>)
         else if handler_continues l1 msg
           then Inr (end_of_record, lval\<lparr>lval_str := '')''\<rparr>,
                     (report msg l1)\<lparr>lex_inParen := False\<rparr>)
         else Inl (Failed (Panic msg)))) \<and>
   tokens head_after_name 20 (newLex ''zone'' scenario_text None) =
     Inr [(tDOMAIN_NAME, ''foo''), (tDECADIC, ''10''), (tDECADIC, ''20''),
          (end_of_record, '')''), (end_of_record, [LF]), (T_byte NUL, [])] \<and>
   tokens stay_INITIAL 20 (newLex ''zone'' scenario_text None) =
     Inr [(tDOMAIN_NAME, ''foo''), (T_byte CHR ''1'', []), (T_byte CHR ''0'', []),
          (tBLANK_START, '' ''), (T_byte CHR ''2'', []), (T_byte CHR ''0'', []),
          (end_of_record, '')''), (end_of_record, [LF]), (T_byte NUL, [])]"
  by (intro conjI impI Lex_newline Lex_lparen Lex_rparen scenario_head_after_name
      scenario_stay_INITIAL)

lemma paren_state_unread: "c \<noteq> NUL \<Longrightarrow> unread (paren_state (c # t) flag) = c # t"
  "lex_inParen (paren_state s flag) = flag"
  by (simp_all add: paren_state_def newLex_def getc_def unread_def Let_def split: list.splits)

theorem Lex_parenthesis_continuation_witness:
  "Lex no_address no_address zero_lval (paren_state [LF, CHR '')''] True) =
     Inr (end_of_record, zero_lval\<lparr>lval_str := '')''\<rparr>,
          getcs 2 (paren_state [LF, CHR '')''] False)\<lparr>lex_buf := '')''\<rparr>) \<and>
   Lex no_address no_address zero_lval (paren_state ''('' True) =
     Inl (Failed (Panic ''zone:1:1 - nested parenthesis'')) \<and>
   Lex no_address no_address zero_lval (paren_state '')'' False) =
     Inl (Failed (Panic (''zone:1:1 - enexpected '' @ quoted '')''))) \<and>
   Lex no_address no_address zero_lval (paren_state [LF] False) =
     Inr (end_of_record, zero_lval\<lparr>lval_str := [LF]\<rparr>, getcs 1 (paren_state [LF] False))"
proof -
  have u: "unread (paren_state [LF, CHR '')''] True) = LF # '')''"
    "unread (paren_state ''('' True) = CHR ''('' # []"
    "unread (paren_state '')'' False) = CHR '')'' # []"
    "unread (paren_state [LF] False) = LF # []"
    by (simp_all add: paren_state_unread NUL_def LF_def)
  note a = Lex_parenthesis_continuation [of "paren_state [LF, CHR '')''] True" "'')''" no_address no_address 2 zero_lval]
  note b = Lex_parenthesis_continuation [of "paren_state ''('' True" "[]" no_address no_address 2 zero_lval]
  note c = Lex_parenthesis_continuation [of "paren_state '')'' False" "[]" no_address no_address 1 zero_lval]
  note d = Lex_parenthesis_continuation [of "paren_state [LF] False" "[]" no_address no_address 1 zero_lval]
  from a u(1) have 1: "Lex no_address no_address zero_lval (paren_state [LF, CHR '')''] True) =
     Inr (end_of_record, zero_lval\<lparr>lval_str := '')''\<rparr>,
          getcs 2 (paren_state [LF, CHR '')''] False)\<lparr>lex_buf := '')''\<rparr>)"
    by (simp add: paren_state_def lex_defs lex_run)
  from b u(2) have 2: "Lex no_address no_address zero_lval (paren_state ''('' True) =
     Inl (Failed (Panic ''zone:1:1 - nested parenthesis''))"
    by (simp add: paren_state_def handler_continues_def lex_defs lex_run)
  from c u(3) have 3: "Lex no_address no_address zero_lval (paren_state '')'' False) =
     Inl (Failed (Panic (''zone:1:1 - enexpected '' @ quoted '')'')))"
    by (simp add: paren_state_def handler_continues_def lex_defs lex_run)
  from d u(4) have 4: "Lex no_address no_address zero_lval (paren_state [LF] False) =
     Inr (end_of_record, zero_lval\<lparr>lval_str := [LF]\<rparr>, getcs 1 (paren_state [LF] False))"
    by (simp add: paren_state_def lex_defs lex_run)
  from 1 2 3 4 show ?thesis by blast
qed

subsection \<open>The lexer: errors\<close>





end
